theory Spec2Isabelle
  imports Complex_Main "HOL-Library.Word" "HOL-Library.Log_Nat"
begin

section \<open>Memory, errors and loops\<close>

text \<open>
  The element type \<open>T\<close> of the kernels is float or double.  The two gradient kernels
  are modelled for any arithmetic of \<open>T\<close>, given as a parameter; exact arithmetic on the
  reals and rounded binary arithmetic are two such arithmetics.  The orchestrators are
  modelled over the reals with exact arithmetic: what is stated of them is which kernel
  calls they make, in which order and on which rows, and where they add.  Machine \<open>int\<close>
  values are modelled by \<open>int\<close> (signed overflow is undefined in C++ and is not
  modelled); the 64-bit random state is a \<open>64 word\<close>.

  Every buffer the engine receives or allocates is a block of its own; a pointer is a
  block together with an element offset, as produced by pointer arithmetic on the
  block's base.  A read or a write outside its block is undefined behaviour in C++ and
  is the error \<open>OutOfBounds\<close> of the block here.
\<close>

datatype buf = Syn0 | Syn1 | ExpTable | Syn1Neg | NegTable | Neu1 | Neu1e
  | IdxSyn0 | IdxSyn1 | Codes

datatype error = OutOfBounds buf | DivByZero | CastOutOfRange

type_synonym 't memory = "buf \<Rightarrow> 't list"
type_synonym mem = "real memory"
type_synonym ptr = "buf \<times> int"

definition bind_r :: "error + 'a \<Rightarrow> ('a \<Rightarrow> error + 'b) \<Rightarrow> error + 'b" where
  "bind_r r f = (case r of Inl e \<Rightarrow> Inl e | Inr x \<Rightarrow> f x)"

definition ptr_add :: "ptr \<Rightarrow> int \<Rightarrow> ptr" where
  "ptr_add p k = (fst p, snd p + k)"

definition load :: "'t memory \<Rightarrow> ptr \<Rightarrow> error + 't" where
  "load m p =
     (if 0 \<le> snd p \<and> snd p < int (length (m (fst p)))
      then Inr (m (fst p) ! nat (snd p))
      else Inl (OutOfBounds (fst p)))"

definition store :: "'t memory \<Rightarrow> ptr \<Rightarrow> 't \<Rightarrow> error + 't memory" where
  "store m p v =
     (if 0 \<le> snd p \<and> snd p < int (length (m (fst p)))
      then Inr (m(fst p := (m (fst p))[nat (snd p) := v]))
      else Inl (OutOfBounds (fst p)))"

text \<open>The integer arrays (\<open>intArrays\<close>) are read-only lists; \<open>int_at b xs i\<close> is \<open>xs[i]\<close>.\<close>

definition int_at :: "buf \<Rightarrow> int list \<Rightarrow> int \<Rightarrow> error + int" where
  "int_at b xs i =
     (if 0 \<le> i \<and> i < int (length xs) then Inr (xs ! nat i) else Inl (OutOfBounds b))"

text \<open>
  \<open>for (int x = 0; x < n; x++) body\<close> runs the body on \<open>[0..<nat n]\<close>; the loops of
  the source neither change their counter nor break, and \<open>continue\<close> is the body
  returning early.
\<close>

fun for_loop :: "nat list \<Rightarrow> (nat \<Rightarrow> 's \<Rightarrow> error + 's) \<Rightarrow> 's \<Rightarrow> error + 's" where
  "for_loop [] body s = Inr s"
| "for_loop (x # xs) body s =
     (case body x s of Inl e \<Rightarrow> Inl e | Inr s' \<Rightarrow> for_loop xs body s')"

text \<open>The cast \<open>(int) x\<close> of a real truncates towards zero.\<close>

definition to_int :: "real \<Rightarrow> int" where
  "to_int x = (if 0 \<le> x then \<lfloor>x\<rfloor> else \<lceil>x\<rceil>)"

text \<open>The cast \<open>(unsigned long long) x\<close>; undefined in C++ when the truncated value
  is not representable.\<close>

definition to_u64 :: "real \<Rightarrow> error + 64 word" where
  "to_u64 x =
     (if 0 \<le> to_int x \<and> to_int x < 2 ^ 64 then Inr (word_of_int (to_int x))
      else Inl CastOutOfRange)"

section \<open>The gradient kernels\<close>

text \<open>
  The kernels are templates over the element type \<open>T\<close> (float or double).  Their
  arithmetic is a parameter of the model: a record of the operations on \<open>T\<close> and on
  \<open>double\<close>, the type of the literal \<open>2.0\<close> in the bucket expression.  Every operator
  of the source is one operation of the record, taken in the order and at the type C++
  gives it.  \<open>HS_MAX_EXP\<close> is the float literal \<open>6.0f\<close>, converted to \<open>T\<close> where it
  meets a value of \<open>T\<close>: \<open>max_exp_T\<close>, and \<open>neg_T\<close> of it for \<open>- HS_MAX_EXP\<close>.  An
  \<open>int\<close> operand of an operation on \<open>T\<close> is converted to \<open>T\<close> (\<open>of_int_T\<close>, also the
  cast \<open>(T) expLength\<close>); a value of \<open>T\<close> that meets a \<open>double\<close> is converted to
  \<open>double\<close> (\<open>to_double\<close>, the identity when \<open>T\<close> is double); \<open>x >= y\<close> is
  \<open>less_eq_T y x\<close> and \<open>x > y\<close> is \<open>less_T y x\<close>.  The cast \<open>(int) x\<close> of a
  \<open>double\<close> is undefined in C++ when \<open>x\<close> is not a number or its truncation is not an
  \<open>int\<close>; \<open>int_of_D\<close> returns an error there.  \<open>mul_add_T a b c\<close> is the expression
  \<open>a * b + c\<close> of the two loops, which a compiler may evaluate as a product and a sum
  or contract into one fused operation.  The loops run in source order, as they do
  without OpenMP (the pragmas only allow a compiler to vectorise them).
\<close>

record ('t, 'd) arith =
  zero_T :: 't
  max_exp_T :: 't
  neg_T :: "'t \<Rightarrow> 't"
  add_T :: "'t \<Rightarrow> 't \<Rightarrow> 't"
  sub_T :: "'t \<Rightarrow> 't \<Rightarrow> 't"
  mul_T :: "'t \<Rightarrow> 't \<Rightarrow> 't"
  mul_add_T :: "'t \<Rightarrow> 't \<Rightarrow> 't \<Rightarrow> 't"
  div_T :: "'t \<Rightarrow> 't \<Rightarrow> 't"
  less_T :: "'t \<Rightarrow> 't \<Rightarrow> bool"
  less_eq_T :: "'t \<Rightarrow> 't \<Rightarrow> bool"
  of_int_T :: "int \<Rightarrow> 't"
  to_double :: "'t \<Rightarrow> 'd"
  two_D :: 'd
  div_D :: "'d \<Rightarrow> 'd \<Rightarrow> 'd"
  mul_D :: "'d \<Rightarrow> 'd \<Rightarrow> 'd"
  int_of_D :: "'d \<Rightarrow> error + int"

text \<open>The reduction loop \<open>dot += syn0[x] * syn1[x]\<close>, from \<open>dot = (T) 0.0f\<close>.\<close>

definition dot_loop_T :: "('t, 'd) arith \<Rightarrow> 't memory \<Rightarrow> ptr \<Rightarrow> ptr \<Rightarrow> int \<Rightarrow> error + 't" where
  "dot_loop_T ar m syn0 syn1 vectorLength =
     for_loop [0..<nat vectorLength]
       (\<lambda>x dot.
          bind_r (load m (ptr_add syn0 (int x))) (\<lambda>a.
          bind_r (load m (ptr_add syn1 (int x))) (\<lambda>b.
          Inr (mul_add_T ar a b dot))))
       (zero_T ar)"

text \<open>The update loop \<open>vecY[x] = g * vecX[x] + vecY[x]\<close> (axpy1 and axpy2 of both kernels).\<close>

definition axpy_loop_T ::
  "('t, 'd) arith \<Rightarrow> 't \<Rightarrow> ptr \<Rightarrow> ptr \<Rightarrow> int \<Rightarrow> 't memory \<Rightarrow> error + 't memory" where
  "axpy_loop_T ar g vecX vecY vectorLength m =
     for_loop [0..<nat vectorLength]
       (\<lambda>x m.
          bind_r (load m (ptr_add vecX (int x))) (\<lambda>a.
          bind_r (load m (ptr_add vecY (int x))) (\<lambda>b.
          store m (ptr_add vecY (int x)) (mul_add_T ar g a b))))
       m"

text \<open>The bucket of a dot product in the sigmoid table,
  \<open>(int) ((dot + HS_MAX_EXP) * ((T) expLength / HS_MAX_EXP / 2.0))\<close>: the sum and the
  first quotient are operations on \<open>T\<close>, the second quotient and the product are
  operations on \<open>double\<close>.\<close>

definition bucket_T :: "('t, 'd) arith \<Rightarrow> 't \<Rightarrow> int \<Rightarrow> error + int" where
  "bucket_T ar dot expLength =
     int_of_D ar
       (mul_D ar (to_double ar (add_T ar dot (max_exp_T ar)))
          (div_D ar (to_double ar (div_T ar (of_int_T ar expLength) (max_exp_T ar)))
             (two_D ar)))"

text \<open>\<open>HierarchicSoftmax::executeAggregate\<close>, with \<open>arguments[0..3]\<close> the pointers
  \<open>syn0\<close>, \<open>syn1\<close>, \<open>expTable\<close>, \<open>neu1e\<close>, \<open>indexArguments[0..2]\<close> the integers
  \<open>vectorLength\<close>, \<open>expLength\<close>, \<open>code\<close> and \<open>realArguments[0]\<close> the rate \<open>alpha\<close>.\<close>

definition hs_exec_T ::
  "('t, 'd) arith \<Rightarrow> 't memory \<Rightarrow> ptr \<Rightarrow> ptr \<Rightarrow> ptr \<Rightarrow> ptr \<Rightarrow> int \<Rightarrow> int \<Rightarrow> int \<Rightarrow> 't
     \<Rightarrow> error + 't memory" where
  "hs_exec_T ar m syn0 syn1 expTable neu1e vectorLength expLength code alpha =
     bind_r (dot_loop_T ar m syn0 syn1 vectorLength) (\<lambda>dot.
       if less_T ar dot (neg_T ar (max_exp_T ar)) \<or> less_eq_T ar (max_exp_T ar) dot then Inr m
       else
         bind_r (bucket_T ar dot expLength) (\<lambda>idx.
           if idx \<ge> expLength then Inr m
           else
             bind_r (load m (ptr_add expTable idx)) (\<lambda>f.
               let g = mul_T ar (sub_T ar (of_int_T ar (1 - code)) f) alpha in
               bind_r (axpy_loop_T ar g syn1 neu1e vectorLength m) (\<lambda>m1.
               axpy_loop_T ar g syn0 syn1 vectorLength m1))))"

text \<open>\<open>NegativeSampling::executeAggregate\<close>, with the same argument layout
  (\<open>arguments[1]\<close> is the target row of \<open>syn1Neg\<close>).\<close>

definition ns_exec_T ::
  "('t, 'd) arith \<Rightarrow> 't memory \<Rightarrow> ptr \<Rightarrow> ptr \<Rightarrow> ptr \<Rightarrow> ptr \<Rightarrow> int \<Rightarrow> int \<Rightarrow> int \<Rightarrow> 't
     \<Rightarrow> error + 't memory" where
  "ns_exec_T ar m syn0 syn1Neg expTable neu1e vectorLength expLength code alpha =
     bind_r (dot_loop_T ar m syn0 syn1Neg vectorLength) (\<lambda>dot.
       let axpys = (\<lambda>g.
             bind_r (axpy_loop_T ar g syn1Neg neu1e vectorLength m) (\<lambda>m1.
             axpy_loop_T ar g syn0 syn1Neg vectorLength m1)) in
       if less_T ar (max_exp_T ar) dot then axpys (mul_T ar (of_int_T ar (code - 1)) alpha)
       else if less_T ar dot (neg_T ar (max_exp_T ar)) then
         axpys (mul_T ar (of_int_T ar (code - 0)) alpha)
       else
         bind_r (bucket_T ar dot expLength) (\<lambda>idx.
           if idx \<ge> expLength then Inr m
           else
             bind_r (load m (ptr_add expTable idx)) (\<lambda>f.
               axpys (mul_T ar (sub_T ar (of_int_T ar code) f) alpha))))"

subsection \<open>The kernels in exact arithmetic\<close>

text \<open>
  The orchestrators, and the statements that are about exact arithmetic, use the kernels
  with \<open>T\<close> the reals and every operation exact; they are the kernels above at the
  arithmetic \<open>exact\<close>.
\<close>

definition HS_MAX_EXP :: real where
  "HS_MAX_EXP = 6"

text \<open>The reduction loop \<open>dot += syn0[x] * syn1[x]\<close>.\<close>

definition dot_loop :: "mem \<Rightarrow> ptr \<Rightarrow> ptr \<Rightarrow> int \<Rightarrow> error + real" where
  "dot_loop m syn0 syn1 vectorLength =
     for_loop [0..<nat vectorLength]
       (\<lambda>x dot.
          bind_r (load m (ptr_add syn0 (int x))) (\<lambda>a.
          bind_r (load m (ptr_add syn1 (int x))) (\<lambda>b.
          Inr (dot + a * b))))
       0"

text \<open>The update loop \<open>vecY[x] = g * vecX[x] + vecY[x]\<close> (axpy1 and axpy2 of both kernels).\<close>

definition axpy_loop :: "real \<Rightarrow> ptr \<Rightarrow> ptr \<Rightarrow> int \<Rightarrow> mem \<Rightarrow> error + mem" where
  "axpy_loop g vecX vecY vectorLength m =
     for_loop [0..<nat vectorLength]
       (\<lambda>x m.
          bind_r (load m (ptr_add vecX (int x))) (\<lambda>a.
          bind_r (load m (ptr_add vecY (int x))) (\<lambda>b.
          store m (ptr_add vecY (int x)) (g * a + b))))
       m"

text \<open>The bucket of a dot product in the sigmoid table, as both kernels compute it.\<close>

definition bucket :: "real \<Rightarrow> int \<Rightarrow> int" where
  "bucket dot expLength =
     to_int ((dot + HS_MAX_EXP) * (real_of_int expLength / HS_MAX_EXP / 2))"

text \<open>\<open>HierarchicSoftmax::executeAggregate\<close>, with \<open>arguments[0..3]\<close> the pointers
  \<open>syn0\<close>, \<open>syn1\<close>, \<open>expTable\<close>, \<open>neu1e\<close>, \<open>indexArguments[0..2]\<close> the integers
  \<open>vectorLength\<close>, \<open>expLength\<close>, \<open>code\<close> and \<open>realArguments[0]\<close> the rate \<open>alpha\<close>.\<close>

definition hs_exec ::
  "mem \<Rightarrow> ptr \<Rightarrow> ptr \<Rightarrow> ptr \<Rightarrow> ptr \<Rightarrow> int \<Rightarrow> int \<Rightarrow> int \<Rightarrow> real \<Rightarrow> error + mem" where
  "hs_exec m syn0 syn1 expTable neu1e vectorLength expLength code alpha =
     bind_r (dot_loop m syn0 syn1 vectorLength) (\<lambda>dot.
       if dot < - HS_MAX_EXP \<or> dot \<ge> HS_MAX_EXP then Inr m
       else
         let idx = bucket dot expLength in
         if idx \<ge> expLength then Inr m
         else
           bind_r (load m (ptr_add expTable idx)) (\<lambda>f.
             let g = (1 - real_of_int code - f) * alpha in
             bind_r (axpy_loop g syn1 neu1e vectorLength m) (\<lambda>m1.
             axpy_loop g syn0 syn1 vectorLength m1)))"

text \<open>\<open>NegativeSampling::executeAggregate\<close>, with the same argument layout
  (\<open>arguments[1]\<close> is the target row of \<open>syn1Neg\<close>).\<close>

definition ns_exec ::
  "mem \<Rightarrow> ptr \<Rightarrow> ptr \<Rightarrow> ptr \<Rightarrow> ptr \<Rightarrow> int \<Rightarrow> int \<Rightarrow> int \<Rightarrow> real \<Rightarrow> error + mem" where
  "ns_exec m syn0 syn1Neg expTable neu1e vectorLength expLength code alpha =
     bind_r (dot_loop m syn0 syn1Neg vectorLength) (\<lambda>dot.
       let axpys = (\<lambda>g.
             bind_r (axpy_loop g syn1Neg neu1e vectorLength m) (\<lambda>m1.
             axpy_loop g syn0 syn1Neg vectorLength m1)) in
       if dot > HS_MAX_EXP then axpys ((real_of_int code - 1) * alpha)
       else if dot < - HS_MAX_EXP then axpys ((real_of_int code - 0) * alpha)
       else
         let idx = bucket dot expLength in
         if idx \<ge> expLength then Inr m
         else
           bind_r (load m (ptr_add expTable idx)) (\<lambda>f.
             axpys ((real_of_int code - f) * alpha)))"

text \<open>Exact arithmetic as an arithmetic of the kernels.\<close>

definition exact :: "(real, real) arith" where
  "exact = \<lparr>zero_T = 0, max_exp_T = HS_MAX_EXP, neg_T = uminus, add_T = (+), sub_T = (-),
     mul_T = (*), mul_add_T = (\<lambda>a b c. a * b + c), div_T = (/),
     less_T = (<), less_eq_T = (\<le>), of_int_T = real_of_int,
     to_double = (\<lambda>x. x), two_D = 2, div_D = (/), mul_D = (*),
     int_of_D = (\<lambda>x. Inr (to_int x))\<rparr>"

subsection \<open>The kernels in rounded arithmetic\<close>

text \<open>
  Binary floating point with \<open>p\<close> significant bits, on the reals that are its finite
  values: the result of an operation is the exact result rounded to the nearest value
  with \<open>p\<close> significant bits, to the one with an even last bit when two are equally
  near.  \<open>fl p x\<close> is that rounding, for \<open>x\<close> in the normal range of the format: overflow,
  subnormal results, infinities, NaN and the sign of zero are not represented, and the
  concrete runs below stay clear of them.
  \<open>ilog2 x\<close> is the exponent of \<open>x > 0\<close>, the \<open>e\<close> with \<open>2^e \<le> x < 2^(e+1)\<close>.
\<close>

definition round_even :: "real \<Rightarrow> int" where
  "round_even x =
     (let n = \<lfloor>x\<rfloor> in
      if x - of_int n < 1 / 2 then n
      else if 1 / 2 < x - of_int n then n + 1
      else if even n then n else n + 1)"

definition ilog2 :: "real \<Rightarrow> int" where
  "ilog2 x = (if 1 \<le> x then bitlen \<lfloor>x\<rfloor> - 1 else - bitlen (\<lceil>1 / x\<rceil> - 1))"

definition pow2 :: "int \<Rightarrow> real" where
  "pow2 q = (if 0 \<le> q then 2 ^ nat q else 1 / 2 ^ nat (- q))"

definition fl :: "nat \<Rightarrow> real \<Rightarrow> real" where
  "fl p x =
     (if x = 0 then 0
      else let u = pow2 (ilog2 \<bar>x\<bar> - int p + 1) in of_int (round_even (x / u)) * u)"

text \<open>The arithmetic of the kernels for \<open>T\<close> with \<open>p\<close> significant bits (24 for float,
  53 for double), every operation rounded on its own (\<open>a * b + c\<close> is not contracted);
  the cast to \<open>int\<close> truncates and is defined when the result is an \<open>int\<close> of 32 bits.\<close>

definition rounded :: "nat \<Rightarrow> (real, real) arith" where
  "rounded p = \<lparr>zero_T = 0, max_exp_T = 6, neg_T = uminus,
     add_T = (\<lambda>x y. fl p (x + y)), sub_T = (\<lambda>x y. fl p (x - y)),
     mul_T = (\<lambda>x y. fl p (x * y)), mul_add_T = (\<lambda>a b c. fl p (fl p (a * b) + c)),
     div_T = (\<lambda>x y. fl p (x / y)),
     less_T = (<), less_eq_T = (\<le>), of_int_T = (\<lambda>i. fl p (real_of_int i)),
     to_double = (\<lambda>x. x), two_D = 2,
     div_D = (\<lambda>x y. fl 53 (x / y)), mul_D = (\<lambda>x y. fl 53 (x * y)),
     int_of_D = (\<lambda>x. if - (2 ^ 31) \<le> to_int x \<and> to_int x < 2 ^ 31 then Inr (to_int x)
                       else Inl CastOutOfRange)\<rparr>"

definition binary32 :: "(real, real) arith" where
  "binary32 = rounded 24"

definition binary64 :: "(real, real) arith" where
  "binary64 = rounded 53"

text \<open>An arithmetic on the reals extended by one more value, \<open>None\<close>, that is not a
  number: an operation with such an operand gives it back, a comparison with such an
  operand is false, and its cast to \<open>int\<close> is undefined.\<close>

definition lift_nan ::
  "(real \<Rightarrow> real \<Rightarrow> real) \<Rightarrow> real option \<Rightarrow> real option \<Rightarrow> real option" where
  "lift_nan f x y = (case x of None \<Rightarrow> None | Some a \<Rightarrow> map_option (f a) y)"

definition both_numbers ::
  "(real \<Rightarrow> real \<Rightarrow> bool) \<Rightarrow> real option \<Rightarrow> real option \<Rightarrow> bool" where
  "both_numbers r x y =
     (case x of None \<Rightarrow> False
      | Some a \<Rightarrow> (case y of None \<Rightarrow> False | Some b \<Rightarrow> r a b))"

definition with_nan :: "(real, real) arith \<Rightarrow> (real option, real option) arith" where
  "with_nan ar = \<lparr>zero_T = Some (zero_T ar), max_exp_T = Some (max_exp_T ar),
     neg_T = map_option (neg_T ar),
     add_T = lift_nan (add_T ar), sub_T = lift_nan (sub_T ar),
     mul_T = lift_nan (mul_T ar),
     mul_add_T = (\<lambda>x y z. case x of None \<Rightarrow> None
        | Some a \<Rightarrow> (case y of None \<Rightarrow> None | Some b \<Rightarrow> map_option (mul_add_T ar a b) z)),
     div_T = lift_nan (div_T ar),
     less_T = both_numbers (less_T ar), less_eq_T = both_numbers (less_eq_T ar),
     of_int_T = (\<lambda>i. Some (of_int_T ar i)),
     to_double = map_option (to_double ar), two_D = Some (two_D ar),
     div_D = lift_nan (div_D ar), mul_D = lift_nan (mul_D ar),
     int_of_D = (\<lambda>x. case x of None \<Rightarrow> Inl CastOutOfRange | Some a \<Rightarrow> int_of_D ar a)\<rparr>"

section \<open>The orchestrators\<close>

text \<open>
  The five buffers of \<open>arguments\<close> are the bases of the blocks \<open>Syn0\<close>, \<open>Syn1\<close>,
  \<open>ExpTable\<close>, \<open>Syn1Neg\<close> and \<open>NegTable\<close>; \<open>neu1e\<close> and \<open>neu1\<close> are the blocks
  \<open>Neu1e\<close> and \<open>Neu1\<close>, allocated and zeroed at the start of an invocation and
  released (emptied) at its end.  The scalars both orchestrators share are the fields of
  \<open>rounds_args\<close>: the entries of \<open>indexArguments\<close> by their names, the integer arrays
  \<open>idxSyn1\<close> and \<open>codes\<close>, and \<open>realArguments[0..1]\<close> as \<open>alpha\<close> and \<open>seed\<close>.
\<close>

record rounds_args =
  vectorLength :: int
  hsRounds :: int
  ngRounds :: int
  expLength :: int
  vocabSize :: int
  ngStarter :: int
  negTableLength :: int
  idxSyn1 :: "int list"
  codes :: "int list"
  alpha :: real
  seed :: real

record skipgram_args = rounds_args +
  syn0Row :: int

record cbow_args = rounds_args +
  idxSyn0 :: "int list"
  idxSyn0Length :: int
  initialIdx :: int

text \<open>One hierarchical-softmax round \<open>r\<close>, and the loop over \<open>hsRounds\<close>; \<open>emb\<close> is
  \<open>args[0]\<close>, the embedding side.\<close>

definition hs_body :: "'a rounds_args_scheme \<Rightarrow> ptr \<Rightarrow> nat \<Rightarrow> mem \<Rightarrow> error + mem" where
  "hs_body a emb r m =
     bind_r (int_at IdxSyn1 (idxSyn1 a) (int r)) (\<lambda>row.
     bind_r (int_at Codes (codes a) (int r)) (\<lambda>code.
     hs_exec m emb (ptr_add (Syn1, 0) (row * vectorLength a)) (ExpTable, 0) (Neu1e, 0)
       (vectorLength a) (expLength a) code (alpha a)))"

definition hs_rounds :: "'a rounds_args_scheme \<Rightarrow> ptr \<Rightarrow> mem \<Rightarrow> error + mem" where
  "hs_rounds a emb m =
     (if hsRounds a > 0 then for_loop [0..<nat (hsRounds a)] (hs_body a emb) m else Inr m)"

text \<open>The draw of a negative candidate: the random state is advanced, the candidate is
  read from \<open>negTable\<close> and replaced by the fallback when it is \<open>\<le> 0\<close> or
  \<open>\<ge> vocabSize\<close>.  The \<open>int\<close> operands \<open>negTableLength\<close> and \<open>vocabSize - 1\<close> are
  converted to \<open>unsigned long long\<close> for \<open>%\<close>; the fallback is converted back to
  \<open>int\<close>.\<close>

definition ng_draw :: "'a rounds_args_scheme \<Rightarrow> mem \<Rightarrow> 64 word \<Rightarrow> error + (64 word \<times> int)" where
  "ng_draw a m next_random =
     (let nr = next_random * 25214903917 + 11;
          len = (word_of_int (negTableLength a) :: 64 word) in
      if len = 0 then Inl DivByZero
      else
        bind_r (load m (ptr_add (NegTable, 0) (uint (drop_bit 16 nr mod len)))) (\<lambda>v.
          let target = to_int v in
          if target \<le> 0 \<or> target \<ge> vocabSize a then
            (let d = (word_of_int (vocabSize a - 1) :: 64 word) in
             if d = 0 then Inl DivByZero
             else Inr (nr, sint (ucast (nr mod d + 1) :: 32 word)))
          else Inr (nr, target)))"

text \<open>The body of the negative-sampling loop on the locals \<open>next_random\<close>, \<open>target\<close>
  and the memory.\<close>

definition ng_body ::
  "'a rounds_args_scheme \<Rightarrow> ptr \<Rightarrow> nat \<Rightarrow> 64 word \<times> int \<times> mem \<Rightarrow> error + 64 word \<times> int \<times> mem" where
  "ng_body a emb r s =
     (case s of (next_random, target, m) \<Rightarrow>
        if r = 0 then
          bind_r (ns_exec m emb (ptr_add (Syn1Neg, 0) (target * vectorLength a)) (ExpTable, 0)
                    (Neu1e, 0) (vectorLength a) (expLength a) 1 (alpha a)) (\<lambda>m'.
          Inr (next_random, target, m'))
        else
          bind_r (ng_draw a m next_random) (\<lambda>(nr, t).
            if t = ngStarter a then Inr (nr, t, m)
            else
              bind_r (ns_exec m emb (ptr_add (Syn1Neg, 0) (t * vectorLength a)) (ExpTable, 0)
                        (Neu1e, 0) (vectorLength a) (expLength a) 0 (alpha a)) (\<lambda>m'.
              Inr (nr, t, m'))))"

definition ng_rounds :: "'a rounds_args_scheme \<Rightarrow> ptr \<Rightarrow> 64 word \<Rightarrow> mem \<Rightarrow> error + mem" where
  "ng_rounds a emb next_random m =
     (if ngRounds a > 0 then
        bind_r (for_loop [0..<nat (ngRounds a + 1)] (ng_body a emb)
                  (next_random, ngStarter a, m)) (\<lambda>s.
        Inr (snd (snd s)))
      else Inr m)"

text \<open>The loop \<open>vecY[x] += vecX[x]\<close>.\<close>

definition add_loop :: "ptr \<Rightarrow> ptr \<Rightarrow> int \<Rightarrow> mem \<Rightarrow> error + mem" where
  "add_loop vecX vecY n m =
     for_loop [0..<nat n]
       (\<lambda>x m.
          bind_r (load m (ptr_add vecY (int x))) (\<lambda>b.
          bind_r (load m (ptr_add vecX (int x))) (\<lambda>a.
          store m (ptr_add vecY (int x)) (b + a))))
       m"

subsection \<open>SkipGram\<close>

text \<open>\<open>SkipGram::executeAggregate\<close> up to the end of the rounds, and whole.\<close>

definition skipgram_rounds :: "skipgram_args \<Rightarrow> mem \<Rightarrow> error + mem" where
  "skipgram_rounds a m =
     (let m0 = m(Neu1e := replicate (nat (vectorLength a)) 0);
          syn0 = ptr_add (Syn0, 0) (syn0Row a * vectorLength a) in
      bind_r (to_u64 (seed a)) (\<lambda>next_random.
      bind_r (hs_rounds a syn0 m0) (\<lambda>m1.
      ng_rounds a syn0 next_random m1)))"

definition skipgram :: "skipgram_args \<Rightarrow> mem \<Rightarrow> error + mem" where
  "skipgram a m =
     bind_r (skipgram_rounds a m) (\<lambda>m2.
     bind_r (add_loop (Neu1e, 0) (ptr_add (Syn0, 0) (syn0Row a * vectorLength a))
               (vectorLength a) m2) (\<lambda>m3.
     Inr (m3(Neu1e := []))))"

subsection \<open>CBOW\<close>

text \<open>Division of an element by the \<open>int\<close> \<open>idxSyn0Length\<close>.\<close>

definition div_by :: "real \<Rightarrow> int \<Rightarrow> error + real" where
  "div_by v d = (if d = 0 then Inl DivByZero else Inr (v / real_of_int d))"

text \<open>Building \<open>neu1\<close> for the current window, and averaging it.\<close>

definition cbow_sum :: "cbow_args \<Rightarrow> mem \<Rightarrow> error + mem" where
  "cbow_sum a m =
     for_loop [0..<nat (idxSyn0Length a)]
       (\<lambda>c m.
          bind_r (int_at IdxSyn0 (idxSyn0 a) (int c)) (\<lambda>w.
          add_loop (ptr_add (Syn0, 0) (w * vectorLength a)) (Neu1, 0) (vectorLength a) m))
       m"

definition cbow_average :: "cbow_args \<Rightarrow> mem \<Rightarrow> error + mem" where
  "cbow_average a m =
     (if idxSyn0Length a > 0 then
        for_loop [0..<nat (vectorLength a)]
          (\<lambda>i m.
             bind_r (load m (ptr_add (Neu1, 0) (int i))) (\<lambda>v.
             bind_r (div_by v (idxSyn0Length a)) (\<lambda>q.
             store m (ptr_add (Neu1, 0) (int i)) q)))
          m
      else Inr m)"

definition cbow_neu1 :: "cbow_args \<Rightarrow> mem \<Rightarrow> error + mem" where
  "cbow_neu1 a m =
     (let m0 = m(Neu1 := replicate (nat (vectorLength a)) 0,
                 Neu1e := replicate (nat (vectorLength a)) 0) in
      bind_r (cbow_sum a m0) (cbow_average a))"

text \<open>Propagating \<open>neu1e\<close> into the rows of \<open>syn0\<close> listed in \<open>idxSyn0\<close>.\<close>

definition cbow_propagate :: "cbow_args \<Rightarrow> mem \<Rightarrow> error + mem" where
  "cbow_propagate a m =
     for_loop [0..<nat (idxSyn0Length a)]
       (\<lambda>c m.
          bind_r (int_at IdxSyn0 (idxSyn0 a) (int c)) (\<lambda>w.
          add_loop (Neu1e, 0) (ptr_add (Syn0, 0) (w * vectorLength a)) (vectorLength a) m))
       m"

text \<open>\<open>CBOW::executeAggregate\<close> up to the end of the rounds, and whole.\<close>

definition cbow_rounds :: "cbow_args \<Rightarrow> mem \<Rightarrow> error + mem" where
  "cbow_rounds a m =
     bind_r (to_u64 (seed a)) (\<lambda>next_random.
     bind_r (cbow_neu1 a m) (\<lambda>m0.
     bind_r (hs_rounds a (Neu1, 0) m0) (\<lambda>m1.
     ng_rounds a (Neu1, 0) next_random m1)))"

definition cbow :: "cbow_args \<Rightarrow> mem \<Rightarrow> error + mem" where
  "cbow a m =
     bind_r (cbow_rounds a m) (\<lambda>m2.
     bind_r (cbow_propagate a m2) (\<lambda>m3.
     Inr (m3(Neu1 := [], Neu1e := []))))"

section \<open>Vocabulary of the statements\<close>

text \<open>\<open>rd m p i\<close> is the element \<open>p[i]\<close> of a row that lies inside its block
  (\<open>valid_row\<close>); \<open>dot_of\<close> is the dot product of two rows and \<open>axpy_row\<close> the block
  of \<open>vecY\<close> after \<open>k\<close> iterations of the update loop.\<close>

definition rd :: "'t memory \<Rightarrow> ptr \<Rightarrow> nat \<Rightarrow> 't" where
  "rd m p i = m (fst p) ! nat (snd p + int i)"

definition valid_row :: "'t memory \<Rightarrow> ptr \<Rightarrow> int \<Rightarrow> bool" where
  "valid_row m p n \<longleftrightarrow> 0 \<le> snd p \<and> snd p + n \<le> int (length (m (fst p)))"

definition dot_of :: "mem \<Rightarrow> ptr \<Rightarrow> ptr \<Rightarrow> int \<Rightarrow> real" where
  "dot_of m p q n = (\<Sum>i\<leftarrow>[0..<nat n]. rd m p i * rd m q i)"

definition axpy_row :: "real \<Rightarrow> real list \<Rightarrow> int \<Rightarrow> real list \<Rightarrow> int \<Rightarrow> nat \<Rightarrow> real list" where
  "axpy_row g xs ox ys oy k =
     map (\<lambda>j. if oy \<le> int j \<and> int j < oy + int k
               then g * xs ! nat (ox + (int j - oy)) + ys ! j else ys ! j)
       [0..<length ys]"

text \<open>The memory after the two update loops of a kernel with gradient \<open>g\<close>.\<close>

definition kernel_update :: "real \<Rightarrow> ptr \<Rightarrow> ptr \<Rightarrow> ptr \<Rightarrow> int \<Rightarrow> mem \<Rightarrow> mem" where
  "kernel_update g syn0 syn1 neu1e n m =
     (let m1 = m(fst neu1e :=
                 axpy_row g (m (fst syn1)) (snd syn1) (m (fst neu1e)) (snd neu1e) (nat n))
      in m1(fst syn1 :=
              axpy_row g (m1 (fst syn0)) (snd syn0) (m1 (fst syn1)) (snd syn1) (nat n)))"

text \<open>The same vocabulary in the arithmetic \<open>ar\<close> of the kernels: the dot product is
  accumulated from the first element to the last.\<close>

definition dot_T :: "('t, 'd) arith \<Rightarrow> 't memory \<Rightarrow> ptr \<Rightarrow> ptr \<Rightarrow> int \<Rightarrow> 't" where
  "dot_T ar m p q n =
     foldl (\<lambda>dot i. mul_add_T ar (rd m p i) (rd m q i) dot) (zero_T ar) [0..<nat n]"

definition axpy_row_T ::
  "('t, 'd) arith \<Rightarrow> 't \<Rightarrow> 't list \<Rightarrow> int \<Rightarrow> 't list \<Rightarrow> int \<Rightarrow> nat \<Rightarrow> 't list" where
  "axpy_row_T ar g xs ox ys oy k =
     map (\<lambda>j. if oy \<le> int j \<and> int j < oy + int k
               then mul_add_T ar g (xs ! nat (ox + (int j - oy))) (ys ! j) else ys ! j)
       [0..<length ys]"

definition kernel_update_T ::
  "('t, 'd) arith \<Rightarrow> 't \<Rightarrow> ptr \<Rightarrow> ptr \<Rightarrow> ptr \<Rightarrow> int \<Rightarrow> 't memory \<Rightarrow> 't memory" where
  "kernel_update_T ar g syn0 syn1 neu1e n m =
     (let m1 = m(fst neu1e :=
                 axpy_row_T ar g (m (fst syn1)) (snd syn1) (m (fst neu1e)) (snd neu1e) (nat n))
      in m1(fst syn1 :=
              axpy_row_T ar g (m1 (fst syn0)) (snd syn0) (m1 (fst syn1)) (snd syn1) (nat n)))"

text \<open>\<open>frame W m m'\<close>: only the blocks of \<open>W\<close> differ between \<open>m\<close> and \<open>m'\<close>, and no
  block has changed its length.\<close>

definition frame :: "buf set \<Rightarrow> mem \<Rightarrow> mem \<Rightarrow> bool" where
  "frame W m m' \<longleftrightarrow> (\<forall>b. b \<notin> W \<longrightarrow> m' b = m b) \<and> (\<forall>b. length (m' b) = length (m b))"

text \<open>What CBOW's propagation has added to the element \<open>j\<close> of \<open>syn0\<close> after the first
  \<open>k\<close> context words: the matching element of \<open>e\<close> (\<open>neu1e\<close>), once for each listed row
  that holds \<open>j\<close>.\<close>

definition scatter_sum :: "int list \<Rightarrow> int \<Rightarrow> real list \<Rightarrow> nat \<Rightarrow> nat \<Rightarrow> real" where
  "scatter_sum idx n e k j =
     (\<Sum>c\<leftarrow>[0..<k]. if idx ! c * n \<le> int j \<and> int j < idx ! c * n + n
                    then e ! nat (int j - idx ! c * n) else 0)"

text \<open>How many of the first \<open>k\<close> context positions list the row \<open>w\<close>.\<close>

definition row_count :: "int list \<Rightarrow> nat \<Rightarrow> int \<Rightarrow> nat" where
  "row_count idx k w = length (filter (\<lambda>c. idx ! c = w) [0..<k])"

text \<open>The candidates of \<open>k\<close> successive draws from the random state \<open>nr\<close>; the kernel
  invoked in turn on a list of (target, code) pairs; and the pairs the negative-sampling
  loop invokes it on, given the candidates \<open>ts\<close> its later iterations draw.\<close>

fun ng_draws :: "'a rounds_args_scheme \<Rightarrow> mem \<Rightarrow> nat \<Rightarrow> 64 word \<Rightarrow> error + int list" where
  "ng_draws a m 0 nr = Inr []"
| "ng_draws a m (Suc k) nr =
     bind_r (ng_draw a m nr) (\<lambda>(nr', t).
     bind_r (ng_draws a m k nr') (\<lambda>ts. Inr (t # ts)))"

fun ns_seq :: "'a rounds_args_scheme \<Rightarrow> ptr \<Rightarrow> (int \<times> int) list \<Rightarrow> mem \<Rightarrow> error + mem" where
  "ns_seq a emb [] m = Inr m"
| "ns_seq a emb ((t, c) # cs) m =
     bind_r (ns_exec m emb (ptr_add (Syn1Neg, 0) (t * vectorLength a)) (ExpTable, 0) (Neu1e, 0)
               (vectorLength a) (expLength a) c (alpha a))
       (ns_seq a emb cs)"

definition ng_calls :: "'a rounds_args_scheme \<Rightarrow> int list \<Rightarrow> (int \<times> int) list" where
  "ng_calls a ts = (ngStarter a, 1) # map (\<lambda>t. (t, 0)) (filter (\<lambda>t. t \<noteq> ngStarter a) ts)"

text \<open>One step of the random state, and the number of drawn candidates that are not
  discarded.\<close>

definition lcg :: "64 word \<Rightarrow> 64 word" where
  "lcg x = x * 25214903917 + 11"

definition negative_rounds :: "'a rounds_args_scheme \<Rightarrow> int list \<Rightarrow> nat" where
  "negative_rounds a ts = length (filter (\<lambda>t. t \<noteq> ngStarter a) ts)"

text \<open>Well-formed invocations: every row the rounds address lies inside its block, the
  embedding side is not in a block the rounds write, the table has \<open>expLength\<close> entries,
  and, when there are negative-sampling rounds, \<open>vocabSize\<close> is at least 2 (and an
  \<open>int\<close>), \<open>ngStarter\<close> is a row of \<open>syn1Neg\<close> and \<open>negTable\<close> has \<open>negTableLength > 0\<close>
  entries; the seed is representable; for CBOW, every context row lies in \<open>syn0\<close>.\<close>

definition same_lengths :: "mem \<Rightarrow> mem \<Rightarrow> bool" where
  "same_lengths m m' \<longleftrightarrow> (\<forall>b. length (m' b) = length (m b))"

definition rounds_wf :: "'a rounds_args_scheme \<Rightarrow> ptr \<Rightarrow> mem \<Rightarrow> bool" where
  "rounds_wf a emb m \<longleftrightarrow>
     0 < vectorLength a \<and>
     valid_row m emb (vectorLength a) \<and> fst emb \<noteq> Syn1 \<and> fst emb \<noteq> Syn1Neg \<and> fst emb \<noteq> Neu1e \<and>
     vectorLength a \<le> int (length (m Neu1e)) \<and>
     expLength a \<le> int (length (m ExpTable)) \<and>
     (\<forall>r<nat (hsRounds a). r < length (idxSyn1 a) \<and> r < length (codes a) \<and>
        valid_row m (Syn1, idxSyn1 a ! r * vectorLength a) (vectorLength a)) \<and>
     (0 < ngRounds a \<longrightarrow>
        2 \<le> vocabSize a \<and> vocabSize a < 2 ^ 31 \<and> 0 \<le> ngStarter a \<and> ngStarter a < vocabSize a \<and>
        vocabSize a * vectorLength a \<le> int (length (m Syn1Neg)) \<and>
        0 < negTableLength a \<and> negTableLength a < 2 ^ 64 \<and>
        negTableLength a \<le> int (length (m NegTable)))"

definition skipgram_wf :: "skipgram_args \<Rightarrow> mem \<Rightarrow> bool" where
  "skipgram_wf a m \<longleftrightarrow>
     0 \<le> to_int (seed a) \<and> to_int (seed a) < 2 ^ 64 \<and>
     rounds_wf a (ptr_add (Syn0, 0) (syn0Row a * vectorLength a))
       (m(Neu1e := replicate (nat (vectorLength a)) 0))"

definition cbow_wf :: "cbow_args \<Rightarrow> mem \<Rightarrow> bool" where
  "cbow_wf a m \<longleftrightarrow>
     0 \<le> to_int (seed a) \<and> to_int (seed a) < 2 ^ 64 \<and>
     (\<forall>c<nat (idxSyn0Length a). c < length (idxSyn0 a) \<and>
        valid_row m (Syn0, idxSyn0 a ! c * vectorLength a) (vectorLength a)) \<and>
     rounds_wf a (Neu1, 0)
       (m(Neu1 := replicate (nat (vectorLength a)) 0,
          Neu1e := replicate (nat (vectorLength a)) 0))"

section \<open>Concrete inputs\<close>

text \<open>The end-to-end scenario: \<open>vectorLength = 4\<close>, an embedding row \<open>[1,0,0,0]\<close>, an
  output row \<open>[0,1,0,0]\<close>, and a table in which the bucket of \<open>dot = 0\<close> holds \<open>1/2\<close>.\<close>

definition scenario_mem :: mem where
  "scenario_mem = (\<lambda>_. [])(Syn0 := [1, 0, 0, 0], Syn1 := [0, 1, 0, 0],
     ExpTable := [1 / 2, 1 / 2], Neu1e := [0, 0, 0, 0])"

text \<open>A saturated pair for negative sampling: the dot product of the rows is \<open>7\<close>.\<close>

definition saturated_mem :: mem where
  "saturated_mem = (\<lambda>_. [])(Syn0 := [7, 0], Syn1Neg := [1, 2],
     ExpTable := [1 / 2, 1 / 2], Neu1e := [0, 0])"

text \<open>Pairs on the saturation boundaries: the dot product of the rows is \<open>6\<close> in the
  first memory and \<open>-6\<close> in the second.\<close>

definition upper_boundary_mem :: mem where
  "upper_boundary_mem = (\<lambda>_. [])(Syn0 := [6], Syn1Neg := [1],
     ExpTable := [1 / 4, 3 / 4], Neu1e := [0])"

definition lower_boundary_mem :: mem where
  "lower_boundary_mem = (\<lambda>_. [])(Syn0 := [- 6], Syn1Neg := [1],
     ExpTable := [1 / 4, 3 / 4], Neu1e := [0])"

text \<open>Arguments of a SkipGram invocation with no rounds, and of a CBOW invocation with an
  empty context window.\<close>

definition no_rounds_args :: skipgram_args where
  "no_rounds_args = \<lparr>vectorLength = 4, hsRounds = 0, ngRounds = 0, expLength = 2, vocabSize = 1,
     ngStarter = 0, negTableLength = 0, idxSyn1 = [], codes = [], alpha = 1 / 10, seed = 0,
     syn0Row = 0\<rparr>"

definition empty_window_args :: cbow_args where
  "empty_window_args = \<lparr>vectorLength = 4, hsRounds = 0, ngRounds = 0, expLength = 2,
     vocabSize = 1, ngStarter = 0, negTableLength = 0, idxSyn1 = [], codes = [],
     alpha = 1 / 10, seed = 0, idxSyn0 = [], idxSyn0Length = 0, initialIdx = 0\<rparr>"

text \<open>A CBOW window of two context words (rows 0 and 2) with one hierarchical-softmax
  round.\<close>

definition window_args :: cbow_args where
  "window_args = \<lparr>vectorLength = 2, hsRounds = 1, ngRounds = 0, expLength = 2,
     vocabSize = 3, ngStarter = 0, negTableLength = 1, idxSyn1 = [0], codes = [1],
     alpha = 1, seed = 0, idxSyn0 = [0, 2], idxSyn0Length = 2, initialIdx = 0\<rparr>"

definition window_mem :: mem where
  "window_mem = (\<lambda>_. [])(Syn0 := [1, 0, 0, 1, 1, 1], Syn1 := [0, 2],
     ExpTable := [1 / 2, 1 / 2])"

text \<open>SkipGram invocations on one-element rows: one whose only draw collides with
  \<open>ngStarter\<close>, and one with two draws of which the first collides.\<close>

definition collide_args :: skipgram_args where
  "collide_args = \<lparr>vectorLength = 1, hsRounds = 0, ngRounds = 1, expLength = 2, vocabSize = 2,
     ngStarter = 1, negTableLength = 1, idxSyn1 = [], codes = [], alpha = 1, seed = 0,
     syn0Row = 0\<rparr>"

definition collide_mem :: mem where
  "collide_mem = (\<lambda>_. [])(Syn0 := [1], Syn1Neg := [1, 1], ExpTable := [1 / 2, 1 / 2],
     NegTable := [1])"

definition sample_args :: skipgram_args where
  "sample_args = \<lparr>vectorLength = 1, hsRounds = 0, ngRounds = 2, expLength = 2, vocabSize = 3,
     ngStarter = 1, negTableLength = 2, idxSyn1 = [], codes = [], alpha = 1, seed = 0,
     syn0Row = 0\<rparr>"

definition sample_mem :: mem where
  "sample_mem = (\<lambda>_. [])(Syn0 := [1], Syn1Neg := [1, 1, 2], ExpTable := [1 / 2, 1 / 2],
     NegTable := [1, 2])"

text \<open>A second SkipGram invocation with other embeddings, rate and true target but the
  same table, seed and round count; and two CBOW invocations likewise.\<close>

definition sample_args_2 :: skipgram_args where
  "sample_args_2 = \<lparr>vectorLength = 1, hsRounds = 0, ngRounds = 2, expLength = 2, vocabSize = 3,
     ngStarter = 2, negTableLength = 2, idxSyn1 = [], codes = [], alpha = 1 / 2, seed = 0,
     syn0Row = 1\<rparr>"

definition sample_mem_2 :: mem where
  "sample_mem_2 = (\<lambda>_. [])(Syn0 := [5, 2], Syn1Neg := [0, 1, 1], ExpTable := [1 / 4, 3 / 4],
     NegTable := [1, 2])"

definition cbow_sample_args :: cbow_args where
  "cbow_sample_args = \<lparr>vectorLength = 1, hsRounds = 0, ngRounds = 2, expLength = 2,
     vocabSize = 3, ngStarter = 1, negTableLength = 2, idxSyn1 = [], codes = [], alpha = 1,
     seed = 0, idxSyn0 = [0], idxSyn0Length = 1, initialIdx = 0\<rparr>"

definition cbow_sample_args_2 :: cbow_args where
  "cbow_sample_args_2 = \<lparr>vectorLength = 1, hsRounds = 0, ngRounds = 2, expLength = 2,
     vocabSize = 3, ngStarter = 1, negTableLength = 2, idxSyn1 = [], codes = [], alpha = 1 / 2,
     seed = 0, idxSyn0 = [0, 1], idxSyn0Length = 2, initialIdx = 0\<rparr>"

text \<open>Rows of floats.  In the first two memories the dot product of the rows is \<open>0\<close>
  and \<open>3\<close> and the table has ten and twenty entries; in the next two it is just below
  \<open>6\<close> and just below \<open>2\<close>.\<close>

definition tenth_mem :: mem where
  "tenth_mem = (\<lambda>_. [])(Syn0 := [0], Syn1 := [1],
     ExpTable := [0, 1 / 16, 1 / 8, 3 / 16, 1 / 4, 5 / 16, 3 / 8, 7 / 16, 1 / 2, 9 / 16],
     Neu1e := [0])"

definition twentieth_mem :: mem where
  "twentieth_mem = (\<lambda>_. [])(Syn0 := [3], Syn1Neg := [1],
     ExpTable := [0, 1 / 32, 1 / 16, 3 / 32, 1 / 8, 5 / 32, 3 / 16, 7 / 32, 1 / 4, 9 / 32,
       5 / 16, 11 / 32, 3 / 8, 13 / 32, 7 / 16, 15 / 32, 1 / 2, 17 / 32, 9 / 16, 19 / 32],
     Neu1e := [0])"

definition near_six_mem :: mem where
  "near_six_mem = (\<lambda>_. [])(Syn0 := [6 - 1 / 2 ^ 21], Syn1 := [1],
     ExpTable := [1 / 4, 3 / 4], Neu1e := [0])"

definition near_two_mem :: mem where
  "near_two_mem = (\<lambda>_. [])(Syn0 := [2 - 1 / 2 ^ 23], Syn1Neg := [1],
     ExpTable := [1 / 4, 1 / 2, 3 / 4], Neu1e := [0])"

text \<open>Rows whose dot product is not a number.\<close>

definition nan_mem :: "real option memory" where
  "nan_mem = (\<lambda>_. [])(Syn0 := [None], Syn1 := [Some 1], Syn1Neg := [Some 1],
     ExpTable := [Some (1 / 4), Some (3 / 4)], Neu1e := [Some 0])"

text \<open>The memory of the last SkipGram invocations with another table: both of its entries
  are outside \<open>(0, vocabSize)\<close>.\<close>

definition fallback_mem :: mem where
  "fallback_mem = sample_mem(NegTable := [0, 5])"

section \<open>Loops\<close>

lemma bind_r_Inl [simp]: "bind_r (Inl e) f = Inl e"
  by (simp add: bind_r_def)

lemma bind_r_Inr [simp]: "bind_r (Inr x) f = f x"
  by (simp add: bind_r_def)

lemma for_loop_append:
  "for_loop (xs @ ys) body s = bind_r (for_loop xs body s) (for_loop ys body)"
  by (induction xs arbitrary: s) (auto split: sum.splits)

lemma for_loop_single: "for_loop [k] body = body k"
  by (rule ext) (simp split: sum.splits)

lemma for_loop_snoc:
  "for_loop [0..<Suc k] body s = bind_r (for_loop [0..<k] body s) (body k)"
  by (simp add: for_loop_append for_loop_single)

lemma load_valid:
  "valid_row m p n \<Longrightarrow> i < nat n \<Longrightarrow> load m (ptr_add p (int i)) = Inr (rd m p i)"
  by (auto simp: valid_row_def load_def ptr_add_def rd_def)

lemma dot_loop_prefix:
  assumes "valid_row m p n" "valid_row m q n" "k \<le> nat n"
  shows "for_loop [0..<k]
       (\<lambda>x dot.
          bind_r (load m (ptr_add p (int x))) (\<lambda>a.
          bind_r (load m (ptr_add q (int x))) (\<lambda>b.
          Inr (dot + a * b)))) 0 = Inr (\<Sum>i\<leftarrow>[0..<k]. rd m p i * rd m q i)"
  using assms(3)
proof (induction k)
  case 0
  then show ?case by simp
next
  case (Suc k)
  then show ?case
    by (simp add: for_loop_snoc load_valid [OF assms(1)] load_valid [OF assms(2)] del: upt_Suc)
       (simp)
qed

lemma dot_loop_valid:
  "valid_row m p n \<Longrightarrow> valid_row m q n \<Longrightarrow> dot_loop m p q n = Inr (dot_of m p q n)"
  unfolding dot_loop_def dot_of_def
  by (rule dot_loop_prefix) auto

lemma store_valid:
  "valid_row m p n \<Longrightarrow> i < nat n \<Longrightarrow>
   store m (ptr_add p (int i)) v = Inr (m(fst p := (m (fst p))[nat (snd p + int i) := v]))"
  by (auto simp: valid_row_def store_def ptr_add_def)

lemma axpy_row_0: "axpy_row g xs ox ys oy 0 = ys"
  by (rule nth_equalityI) (simp_all add: axpy_row_def)

lemma length_axpy_row [simp]: "length (axpy_row g xs ox ys oy k) = length ys"
  by (simp add: axpy_row_def)

lemma axpy_row_nth:
  "j < length ys \<Longrightarrow> axpy_row g xs ox ys oy k ! j =
     (if oy \<le> int j \<and> int j < oy + int k
      then g * xs ! nat (ox + (int j - oy)) + ys ! j else ys ! j)"
  by (simp add: axpy_row_def)

lemma axpy_row_Suc:
  assumes "0 \<le> oy" "oy + int k < int (length ys)"
  shows "(axpy_row g xs ox ys oy k)[nat (oy + int k) :=
           g * xs ! nat (ox + int k) + axpy_row g xs ox ys oy k ! nat (oy + int k)]
         = axpy_row g xs ox ys oy (Suc k)"
proof (rule nth_equalityI)
  show "length ((axpy_row g xs ox ys oy k)[nat (oy + int k) :=
           g * xs ! nat (ox + int k) + axpy_row g xs ox ys oy k ! nat (oy + int k)])
      = length (axpy_row g xs ox ys oy (Suc k))"
    by simp
next
  fix j
  assume "j < length ((axpy_row g xs ox ys oy k)[nat (oy + int k) :=
           g * xs ! nat (ox + int k) + axpy_row g xs ox ys oy k ! nat (oy + int k)])"
  then have j: "j < length ys" by simp
  have kk: "nat (oy + int k) < length ys" using assms by linarith
  show "(axpy_row g xs ox ys oy k)[nat (oy + int k) :=
           g * xs ! nat (ox + int k) + axpy_row g xs ox ys oy k ! nat (oy + int k)] ! j
      = axpy_row g xs ox ys oy (Suc k) ! j"
  proof (cases "j = nat (oy + int k)")
    case True
    then have "int j = oy + int k" using assms by simp
    then show ?thesis
      using j True by (simp add: axpy_row_nth)
  next
    case False
    then have "int j \<noteq> oy + int k" using assms by linarith
    then show ?thesis
      using j False by (auto simp: axpy_row_nth)
  qed
qed

lemma axpy_loop_prefix:
  assumes vx: "valid_row m x n" and vy: "valid_row m y n" and ne: "fst x \<noteq> fst y"
    and k: "k \<le> nat n"
  shows "for_loop [0..<k]
       (\<lambda>i m.
          bind_r (load m (ptr_add x (int i))) (\<lambda>a.
          bind_r (load m (ptr_add y (int i))) (\<lambda>b.
          store m (ptr_add y (int i)) (g * a + b)))) m
     = Inr (m(fst y := axpy_row g (m (fst x)) (snd x) (m (fst y)) (snd y) k))"
  using k
proof (induction k)
  case 0
  then show ?case by (simp add: axpy_row_0)
next
  case (Suc k)
  define mk where "mk = m(fst y := axpy_row g (m (fst x)) (snd x) (m (fst y)) (snd y) k)"
  have k: "k < nat n" using Suc.prems by simp
  have IH: "for_loop [0..<k]
       (\<lambda>i m.
          bind_r (load m (ptr_add x (int i))) (\<lambda>a.
          bind_r (load m (ptr_add y (int i))) (\<lambda>b.
          store m (ptr_add y (int i)) (g * a + b)))) m = Inr mk"
    unfolding mk_def by (rule Suc.IH) (use Suc.prems in simp)
  have vx': "valid_row mk x n" using vx ne by (simp add: valid_row_def mk_def)
  have vy': "valid_row mk y n" using vy by (simp add: valid_row_def mk_def)
  have rx: "rd mk x k = m (fst x) ! nat (snd x + int k)"
    using ne by (simp add: rd_def mk_def)
  have ry: "rd mk y k = axpy_row g (m (fst x)) (snd x) (m (fst y)) (snd y) k ! nat (snd y + int k)"
    by (simp add: rd_def mk_def)
  have b: "0 \<le> snd y" "snd y + int k < int (length (m (fst y)))"
    using vy k by (auto simp: valid_row_def)
  have st: "mk(fst y := (mk (fst y))[nat (snd y + int k) := g * rd mk x k + rd mk y k])
      = m(fst y := axpy_row g (m (fst x)) (snd x) (m (fst y)) (snd y) (Suc k))"
    unfolding rx ry using axpy_row_Suc [OF b, of g "m (fst x)" "snd x"]
    by (simp add: mk_def)
  show ?case
    unfolding for_loop_snoc IH
    by (simp only: bind_r_Inr load_valid [OF vx' k] load_valid [OF vy' k]
        store_valid [OF vy' k] st)
qed

lemma axpy_loop_valid:
  "valid_row m x n \<Longrightarrow> valid_row m y n \<Longrightarrow> fst x \<noteq> fst y \<Longrightarrow>
   axpy_loop g x y n m =
     Inr (m(fst y := axpy_row g (m (fst x)) (snd x) (m (fst y)) (snd y) (nat n)))"
  unfolding axpy_loop_def
  by (rule axpy_loop_prefix) auto

section \<open>The kernels on valid rows\<close>

lemma rd_axpy_row:
  assumes "valid_row m y n" "i < nat n"
  shows "axpy_row g xs ox (m (fst y)) (snd y) (nat n) ! nat (snd y + int i)
       = g * xs ! nat (ox + int i) + rd m y i"
proof -
  have "nat (snd y + int i) < length (m (fst y))"
    using assms by (auto simp: valid_row_def)
  moreover have "snd y \<le> int (nat (snd y + int i))"
      "int (nat (snd y + int i)) < snd y + int (nat n)"
      "int (nat (snd y + int i)) - snd y = int i"
    using assms by (auto simp: valid_row_def)
  ultimately show ?thesis
    by (simp add: axpy_row_nth rd_def)
qed

lemma axpys_valid:
  assumes "valid_row m syn0 n" "valid_row m syn1 n" "valid_row m neu1e n"
    and "fst syn0 \<noteq> fst syn1" "fst syn0 \<noteq> fst neu1e" "fst syn1 \<noteq> fst neu1e"
  shows "bind_r (axpy_loop g syn1 neu1e n m) (\<lambda>m1. axpy_loop g syn0 syn1 n m1)
       = Inr (kernel_update g syn0 syn1 neu1e n m)"
proof -
  define m1 where "m1 = m(fst neu1e :=
       axpy_row g (m (fst syn1)) (snd syn1) (m (fst neu1e)) (snd neu1e) (nat n))"
  have 1: "axpy_loop g syn1 neu1e n m = Inr m1"
    unfolding m1_def using assms by (intro axpy_loop_valid) auto
  have v0: "valid_row m1 syn0 n" and v1: "valid_row m1 syn1 n"
    using assms by (auto simp: valid_row_def m1_def)
  have 2: "axpy_loop g syn0 syn1 n m1 =
      Inr (m1(fst syn1 := axpy_row g (m1 (fst syn0)) (snd syn0) (m1 (fst syn1)) (snd syn1) (nat n)))"
    using v0 v1 assms(4) by (rule axpy_loop_valid)
  show ?thesis
    unfolding 1 bind_r_Inr 2 by (simp add: kernel_update_def Let_def m1_def)
qed

lemma rd_kernel_update:
  assumes "valid_row m syn0 n" "valid_row m syn1 n" "valid_row m neu1e n"
    and "fst syn0 \<noteq> fst syn1" "fst syn0 \<noteq> fst neu1e" "fst syn1 \<noteq> fst neu1e"
    and "i < nat n"
  shows "rd (kernel_update g syn0 syn1 neu1e n m) neu1e i = rd m neu1e i + g * rd m syn1 i"
    and "rd (kernel_update g syn0 syn1 neu1e n m) syn1 i = rd m syn1 i + g * rd m syn0 i"
    and "rd (kernel_update g syn0 syn1 neu1e n m) syn0 i = rd m syn0 i"
proof -
  have a: "rd (kernel_update g syn0 syn1 neu1e n m) neu1e i
      = axpy_row g (m (fst syn1)) (snd syn1) (m (fst neu1e)) (snd neu1e) (nat n) ! nat (snd neu1e + int i)"
    using assms(4-6) by (simp add: kernel_update_def Let_def rd_def)
  show "rd (kernel_update g syn0 syn1 neu1e n m) neu1e i = rd m neu1e i + g * rd m syn1 i"
    unfolding a rd_axpy_row [OF assms(3) assms(7)] by (simp add: rd_def)
  have b: "rd (kernel_update g syn0 syn1 neu1e n m) syn1 i
      = axpy_row g (m (fst syn0)) (snd syn0) (m (fst syn1)) (snd syn1) (nat n) ! nat (snd syn1 + int i)"
    using assms(4-6) by (simp add: kernel_update_def Let_def rd_def)
  show "rd (kernel_update g syn0 syn1 neu1e n m) syn1 i = rd m syn1 i + g * rd m syn0 i"
    unfolding b rd_axpy_row [OF assms(2) assms(7)] by (simp add: rd_def)
  show "rd (kernel_update g syn0 syn1 neu1e n m) syn0 i = rd m syn0 i"
    using assms(4-6) by (simp add: kernel_update_def Let_def rd_def)
qed

lemma to_int_nonneg: "0 \<le> x \<Longrightarrow> to_int x = \<lfloor>x\<rfloor>"
  by (simp add: to_int_def)

lemma bucket_floor:
  assumes "- 6 \<le> dot" "0 \<le> L"
  shows "bucket dot L = \<lfloor>(dot + 6) * real_of_int L / 12\<rfloor>"
proof -
  have "0 \<le> (dot + 6) * (real_of_int L / 6 / 2)" using assms by simp
  then show ?thesis by (simp add: bucket_def HS_MAX_EXP_def to_int_nonneg)
qed

lemma bucket_neg_length:
  assumes "- 6 \<le> dot" "dot \<le> 6" "L \<le> 0"
  shows "L \<le> bucket dot L" and "L \<le> \<lfloor>(dot + 6) * real_of_int L / 12\<rfloor>"
proof -
  define p where "p = (dot + 6) * real_of_int L / 12"
  have "(dot + 6) / 12 \<le> 1" "0 \<le> (dot + 6) / 12" using assms by simp_all
  then have "real_of_int L * 1 \<le> real_of_int L * ((dot + 6) / 12)"
    using assms(3) by (intro mult_left_mono_neg) simp_all
  then have p: "real_of_int L \<le> p" by (simp add: p_def algebra_simps)
  then have "L \<le> \<lfloor>p\<rfloor>" by (simp add: le_floor_iff)
  moreover have "L \<le> \<lceil>p\<rceil>" using p by (simp add: le_ceiling_iff)
  moreover have "bucket dot L = to_int p"
    by (simp add: bucket_def HS_MAX_EXP_def p_def)
  ultimately show "L \<le> bucket dot L" and "L \<le> \<lfloor>(dot + 6) * real_of_int L / 12\<rfloor>"
    by (simp_all add: to_int_def p_def)
qed

lemma bucket_skip_iff:
  assumes "- 6 \<le> dot" "dot \<le> 6"
  shows "L \<le> bucket dot L \<longleftrightarrow> L \<le> \<lfloor>(dot + 6) * real_of_int L / 12\<rfloor>"
proof (cases "0 \<le> L")
  case True
  then show ?thesis using assms by (simp add: bucket_floor)
next
  case False
  then show ?thesis using bucket_neg_length [OF assms, of L] by simp
qed

lemma bucket_in_table:
  assumes "- 6 \<le> dot" "dot \<le> 6" "\<not> L \<le> bucket dot L"
  shows "0 \<le> bucket dot L" and "bucket dot L < L"
    and "bucket dot L = \<lfloor>(dot + 6) * real_of_int L / 12\<rfloor>"
proof -
  have L: "0 < L" using bucket_neg_length(1) [OF assms(1,2), of L] assms(3) by linarith
  then show "bucket dot L = \<lfloor>(dot + 6) * real_of_int L / 12\<rfloor>"
    using assms by (simp add: bucket_floor)
  moreover have "0 \<le> (dot + 6) * real_of_int L / 12" using assms L by simp
  ultimately show "0 \<le> bucket dot L" by simp
  show "bucket dot L < L" using assms(3) by simp
qed

lemma load_table:
  assumes "valid_row m t L" "0 \<le> i" "i < L"
  shows "load m (ptr_add t i) = Inr (rd m t (nat i))"
  using load_valid [OF assms(1), of "nat i"] assms(2,3) by simp

lemma hs_exec_valid:
  assumes "valid_row m syn0 n" "valid_row m syn1 n" "valid_row m neu1e n"
    and "fst syn0 \<noteq> fst syn1" "fst syn0 \<noteq> fst neu1e" "fst syn1 \<noteq> fst neu1e"
    and "valid_row m expTable L"
  shows "hs_exec m syn0 syn1 expTable neu1e n L code rate =
     (let dot = dot_of m syn0 syn1 n in
      if dot < - 6 \<or> 6 \<le> dot \<or> L \<le> bucket dot L then Inr m
      else Inr (kernel_update
             ((1 - real_of_int code - rd m expTable (nat (bucket dot L))) * rate)
             syn0 syn1 neu1e n m))"
proof -
  define dot where "dot = dot_of m syn0 syn1 n"
  have d: "dot_loop m syn0 syn1 n = Inr dot"
    unfolding dot_def using assms(1,2) by (rule dot_loop_valid)
  show ?thesis
  proof (cases "dot < - 6 \<or> 6 \<le> dot \<or> L \<le> bucket dot L")
    case True
    then show ?thesis
      unfolding hs_exec_def d dot_def [symmetric]
      by (auto simp: HS_MAX_EXP_def Let_def)
  next
    case False
    then have b: "0 \<le> bucket dot L" "bucket dot L < L"
      using bucket_in_table(1,2) [of dot L] by auto
    show ?thesis
      unfolding hs_exec_def d dot_def [symmetric]
      using False
      by (simp add: HS_MAX_EXP_def Let_def load_table [OF assms(7) b] axpys_valid [OF assms(1-6)])
  qed
qed

lemma ns_exec_valid:
  assumes "valid_row m syn0 n" "valid_row m syn1 n" "valid_row m neu1e n"
    and "fst syn0 \<noteq> fst syn1" "fst syn0 \<noteq> fst neu1e" "fst syn1 \<noteq> fst neu1e"
    and "valid_row m expTable L"
  shows "ns_exec m syn0 syn1 expTable neu1e n L code rate =
     (let dot = dot_of m syn0 syn1 n in
      if 6 < dot then
        Inr (kernel_update ((real_of_int code - 1) * rate) syn0 syn1 neu1e n m)
      else if dot < - 6 then
        Inr (kernel_update (real_of_int code * rate) syn0 syn1 neu1e n m)
      else if L \<le> bucket dot L then Inr m
      else Inr (kernel_update
             ((real_of_int code - rd m expTable (nat (bucket dot L))) * rate)
             syn0 syn1 neu1e n m))"
proof -
  define dot where "dot = dot_of m syn0 syn1 n"
  have d: "dot_loop m syn0 syn1 n = Inr dot"
    unfolding dot_def using assms(1,2) by (rule dot_loop_valid)
  show ?thesis
  proof (cases "6 < dot \<or> dot < - 6 \<or> L \<le> bucket dot L")
    case True
    then show ?thesis
      unfolding ns_exec_def d dot_def [symmetric]
      by (auto simp: HS_MAX_EXP_def Let_def axpys_valid [OF assms(1-6)])
  next
    case False
    then have b: "0 \<le> bucket dot L" "bucket dot L < L"
      using bucket_in_table(1,2) [of dot L] by auto
    show ?thesis
      unfolding ns_exec_def d dot_def [symmetric]
      using False
      by (simp add: HS_MAX_EXP_def Let_def load_table [OF assms(7) b] axpys_valid [OF assms(1-6)])
  qed
qed

subsection \<open>Where an error of a kernel comes from\<close>

lemma for_loop_Inl:
  "for_loop xs body s = Inl e \<Longrightarrow> \<exists>x\<in>set xs. \<exists>s'. body x s' = Inl e"
  by (induction xs arbitrary: s) (auto split: sum.splits)

lemma bind_r_eq_Inl:
  "bind_r r f = Inl e \<longleftrightarrow> r = Inl e \<or> (\<exists>x. r = Inr x \<and> f x = Inl e)"
  by (cases r) simp_all

lemma bind_r_eq_Inr:
  "bind_r r f = Inr y \<longleftrightarrow> (\<exists>x. r = Inr x \<and> f x = Inr y)"
  by (cases r) simp_all

lemma load_Inl: "load m p = Inl e \<Longrightarrow> e = OutOfBounds (fst p)"
  by (auto simp: load_def split: if_splits)

lemma store_Inl: "store m p v = Inl e \<Longrightarrow> e = OutOfBounds (fst p)"
  by (auto simp: store_def split: if_splits)

lemma dot_loop_Inl:
  "dot_loop m p q n = Inl e \<Longrightarrow> e = OutOfBounds (fst p) \<or> e = OutOfBounds (fst q)"
  unfolding dot_loop_def
  by (drule for_loop_Inl) (auto simp: bind_r_eq_Inl ptr_add_def dest!: load_Inl)

lemma axpy_loop_Inl:
  "axpy_loop g x y n m = Inl e \<Longrightarrow> e = OutOfBounds (fst x) \<or> e = OutOfBounds (fst y)"
  unfolding axpy_loop_def
  by (drule for_loop_Inl) (auto simp: bind_r_eq_Inl ptr_add_def dest!: load_Inl store_Inl)

lemma axpys_Inl:
  "bind_r (axpy_loop g syn1 neu1e n m) (\<lambda>m1. axpy_loop g syn0 syn1 n m1) = Inl e \<Longrightarrow>
   e = OutOfBounds (fst syn0) \<or> e = OutOfBounds (fst syn1) \<or> e = OutOfBounds (fst neu1e)"
  by (auto simp: bind_r_eq_Inl dest!: axpy_loop_Inl)

lemma bucket_upper: "bucket 6 L = L"
  by (simp add: bucket_def HS_MAX_EXP_def to_int_def)

lemma bucket_lower: "bucket (- 6) L = 0"
  by (simp add: bucket_def HS_MAX_EXP_def to_int_def)

section \<open>Rounded arithmetic\<close>

text \<open>
  \<open>ilog2\<close> is the exponent, and \<open>fl p\<close> rounds to a nearest value with \<open>p\<close>
  significant bits: its result is a multiple of the unit in the last place of \<open>x\<close>, at
  most half a unit away from \<open>x\<close>, \<open>x\<close> itself when \<open>x\<close> is such a multiple, and in a tie
  the even one of the two nearest.
\<close>

lemma pow2_pos: "0 < pow2 q"
  by (simp add: pow2_def)

lemma round_even_near: "\<bar>real_of_int (round_even x) - x\<bar> \<le> 1 / 2"
  unfolding round_even_def Let_def by (auto simp: abs_if) linarith+

lemma round_even_tie: "x - of_int \<lfloor>x\<rfloor> = 1 / 2 \<Longrightarrow> even (round_even x)"
  unfolding round_even_def Let_def by auto

lemma round_even_int: "round_even (of_int k) = k"
  unfolding round_even_def Let_def by simp

lemma ilog2_bounds:
  assumes "0 < x"
  shows "pow2 (ilog2 x) \<le> x \<and> x < pow2 (ilog2 x + 1)"
proof (cases "1 \<le> x")
  case True
  then have f: "0 < \<lfloor>x\<rfloor>" by linarith
  from bitlen_bounds [OF f] have b: "2 ^ nat (bitlen \<lfloor>x\<rfloor> - 1) \<le> \<lfloor>x\<rfloor>" "\<lfloor>x\<rfloor> < 2 ^ nat (bitlen \<lfloor>x\<rfloor>)"
    by auto
  have g: "1 \<le> bitlen \<lfloor>x\<rfloor>" using f by (auto simp: bitlen_alt_def)
  have "real_of_int (2 ^ nat (bitlen \<lfloor>x\<rfloor> - 1)) \<le> x" using b(1) by linarith
  moreover have "x < real_of_int (2 ^ nat (bitlen \<lfloor>x\<rfloor>))" using b(2) by linarith
  ultimately show ?thesis using True g by (simp add: ilog2_def pow2_def)
next
  case False
  define y where "y = 1 / x"
  define c where "c = \<lceil>y\<rceil> - 1"
  define k where "k = bitlen c"
  have y: "1 < y" using assms False by (simp add: y_def)
  then have c: "0 < c" unfolding c_def by linarith
  have cy: "real_of_int c < y" "y \<le> real_of_int c + 1"
    unfolding c_def by linarith+
  from bitlen_bounds [OF c] have b: "2 ^ nat (k - 1) \<le> c" "c < 2 ^ nat k"
    by (auto simp: k_def)
  have k: "1 \<le> k" using c by (auto simp: k_def bitlen_alt_def)
  have "c + 1 \<le> 2 ^ nat k" using b(2) by simp
  then have "real_of_int (c + 1) \<le> real_of_int (2 ^ nat k)" by (simp only: of_int_le_iff)
  then have up: "y \<le> 2 ^ nat k" using cy(2) by simp
  have "real_of_int (2 ^ nat (k - 1)) \<le> real_of_int c" using b(1) by (simp only: of_int_le_iff)
  then have "2 ^ nat (k - 1) \<le> real_of_int c" by simp
  then have lo: "2 ^ nat (k - 1) < y" using cy(1) by linarith
  have x: "x = 1 / y" using assms by (simp add: y_def)
  have y0: "0 < y" using y by simp
  have 1: "1 / 2 ^ nat k \<le> x"
    unfolding x using up y0 by (simp add: field_simps)
  have 2: "x < 1 / 2 ^ nat (k - 1)"
    unfolding x using lo y0 by (simp add: field_simps)
  have i: "ilog2 x = - k"
    using False by (simp add: ilog2_def k_def c_def y_def)
  have p1: "pow2 (- k) = 1 / 2 ^ nat k" using k by (simp add: pow2_def)
  have p2: "pow2 (- k + 1) = 1 / 2 ^ nat (k - 1)"
  proof (cases "k = 1")
    case True
    then show ?thesis by (simp add: pow2_def)
  next
    case False
    then have "\<not> 0 \<le> - k + 1" "nat (- (- k + 1)) = nat (k - 1)" using k by auto
    then show ?thesis by (simp add: pow2_def)
  qed
  show ?thesis unfolding i p1 p2 using 1 2 by simp
qed

lemma fl_near:
  "\<bar>fl p x - x\<bar> \<le> pow2 (ilog2 \<bar>x\<bar> - int p + 1) / 2"
proof (cases "x = 0")
  case True
  then show ?thesis using pow2_pos [of "ilog2 \<bar>x\<bar> - int p + 1"] by (simp add: fl_def)
next
  case False
  define u where "u = pow2 (ilog2 \<bar>x\<bar> - int p + 1)"
  have u: "0 < u" unfolding u_def by (rule pow2_pos)
  have "fl p x = real_of_int (round_even (x / u)) * u"
    using False by (simp add: fl_def Let_def u_def)
  then have "fl p x - x = (real_of_int (round_even (x / u)) - x / u) * u"
    using u by (simp add: field_simps)
  then have "\<bar>fl p x - x\<bar> = \<bar>real_of_int (round_even (x / u)) - x / u\<bar> * u"
    using u by (simp add: abs_mult)
  also have "\<dots> \<le> 1 / 2 * u"
    using round_even_near [of "x / u"] u by (intro mult_right_mono) simp_all
  finally show ?thesis by (simp add: u_def)
qed

lemma fl_grid:
  "\<exists>k. fl p x = real_of_int k * pow2 (ilog2 \<bar>x\<bar> - int p + 1)"
  by (cases "x = 0") (auto simp: fl_def Let_def)

lemma fl_representable:
  assumes "x = real_of_int k * pow2 (ilog2 \<bar>x\<bar> - int p + 1)"
  shows "fl p x = x"
proof (cases "x = 0")
  case True
  then show ?thesis by (simp add: fl_def)
next
  case False
  define u where "u = pow2 (ilog2 \<bar>x\<bar> - int p + 1)"
  have u: "0 < u" unfolding u_def by (rule pow2_pos)
  have "x = real_of_int k * u" using assms by (simp only: u_def)
  then have "x / u = real_of_int k" using u by simp
  then have "round_even (x / u) = k" by (simp add: round_even_int)
  then have "fl p x = real_of_int k * u"
    using False by (simp add: fl_def Let_def u_def)
  then show ?thesis using assms by (simp add: u_def)
qed

section \<open>The kernels in the arithmetic of \<open>T\<close>\<close>

lemma dot_loop_T_exact: "dot_loop_T exact m p q n = dot_loop m p q n"
  by (simp add: dot_loop_T_def dot_loop_def exact_def add.commute)

lemma axpy_loop_T_exact: "axpy_loop_T exact g x y n m = axpy_loop g x y n m"
  by (simp add: axpy_loop_T_def axpy_loop_def exact_def)

lemma bucket_T_exact: "bucket_T exact dot L = Inr (bucket dot L)"
  by (simp add: bucket_T_def bucket_def exact_def)

lemma hs_exec_T_exact:
  "hs_exec_T exact m syn0 syn1 expTable neu1e n L code rate
     = hs_exec m syn0 syn1 expTable neu1e n L code rate"
  unfolding hs_exec_T_def hs_exec_def dot_loop_T_exact axpy_loop_T_exact bucket_T_exact
  by (simp add: exact_def Let_def cong: if_cong)

lemma ns_exec_T_exact:
  "ns_exec_T exact m syn0 syn1 expTable neu1e n L code rate
     = ns_exec m syn0 syn1 expTable neu1e n L code rate"
  unfolding ns_exec_T_def ns_exec_def dot_loop_T_exact axpy_loop_T_exact bucket_T_exact
  by (simp add: exact_def Let_def cong: if_cong)

lemma dot_loop_T_prefix:
  assumes "valid_row m p n" "valid_row m q n" "k \<le> nat n"
  shows "for_loop [0..<k]
       (\<lambda>x dot.
          bind_r (load m (ptr_add p (int x))) (\<lambda>a.
          bind_r (load m (ptr_add q (int x))) (\<lambda>b.
          Inr (mul_add_T ar a b dot)))) z
     = Inr (foldl (\<lambda>dot i. mul_add_T ar (rd m p i) (rd m q i) dot) z [0..<k])"
  using assms(3)
proof (induction k)
  case 0
  then show ?case by simp
next
  case (Suc k)
  then have k: "k < nat n" by simp
  have IH: "for_loop [0..<k]
       (\<lambda>x dot.
          bind_r (load m (ptr_add p (int x))) (\<lambda>a.
          bind_r (load m (ptr_add q (int x))) (\<lambda>b.
          Inr (mul_add_T ar a b dot)))) z
     = Inr (foldl (\<lambda>dot i. mul_add_T ar (rd m p i) (rd m q i) dot) z [0..<k])"
    by (rule Suc.IH) (use k in simp)
  show ?case
    unfolding for_loop_snoc IH
    by (simp add: load_valid [OF assms(1) k] load_valid [OF assms(2) k])
qed

lemma dot_loop_T_valid:
  "valid_row m p n \<Longrightarrow> valid_row m q n \<Longrightarrow> dot_loop_T ar m p q n = Inr (dot_T ar m p q n)"
  unfolding dot_loop_T_def dot_T_def
  by (rule dot_loop_T_prefix) auto

lemma axpy_row_T_0: "axpy_row_T ar g xs ox ys oy 0 = ys"
  by (rule nth_equalityI) (auto simp: axpy_row_T_def)

lemma length_axpy_row_T [simp]: "length (axpy_row_T ar g xs ox ys oy k) = length ys"
  by (simp add: axpy_row_T_def)

lemma axpy_row_T_nth:
  "j < length ys \<Longrightarrow> axpy_row_T ar g xs ox ys oy k ! j =
     (if oy \<le> int j \<and> int j < oy + int k
      then mul_add_T ar g (xs ! nat (ox + (int j - oy))) (ys ! j) else ys ! j)"
  by (simp add: axpy_row_T_def)

lemma axpy_row_T_Suc:
  assumes "0 \<le> oy" "oy + int k < int (length ys)"
  shows "(axpy_row_T ar g xs ox ys oy k)[nat (oy + int k) :=
           mul_add_T ar g (xs ! nat (ox + int k))
             (axpy_row_T ar g xs ox ys oy k ! nat (oy + int k))]
         = axpy_row_T ar g xs ox ys oy (Suc k)"
    (is "?l = ?r")
proof (rule nth_equalityI)
  show "length ?l = length ?r"
    by simp
next
  fix j
  assume "j < length ?l"
  then have j: "j < length ys" by simp
  have kk: "nat (oy + int k) < length ys" using assms by linarith
  show "?l ! j = ?r ! j"
  proof (cases "j = nat (oy + int k)")
    case True
    then have "int j = oy + int k" using assms by simp
    then show ?thesis
      using j True by (simp add: axpy_row_T_nth)
  next
    case False
    then have "int j \<noteq> oy + int k" using assms by linarith
    then show ?thesis
      using j False by (auto simp: axpy_row_T_nth)
  qed
qed

lemma axpy_loop_T_prefix:
  assumes vx: "valid_row m x n" and vy: "valid_row m y n" and ne: "fst x \<noteq> fst y"
    and k: "k \<le> nat n"
  shows "for_loop [0..<k]
       (\<lambda>i m.
          bind_r (load m (ptr_add x (int i))) (\<lambda>a.
          bind_r (load m (ptr_add y (int i))) (\<lambda>b.
          store m (ptr_add y (int i)) (mul_add_T ar g a b)))) m
     = Inr (m(fst y := axpy_row_T ar g (m (fst x)) (snd x) (m (fst y)) (snd y) k))"
  using k
proof (induction k)
  case 0
  then show ?case by (simp add: axpy_row_T_0)
next
  case (Suc k)
  define mk where "mk = m(fst y := axpy_row_T ar g (m (fst x)) (snd x) (m (fst y)) (snd y) k)"
  have k: "k < nat n" using Suc.prems by simp
  have IH: "for_loop [0..<k]
       (\<lambda>i m.
          bind_r (load m (ptr_add x (int i))) (\<lambda>a.
          bind_r (load m (ptr_add y (int i))) (\<lambda>b.
          store m (ptr_add y (int i)) (mul_add_T ar g a b)))) m = Inr mk"
    unfolding mk_def by (rule Suc.IH) (use Suc.prems in simp)
  have vx': "valid_row mk x n" using vx ne by (simp add: valid_row_def mk_def)
  have vy': "valid_row mk y n" using vy by (simp add: valid_row_def mk_def)
  have rx: "rd mk x k = m (fst x) ! nat (snd x + int k)"
    using ne by (simp add: rd_def mk_def)
  have ry: "rd mk y k
      = axpy_row_T ar g (m (fst x)) (snd x) (m (fst y)) (snd y) k ! nat (snd y + int k)"
    by (simp add: rd_def mk_def)
  have b: "0 \<le> snd y" "snd y + int k < int (length (m (fst y)))"
    using vy k by (auto simp: valid_row_def)
  have st: "mk(fst y := (mk (fst y))[nat (snd y + int k) :=
               mul_add_T ar g (rd mk x k) (rd mk y k)])
      = m(fst y := axpy_row_T ar g (m (fst x)) (snd x) (m (fst y)) (snd y) (Suc k))"
    unfolding rx ry using axpy_row_T_Suc [OF b, of ar g "m (fst x)" "snd x"]
    by (simp add: mk_def)
  show ?case
    unfolding for_loop_snoc IH
    by (simp only: bind_r_Inr load_valid [OF vx' k] load_valid [OF vy' k]
        store_valid [OF vy' k] st)
qed

lemma axpy_loop_T_valid:
  "valid_row m x n \<Longrightarrow> valid_row m y n \<Longrightarrow> fst x \<noteq> fst y \<Longrightarrow>
   axpy_loop_T ar g x y n m =
     Inr (m(fst y := axpy_row_T ar g (m (fst x)) (snd x) (m (fst y)) (snd y) (nat n)))"
  unfolding axpy_loop_T_def
  by (rule axpy_loop_T_prefix) auto

lemma rd_axpy_row_T:
  assumes "valid_row m y n" "i < nat n"
  shows "axpy_row_T ar g xs ox (m (fst y)) (snd y) (nat n) ! nat (snd y + int i)
       = mul_add_T ar g (xs ! nat (ox + int i)) (rd m y i)"
proof -
  have "nat (snd y + int i) < length (m (fst y))"
    using assms by (auto simp: valid_row_def)
  moreover have "snd y \<le> int (nat (snd y + int i))"
      "int (nat (snd y + int i)) < snd y + int (nat n)"
      "int (nat (snd y + int i)) - snd y = int i"
    using assms by (auto simp: valid_row_def)
  ultimately show ?thesis
    by (simp add: axpy_row_T_nth rd_def)
qed

lemma axpys_T_valid:
  assumes "valid_row m syn0 n" "valid_row m syn1 n" "valid_row m neu1e n"
    and "fst syn0 \<noteq> fst syn1" "fst syn0 \<noteq> fst neu1e" "fst syn1 \<noteq> fst neu1e"
  shows "bind_r (axpy_loop_T ar g syn1 neu1e n m) (\<lambda>m1. axpy_loop_T ar g syn0 syn1 n m1)
       = Inr (kernel_update_T ar g syn0 syn1 neu1e n m)"
proof -
  define m1 where "m1 = m(fst neu1e :=
       axpy_row_T ar g (m (fst syn1)) (snd syn1) (m (fst neu1e)) (snd neu1e) (nat n))"
  have 1: "axpy_loop_T ar g syn1 neu1e n m = Inr m1"
    unfolding m1_def using assms by (intro axpy_loop_T_valid) auto
  have v0: "valid_row m1 syn0 n" and v1: "valid_row m1 syn1 n"
    using assms by (auto simp: valid_row_def m1_def)
  have 2: "axpy_loop_T ar g syn0 syn1 n m1 =
      Inr (m1(fst syn1 :=
             axpy_row_T ar g (m1 (fst syn0)) (snd syn0) (m1 (fst syn1)) (snd syn1) (nat n)))"
    using v0 v1 assms(4) by (rule axpy_loop_T_valid)
  show ?thesis
    unfolding 1 bind_r_Inr 2 by (simp add: kernel_update_T_def Let_def m1_def)
qed

lemma rd_kernel_update_T:
  assumes "valid_row m syn0 n" "valid_row m syn1 n" "valid_row m neu1e n"
    and "fst syn0 \<noteq> fst syn1" "fst syn0 \<noteq> fst neu1e" "fst syn1 \<noteq> fst neu1e"
    and "i < nat n"
  shows "rd (kernel_update_T ar g syn0 syn1 neu1e n m) neu1e i
       = mul_add_T ar g (rd m syn1 i) (rd m neu1e i)"
    and "rd (kernel_update_T ar g syn0 syn1 neu1e n m) syn1 i
       = mul_add_T ar g (rd m syn0 i) (rd m syn1 i)"
    and "rd (kernel_update_T ar g syn0 syn1 neu1e n m) syn0 i = rd m syn0 i"
proof -
  have a: "rd (kernel_update_T ar g syn0 syn1 neu1e n m) neu1e i
      = axpy_row_T ar g (m (fst syn1)) (snd syn1) (m (fst neu1e)) (snd neu1e) (nat n)
          ! nat (snd neu1e + int i)"
    using assms(4-6) by (simp add: kernel_update_T_def Let_def rd_def)
  show "rd (kernel_update_T ar g syn0 syn1 neu1e n m) neu1e i
       = mul_add_T ar g (rd m syn1 i) (rd m neu1e i)"
    unfolding a rd_axpy_row_T [OF assms(3) assms(7)] by (simp add: rd_def)
  have b: "rd (kernel_update_T ar g syn0 syn1 neu1e n m) syn1 i
      = axpy_row_T ar g (m (fst syn0)) (snd syn0) (m (fst syn1)) (snd syn1) (nat n)
          ! nat (snd syn1 + int i)"
    using assms(4-6) by (simp add: kernel_update_T_def Let_def rd_def)
  show "rd (kernel_update_T ar g syn0 syn1 neu1e n m) syn1 i
       = mul_add_T ar g (rd m syn0 i) (rd m syn1 i)"
    unfolding b rd_axpy_row_T [OF assms(2) assms(7)] by (simp add: rd_def)
  show "rd (kernel_update_T ar g syn0 syn1 neu1e n m) syn0 i = rd m syn0 i"
    using assms(4-6) by (simp add: kernel_update_T_def Let_def rd_def)
qed

lemma hs_exec_T_valid:
  assumes "valid_row m syn0 n" "valid_row m syn1 n" "valid_row m neu1e n"
    and "fst syn0 \<noteq> fst syn1" "fst syn0 \<noteq> fst neu1e" "fst syn1 \<noteq> fst neu1e"
  shows "hs_exec_T ar m syn0 syn1 expTable neu1e n L code rate =
     (let dot = dot_T ar m syn0 syn1 n in
      if less_T ar dot (neg_T ar (max_exp_T ar)) \<or> less_eq_T ar (max_exp_T ar) dot then Inr m
      else
        bind_r (bucket_T ar dot L) (\<lambda>idx.
          if L \<le> idx then Inr m
          else
            bind_r (load m (ptr_add expTable idx)) (\<lambda>f.
              Inr (kernel_update_T ar (mul_T ar (sub_T ar (of_int_T ar (1 - code)) f) rate)
                     syn0 syn1 neu1e n m))))"
  unfolding hs_exec_T_def dot_loop_T_valid [OF assms(1,2)] bind_r_Inr
  by (simp add: Let_def axpys_T_valid [OF assms] cong: if_cong)

lemma ns_exec_T_valid:
  assumes "valid_row m syn0 n" "valid_row m syn1 n" "valid_row m neu1e n"
    and "fst syn0 \<noteq> fst syn1" "fst syn0 \<noteq> fst neu1e" "fst syn1 \<noteq> fst neu1e"
  shows "ns_exec_T ar m syn0 syn1 expTable neu1e n L code rate =
     (let dot = dot_T ar m syn0 syn1 n in
      if less_T ar (max_exp_T ar) dot then
        Inr (kernel_update_T ar (mul_T ar (of_int_T ar (code - 1)) rate) syn0 syn1 neu1e n m)
      else if less_T ar dot (neg_T ar (max_exp_T ar)) then
        Inr (kernel_update_T ar (mul_T ar (of_int_T ar (code - 0)) rate) syn0 syn1 neu1e n m)
      else
        bind_r (bucket_T ar dot L) (\<lambda>idx.
          if L \<le> idx then Inr m
          else
            bind_r (load m (ptr_add expTable idx)) (\<lambda>f.
              Inr (kernel_update_T ar (mul_T ar (sub_T ar (of_int_T ar code) f) rate)
                     syn0 syn1 neu1e n m))))"
  unfolding ns_exec_T_def dot_loop_T_valid [OF assms(1,2)] bind_r_Inr
  by (simp add: Let_def axpys_T_valid [OF assms] cong: if_cong)

section \<open>The kernels in exact arithmetic\<close>

text \<open>
  In exact arithmetic the bucket of a dot product in \<open>[-6, 6]\<close> is
  \<open>floor ((dot + 6) * L / 12)\<close>, and the two kernels are as follows on rows that lie
  inside their blocks, in three different blocks, with a table of \<open>L = expLength\<close>
  entries.  HierarchicSoftmax returns the memory unchanged when \<open>dot < -6\<close>,
  \<open>dot \<ge> 6\<close> or \<open>idx \<ge> L\<close>, and otherwise adds \<open>g * treeNode[i]\<close> to \<open>neu1e[i]\<close> and
  \<open>g * embedding[i]\<close> to \<open>treeNode[i]\<close>, for \<open>g = (1 - code - expTable[idx]) * alpha\<close>.
  NegativeSampling returns the memory unchanged exactly when \<open>dot\<close> is in \<open>[-6, 6]\<close> and
  \<open>idx \<ge> L\<close>, and otherwise makes the same two additions for its gradient.
\<close>

lemma hs_update_exact:
  assumes rows: "valid_row m syn0 n" "valid_row m syn1 n" "valid_row m neu1e n"
    and sep: "fst syn0 \<noteq> fst syn1" "fst syn0 \<noteq> fst neu1e" "fst syn1 \<noteq> fst neu1e"
    and tab: "valid_row m expTable L"
    and dot: "dot = dot_of m syn0 syn1 n"
    and idx: "idx = \<lfloor>(dot + 6) * real_of_int L / 12\<rfloor>"
    and g: "g = (1 - real_of_int code - rd m expTable (nat idx)) * rate"
  shows "if dot < - 6 \<or> 6 \<le> dot \<or> L \<le> idx
         then hs_exec m syn0 syn1 expTable neu1e n L code rate = Inr m
         else \<exists>m'. hs_exec m syn0 syn1 expTable neu1e n L code rate = Inr m' \<and>
                (\<forall>i<nat n. rd m' neu1e i = rd m neu1e i + g * rd m syn1 i \<and>
                             rd m' syn1 i = rd m syn1 i + g * rd m syn0 i \<and>
                             rd m' syn0 i = rd m syn0 i)"
proof (cases "dot < - 6 \<or> 6 \<le> dot")
  case True
  then show ?thesis
    using hs_exec_valid [OF rows sep tab, of code rate] by (auto simp: dot Let_def)
next
  case False
  then have r: "- 6 \<le> dot" "dot \<le> 6" by auto
  show ?thesis
  proof (cases "L \<le> idx")
    case True
    then have "L \<le> bucket dot L" using bucket_skip_iff [OF r] idx by simp
    then show ?thesis
      using True hs_exec_valid [OF rows sep tab, of code rate] by (auto simp: dot Let_def)
  next
    case F: False
    then have nb: "\<not> L \<le> bucket dot L" using bucket_skip_iff [OF r] idx by simp
    then have bi: "bucket dot L = idx" using bucket_in_table(3) [OF r] idx by simp
    have "hs_exec m syn0 syn1 expTable neu1e n L code rate
        = Inr (kernel_update g syn0 syn1 neu1e n m)"
      using hs_exec_valid [OF rows sep tab, of code rate] False nb bi
      by (simp add: dot [symmetric] Let_def g)
    then show ?thesis
      using False F rd_kernel_update [OF rows sep] by auto
  qed
qed

lemma ns_update_exact:
  assumes rows: "valid_row m syn0 n" "valid_row m target n" "valid_row m neu1e n"
    and sep: "fst syn0 \<noteq> fst target" "fst syn0 \<noteq> fst neu1e" "fst target \<noteq> fst neu1e"
    and tab: "valid_row m expTable L"
    and dot: "dot = dot_of m syn0 target n"
    and idx: "idx = \<lfloor>(dot + 6) * real_of_int L / 12\<rfloor>"
    and g: "g = (if 6 < dot then (real_of_int code - 1) * rate
                 else if dot < - 6 then (real_of_int code - 0) * rate
                 else (real_of_int code - rd m expTable (nat idx)) * rate)"
  shows "if - 6 \<le> dot \<and> dot \<le> 6 \<and> L \<le> idx
         then ns_exec m syn0 target expTable neu1e n L code rate = Inr m
         else \<exists>m'. ns_exec m syn0 target expTable neu1e n L code rate = Inr m' \<and>
                (\<forall>i<nat n. rd m' neu1e i = rd m neu1e i + g * rd m target i \<and>
                             rd m' target i = rd m target i + g * rd m syn0 i)"
proof (cases "6 < dot \<or> dot < - 6")
  case True
  then have "ns_exec m syn0 target expTable neu1e n L code rate
        = Inr (kernel_update g syn0 target neu1e n m)"
    using ns_exec_valid [OF rows sep tab, of code rate]
    by (auto simp: dot [symmetric] Let_def g)
  then show ?thesis
    using True rd_kernel_update [OF rows sep] by auto
next
  case False
  then have r: "- 6 \<le> dot" "dot \<le> 6" by auto
  show ?thesis
  proof (cases "L \<le> idx")
    case True
    then have "L \<le> bucket dot L" using bucket_skip_iff [OF r] idx by simp
    then show ?thesis
      using True r False ns_exec_valid [OF rows sep tab, of code rate]
      by (auto simp: dot Let_def)
  next
    case F: False
    then have nb: "\<not> L \<le> bucket dot L" using bucket_skip_iff [OF r] idx by simp
    then have bi: "bucket dot L = idx" using bucket_in_table(3) [OF r] idx by simp
    have "ns_exec m syn0 target expTable neu1e n L code rate
        = Inr (kernel_update g syn0 target neu1e n m)"
      using ns_exec_valid [OF rows sep tab, of code rate] False nb bi
      by (simp add: dot [symmetric] Let_def g)
    then show ?thesis
      using False F rd_kernel_update [OF rows sep] by auto
  qed
qed

section \<open>The gradient kernels: what one call does\<close>

text \<open>
  The bucket the kernels compute is not always \<open>floor ((dot + 6) * L / 12)\<close>: with the
  operations of the source rounded as floats (as doubles in the last line) it is the
  bucket below for the dot products \<open>0\<close> and \<open>3\<close>, and the bucket above, which is
  \<open>expLength\<close> in the first case, for dot products just below \<open>6\<close> and \<open>2\<close>.
\<close>

lemma bucket_T_rounded:
  "bucket_T binary32 0 10 = Inr 4 \<and> bucket 0 10 = 5"
  "bucket_T binary32 0 100 = Inr 49 \<and> bucket 0 100 = 50"
  "bucket_T binary32 3 20 = Inr 14 \<and> bucket 3 20 = 15"
  "bucket_T binary32 3 100 = Inr 74 \<and> bucket 3 100 = 75"
  "bucket_T binary32 (6 - 1 / 2 ^ 21) 2 = Inr 2 \<and> bucket (6 - 1 / 2 ^ 21) 2 = 1"
  "bucket_T binary32 (2 - 1 / 2 ^ 23) 3 = Inr 2 \<and> bucket (2 - 1 / 2 ^ 23) 3 = 1"
  "bucket_T binary64 (6 - 1 / 2 ^ 50) 2 = Inr 2 \<and> bucket (6 - 1 / 2 ^ 50) 2 = 1"
  by code_simp+

text \<open>
  C1, as stated, fails: in floats, on the rows \<open>[0]\<close> and \<open>[1]\<close> (\<open>dot = 0\<close>) with a table
  of ten entries, \<open>code = 1\<close> and \<open>alpha = 1\<close>, the index of the claim is
  \<open>floor ((0 + 6) * 10 / 12) = 5\<close>, in exact arithmetic and in floats alike, so that
  \<open>g = (1 - 1 - expTable[5]) * 1 = -5/16\<close> and \<open>neu1e[0]\<close> should become \<open>-5/16\<close>, the
  tree-node row staying \<open>[1]\<close>; the kernel computes the bucket \<open>4\<close> and leaves
  \<open>neu1e[0] = -1/4\<close>.
\<close>

theorem hs_bucket_counterexample:
  "dot_T binary32 tenth_mem (Syn0, 0) (Syn1, 0) 1 = 0 \<and>
   \<lfloor>(0 + 6) * real_of_int 10 / 12\<rfloor> = (5 :: int) \<and>
   rd tenth_mem (ExpTable, 0) 5 = 5 / 16 \<and>
   rd tenth_mem (Neu1e, 0) 0 + (1 - real_of_int 1 - 5 / 16) * 1 * rd tenth_mem (Syn1, 0) 0
     = - 5 / 16 \<and>
   mul_add_T binary32 (mul_T binary32 (sub_T binary32 (of_int_T binary32 (1 - 1)) (5 / 16)) 1)
     (rd tenth_mem (Syn1, 0) 0) (rd tenth_mem (Neu1e, 0) 0) = - 5 / 16 \<and>
   bucket_T binary32 0 10 = Inr 4 \<and>
   hs_exec_T binary32 tenth_mem (Syn0, 0) (Syn1, 0) (ExpTable, 0) (Neu1e, 0) 1 10 1 1
     = Inr (tenth_mem(Neu1e := [- 1 / 4])) \<and>
   hs_exec_T binary32 tenth_mem (Syn0, 0) (Syn1, 0) (ExpTable, 0) (Neu1e, 0) 1 10 1 1
     \<noteq> Inr (tenth_mem(Neu1e := [- 5 / 16]))"
proof -
  have rows: "valid_row tenth_mem (Syn0, 0) 1" "valid_row tenth_mem (Syn1, 0) 1"
      "valid_row tenth_mem (Neu1e, 0) 1"
    by (simp_all add: valid_row_def tenth_mem_def)
  have dot: "dot_T binary32 tenth_mem (Syn0, 0) (Syn1, 0) 1 = 0"
    by code_simp
  have guards: "\<not> less_T binary32 0 (neg_T binary32 (max_exp_T binary32))"
      "\<not> less_eq_T binary32 (max_exp_T binary32) 0"
    by code_simp+
  have idx: "bucket_T binary32 0 10 = Inr 4"
    by code_simp
  have f: "load tenth_mem (ptr_add (ExpTable, 0) 4) = Inr (1 / 4)"
    by code_simp
  have g: "mul_T binary32 (sub_T binary32 (of_int_T binary32 0) (1 / 4)) 1 = - (1 / 4)"
    by code_simp
  have u: "kernel_update_T binary32 (- (1 / 4)) (Syn0, 0) (Syn1, 0) (Neu1e, 0) 1 tenth_mem
      = tenth_mem(Neu1e := [- (1 / 4)])"
    by (rule ext, case_tac x; hypsubst; code_simp)
  have run: "hs_exec_T binary32 tenth_mem (Syn0, 0) (Syn1, 0) (ExpTable, 0) (Neu1e, 0) 1 10 1 1
      = Inr (tenth_mem(Neu1e := [- 1 / 4]))"
    unfolding hs_exec_T_valid [OF rows, simplified] dot Let_def
    using guards by (simp add: idx f g u)
  have claim: "\<lfloor>(0 + 6) * real_of_int 10 / 12\<rfloor> = (5 :: int)"
      "rd tenth_mem (ExpTable, 0) 5 = 5 / 16"
      "rd tenth_mem (Neu1e, 0) 0 + (1 - real_of_int 1 - 5 / 16) * 1 * rd tenth_mem (Syn1, 0) 0
        = - 5 / 16"
      "mul_add_T binary32 (mul_T binary32 (sub_T binary32 (of_int_T binary32 (1 - 1)) (5 / 16)) 1)
        (rd tenth_mem (Syn1, 0) 0) (rd tenth_mem (Neu1e, 0) 0) = - 5 / 16"
    by code_simp+
  have "(tenth_mem(Neu1e := [- 1 / 4])) Neu1e \<noteq> (tenth_mem(Neu1e := [- 5 / 16])) Neu1e"
    by simp
  then have "tenth_mem(Neu1e := [- 1 / 4]) \<noteq> tenth_mem(Neu1e := [- 5 / 16])"
    by metis
  then have other: "hs_exec_T binary32 tenth_mem (Syn0, 0) (Syn1, 0) (ExpTable, 0) (Neu1e, 0)
      1 10 1 1 \<noteq> Inr (tenth_mem(Neu1e := [- 5 / 16]))"
    unfolding run by simp
  from dot claim idx run other show ?thesis by blast
qed

text \<open>
  C1, amended.  HierarchicSoftmax in the arithmetic of \<open>T\<close>, on rows that lie inside
  their blocks, in three different blocks, with a table of \<open>L = expLength\<close> entries.
  Let \<open>dot\<close> be the dot product of the embedding row and the tree-node row, accumulated
  from the first element to the last.  When \<open>dot < -6\<close> or \<open>dot \<ge> 6\<close> the call returns
  the memory unchanged.  Otherwise the bucket is the kernel's own
  \<open>(int) ((dot + 6.0f) * ((T) L / 6.0f / 2.0))\<close>, every operation rounded as it is
  computed: when that cast is undefined (a \<open>dot\<close> that is not a number passes both
  comparisons) the call is undefined; when \<open>idx \<ge> L\<close> the call returns the memory
  unchanged; and when \<open>0 \<le> idx < L\<close>, with \<open>g = (1 - code - expTable[idx]) * alpha\<close>,
  every element \<open>i\<close> of \<open>neu1e\<close> becomes \<open>g * treeNode[i] + neu1e[i]\<close>, every element of
  the tree-node row becomes \<open>g * embedding[i] + treeNode[i]\<close>, and the embedding row is
  as before.
\<close>

theorem hs_kernel_update:
  fixes ar :: "('t, 'd) arith" and m :: "'t memory"
  assumes rows: "valid_row m syn0 n" "valid_row m syn1 n" "valid_row m neu1e n"
    and sep: "fst syn0 \<noteq> fst syn1" "fst syn0 \<noteq> fst neu1e" "fst syn1 \<noteq> fst neu1e"
    and tab: "valid_row m expTable L"
    and dot: "dot = dot_T ar m syn0 syn1 n"
    and cast: "cast = int_of_D ar
                 (mul_D ar (to_double ar (add_T ar dot (max_exp_T ar)))
                    (div_D ar (to_double ar (div_T ar (of_int_T ar L) (max_exp_T ar)))
                       (two_D ar)))"
    and g: "g = mul_T ar (sub_T ar (of_int_T ar (1 - code)) (rd m expTable (nat idx))) rate"
  shows "(less_T ar dot (neg_T ar (max_exp_T ar)) \<or> less_eq_T ar (max_exp_T ar) dot \<longrightarrow>
            hs_exec_T ar m syn0 syn1 expTable neu1e n L code rate = Inr m) \<and>
         (\<not> less_T ar dot (neg_T ar (max_exp_T ar)) \<and> \<not> less_eq_T ar (max_exp_T ar) dot \<longrightarrow>
            (cast = Inl e \<longrightarrow>
               hs_exec_T ar m syn0 syn1 expTable neu1e n L code rate = Inl e) \<and>
            (cast = Inr idx \<and> L \<le> idx \<longrightarrow>
               hs_exec_T ar m syn0 syn1 expTable neu1e n L code rate = Inr m) \<and>
            (cast = Inr idx \<and> 0 \<le> idx \<and> idx < L \<longrightarrow>
               (\<exists>m'. hs_exec_T ar m syn0 syn1 expTable neu1e n L code rate = Inr m' \<and>
                  (\<forall>i<nat n.
                     rd m' neu1e i = mul_add_T ar g (rd m syn1 i) (rd m neu1e i) \<and>
                     rd m' syn1 i = mul_add_T ar g (rd m syn0 i) (rd m syn1 i) \<and>
                     rd m' syn0 i = rd m syn0 i))))"
proof -
  have run: "hs_exec_T ar m syn0 syn1 expTable neu1e n L code rate =
     (if less_T ar dot (neg_T ar (max_exp_T ar)) \<or> less_eq_T ar (max_exp_T ar) dot then Inr m
      else
        bind_r cast (\<lambda>idx.
          if L \<le> idx then Inr m
          else
            bind_r (load m (ptr_add expTable idx)) (\<lambda>f.
              Inr (kernel_update_T ar (mul_T ar (sub_T ar (of_int_T ar (1 - code)) f) rate)
                     syn0 syn1 neu1e n m))))"
    unfolding hs_exec_T_valid [OF rows sep] dot cast bucket_T_def Let_def ..
  have saturated: "less_T ar dot (neg_T ar (max_exp_T ar)) \<or> less_eq_T ar (max_exp_T ar) dot \<longrightarrow>
      hs_exec_T ar m syn0 syn1 expTable neu1e n L code rate = Inr m"
    by (simp add: run)
  have undefined_cast: "cast = Inl e \<longrightarrow>
      hs_exec_T ar m syn0 syn1 expTable neu1e n L code rate = Inl e"
    if "\<not> less_T ar dot (neg_T ar (max_exp_T ar))" "\<not> less_eq_T ar (max_exp_T ar) dot"
    using that by (simp add: run)
  have skip: "cast = Inr idx \<and> L \<le> idx \<longrightarrow>
      hs_exec_T ar m syn0 syn1 expTable neu1e n L code rate = Inr m"
    if "\<not> less_T ar dot (neg_T ar (max_exp_T ar))" "\<not> less_eq_T ar (max_exp_T ar) dot"
    using that by (simp add: run)
  have update: "cast = Inr idx \<and> 0 \<le> idx \<and> idx < L \<longrightarrow>
      (\<exists>m'. hs_exec_T ar m syn0 syn1 expTable neu1e n L code rate = Inr m' \<and>
         (\<forall>i<nat n.
            rd m' neu1e i = mul_add_T ar g (rd m syn1 i) (rd m neu1e i) \<and>
            rd m' syn1 i = mul_add_T ar g (rd m syn0 i) (rd m syn1 i) \<and>
            rd m' syn0 i = rd m syn0 i))"
    if s: "\<not> less_T ar dot (neg_T ar (max_exp_T ar))" "\<not> less_eq_T ar (max_exp_T ar) dot"
  proof
    assume c: "cast = Inr idx \<and> 0 \<le> idx \<and> idx < L"
    then have "load m (ptr_add expTable idx) = Inr (rd m expTable (nat idx))"
      using load_table [OF tab] by simp
    then have "hs_exec_T ar m syn0 syn1 expTable neu1e n L code rate
        = Inr (kernel_update_T ar g syn0 syn1 neu1e n m)"
      using s c by (simp add: run g)
    then show "\<exists>m'. hs_exec_T ar m syn0 syn1 expTable neu1e n L code rate = Inr m' \<and>
         (\<forall>i<nat n.
            rd m' neu1e i = mul_add_T ar g (rd m syn1 i) (rd m neu1e i) \<and>
            rd m' syn1 i = mul_add_T ar g (rd m syn0 i) (rd m syn1 i) \<and>
            rd m' syn0 i = rd m syn0 i)"
      using rd_kernel_update_T [OF rows sep, where ar = ar and g = g] by simp
  qed
  from saturated undefined_cast skip update show ?thesis by blast
qed

theorem hs_kernel_update_witness:
  "(\<exists>m'. hs_exec_T binary32 scenario_mem (Syn0, 0) (Syn1, 0) (ExpTable, 0) (Neu1e, 0) 4 2 1 (1 / 8)
            = Inr m' \<and>
      (\<forall>i<4. rd m' (Neu1e, 0) i = mul_add_T binary32 (- 1 / 16) (rd scenario_mem (Syn1, 0) i)
                                      (rd scenario_mem (Neu1e, 0) i) \<and>
               rd m' (Syn1, 0) i = mul_add_T binary32 (- 1 / 16) (rd scenario_mem (Syn0, 0) i)
                                     (rd scenario_mem (Syn1, 0) i) \<and>
               rd m' (Syn0, 0) i = rd scenario_mem (Syn0, 0) i)) \<and>
   hs_exec_T binary32 near_six_mem (Syn0, 0) (Syn1, 0) (ExpTable, 0) (Neu1e, 0) 1 2 0 1
     = Inr near_six_mem \<and>
   hs_exec_T binary32 saturated_mem (Syn0, 0) (Syn1Neg, 0) (ExpTable, 0) (Neu1e, 0) 2 2 0 1
     = Inr saturated_mem \<and>
   hs_exec_T (with_nan binary32) nan_mem (Syn0, 0) (Syn1, 0) (ExpTable, 0) (Neu1e, 0) 1 2 0 (Some 1)
     = Inl CastOutOfRange"
proof -
  have sep: "fst (Syn0, 0 :: int) \<noteq> fst (Syn1, 0 :: int)"
      "fst (Syn0, 0 :: int) \<noteq> fst (Neu1e, 0 :: int)"
      "fst (Syn1, 0 :: int) \<noteq> fst (Neu1e, 0 :: int)"
      "fst (Syn0, 0 :: int) \<noteq> fst (Syn1Neg, 0 :: int)"
      "fst (Syn1Neg, 0 :: int) \<noteq> fst (Neu1e, 0 :: int)"
    by simp_all
  have update: "\<exists>m'. hs_exec_T binary32 scenario_mem (Syn0, 0) (Syn1, 0) (ExpTable, 0) (Neu1e, 0)
                       4 2 1 (1 / 8) = Inr m' \<and>
      (\<forall>i<4. rd m' (Neu1e, 0) i = mul_add_T binary32 (- 1 / 16) (rd scenario_mem (Syn1, 0) i)
                                      (rd scenario_mem (Neu1e, 0) i) \<and>
               rd m' (Syn1, 0) i = mul_add_T binary32 (- 1 / 16) (rd scenario_mem (Syn0, 0) i)
                                     (rd scenario_mem (Syn1, 0) i) \<and>
               rd m' (Syn0, 0) i = rd scenario_mem (Syn0, 0) i)"
  proof -
    have rows: "valid_row scenario_mem (Syn0, 0) 4" "valid_row scenario_mem (Syn1, 0) 4"
        "valid_row scenario_mem (Neu1e, 0) 4"
      and tab: "valid_row scenario_mem (ExpTable, 0) 2"
      by (simp_all add: valid_row_def scenario_mem_def)
    have dot: "0 = dot_T binary32 scenario_mem (Syn0, 0) (Syn1, 0) 4"
      by code_simp
    have cast: "Inr 1 = int_of_D binary32
                 (mul_D binary32 (to_double binary32 (add_T binary32 0 (max_exp_T binary32)))
                    (div_D binary32
                       (to_double binary32 (div_T binary32 (of_int_T binary32 2) (max_exp_T binary32)))
                       (two_D binary32)))"
      by code_simp
    have g: "- 1 / 16 = mul_T binary32
                 (sub_T binary32 (of_int_T binary32 (1 - 1)) (rd scenario_mem (ExpTable, 0) (nat 1)))
                 (1 / 8)"
      by code_simp
    have middle: "\<not> less_T binary32 0 (neg_T binary32 (max_exp_T binary32)) \<and>
        \<not> less_eq_T binary32 (max_exp_T binary32) 0"
      by code_simp
    from hs_kernel_update [OF rows sep(1-3) tab dot cast g, THEN conjunct2, THEN mp, OF middle]
    show ?thesis by simp
  qed
  have skip: "hs_exec_T binary32 near_six_mem (Syn0, 0) (Syn1, 0) (ExpTable, 0) (Neu1e, 0) 1 2 0 1
      = Inr near_six_mem"
  proof -
    have rows: "valid_row near_six_mem (Syn0, 0) 1" "valid_row near_six_mem (Syn1, 0) 1"
        "valid_row near_six_mem (Neu1e, 0) 1"
      and tab: "valid_row near_six_mem (ExpTable, 0) 2"
      by (simp_all add: valid_row_def near_six_mem_def)
    have dot: "6 - 1 / 2 ^ 21 = dot_T binary32 near_six_mem (Syn0, 0) (Syn1, 0) 1"
      by code_simp
    have cast: "Inr 2 = int_of_D binary32
                 (mul_D binary32
                    (to_double binary32 (add_T binary32 (6 - 1 / 2 ^ 21) (max_exp_T binary32)))
                    (div_D binary32
                       (to_double binary32 (div_T binary32 (of_int_T binary32 2) (max_exp_T binary32)))
                       (two_D binary32)))"
      by code_simp
    have middle: "\<not> less_T binary32 (6 - 1 / 2 ^ 21) (neg_T binary32 (max_exp_T binary32)) \<and>
        \<not> less_eq_T binary32 (max_exp_T binary32) (6 - 1 / 2 ^ 21)"
      by code_simp
    from hs_kernel_update [where idx = 2 and code = 0 and rate = "1 :: real",
        OF rows sep(1-3) tab dot cast refl, THEN conjunct2, THEN mp, OF middle]
    show ?thesis by simp
  qed
  have saturated: "hs_exec_T binary32 saturated_mem (Syn0, 0) (Syn1Neg, 0) (ExpTable, 0) (Neu1e, 0)
      2 2 0 1 = Inr saturated_mem"
  proof -
    have rows: "valid_row saturated_mem (Syn0, 0) 2" "valid_row saturated_mem (Syn1Neg, 0) 2"
        "valid_row saturated_mem (Neu1e, 0) 2"
      and tab: "valid_row saturated_mem (ExpTable, 0) 2"
      by (simp_all add: valid_row_def saturated_mem_def)
    have dot: "7 = dot_T binary32 saturated_mem (Syn0, 0) (Syn1Neg, 0) 2"
      by code_simp
    have high: "less_T binary32 7 (neg_T binary32 (max_exp_T binary32)) \<or>
        less_eq_T binary32 (max_exp_T binary32) 7"
      by code_simp
    from hs_kernel_update [where code = 0 and rate = "1 :: real",
        OF rows sep(4,2,5) tab dot refl refl, THEN conjunct1, THEN mp, OF high]
    show ?thesis .
  qed
  have not_a_number: "hs_exec_T (with_nan binary32) nan_mem (Syn0, 0) (Syn1, 0) (ExpTable, 0)
      (Neu1e, 0) 1 2 0 (Some 1) = Inl CastOutOfRange"
  proof -
    have rows: "valid_row nan_mem (Syn0, 0) 1" "valid_row nan_mem (Syn1, 0) 1"
        "valid_row nan_mem (Neu1e, 0) 1"
      and tab: "valid_row nan_mem (ExpTable, 0) 2"
      by (simp_all add: valid_row_def nan_mem_def)
    have dot: "None = dot_T (with_nan binary32) nan_mem (Syn0, 0) (Syn1, 0) 1"
      by code_simp
    have cast: "Inl CastOutOfRange = int_of_D (with_nan binary32)
                 (mul_D (with_nan binary32)
                    (to_double (with_nan binary32)
                       (add_T (with_nan binary32) None (max_exp_T (with_nan binary32))))
                    (div_D (with_nan binary32)
                       (to_double (with_nan binary32)
                          (div_T (with_nan binary32) (of_int_T (with_nan binary32) 2)
                             (max_exp_T (with_nan binary32))))
                       (two_D (with_nan binary32))))"
      by code_simp
    have middle: "\<not> less_T (with_nan binary32) None (neg_T (with_nan binary32) (max_exp_T (with_nan binary32))) \<and>
        \<not> less_eq_T (with_nan binary32) (max_exp_T (with_nan binary32)) None"
      by code_simp
    from hs_kernel_update [where e = CastOutOfRange and code = 0 and rate = "Some (1 :: real)",
        OF rows sep(1-3) tab dot cast refl, THEN conjunct2, THEN mp, OF middle]
    show ?thesis by simp
  qed
  from update skip saturated not_a_number show ?thesis by blast
qed

text \<open>
  C2, as stated, fails: in floats, on the rows \<open>[3]\<close> and \<open>[1]\<close> (\<open>dot = 3\<close>) with a table
  of twenty entries, \<open>code = 1\<close> and \<open>alpha = 1\<close>, the index of the claim is
  \<open>floor ((3 + 6) * 20 / 12) = 15\<close>, in exact arithmetic and in floats alike, so that
  \<open>g = (1 - expTable[15]) * 1 = 17/32\<close>, \<open>neu1e[0]\<close> should become \<open>17/32\<close> and the
  target row \<open>[17/32 * 3 + 1] = [83/32]\<close>; the kernel computes the bucket \<open>14\<close> and
  leaves \<open>neu1e[0] = 9/16\<close> and the target row \<open>[43/16]\<close>.
\<close>

theorem ns_bucket_counterexample:
  "dot_T binary32 twentieth_mem (Syn0, 0) (Syn1Neg, 0) 1 = 3 \<and>
   \<lfloor>(3 + 6) * real_of_int 20 / 12\<rfloor> = (15 :: int) \<and>
   rd twentieth_mem (ExpTable, 0) 15 = 15 / 32 \<and>
   rd twentieth_mem (Neu1e, 0) 0 + (real_of_int 1 - 15 / 32) * 1 * rd twentieth_mem (Syn1Neg, 0) 0
     = 17 / 32 \<and>
   mul_add_T binary32 (mul_T binary32 (sub_T binary32 (of_int_T binary32 1) (15 / 32)) 1)
     (rd twentieth_mem (Syn1Neg, 0) 0) (rd twentieth_mem (Neu1e, 0) 0) = 17 / 32 \<and>
   bucket_T binary32 3 20 = Inr 14 \<and>
   ns_exec_T binary32 twentieth_mem (Syn0, 0) (Syn1Neg, 0) (ExpTable, 0) (Neu1e, 0) 1 20 1 1
     = Inr (twentieth_mem(Neu1e := [9 / 16], Syn1Neg := [43 / 16])) \<and>
   ns_exec_T binary32 twentieth_mem (Syn0, 0) (Syn1Neg, 0) (ExpTable, 0) (Neu1e, 0) 1 20 1 1
     \<noteq> Inr (twentieth_mem(Neu1e := [17 / 32], Syn1Neg := [83 / 32]))"
proof -
  have rows: "valid_row twentieth_mem (Syn0, 0) 1" "valid_row twentieth_mem (Syn1Neg, 0) 1"
      "valid_row twentieth_mem (Neu1e, 0) 1"
    by (simp_all add: valid_row_def twentieth_mem_def)
  have dot: "dot_T binary32 twentieth_mem (Syn0, 0) (Syn1Neg, 0) 1 = 3"
    by code_simp
  have guards: "\<not> less_T binary32 (max_exp_T binary32) 3"
      "\<not> less_T binary32 3 (neg_T binary32 (max_exp_T binary32))"
    by code_simp+
  have idx: "bucket_T binary32 3 20 = Inr 14"
    by code_simp
  have f: "load twentieth_mem (ptr_add (ExpTable, 0) 14) = Inr (7 / 16)"
    by code_simp
  have g: "mul_T binary32 (sub_T binary32 (of_int_T binary32 1) (7 / 16)) 1 = 9 / 16"
    by code_simp
  have u: "kernel_update_T binary32 (9 / 16) (Syn0, 0) (Syn1Neg, 0) (Neu1e, 0) 1 twentieth_mem
      = twentieth_mem(Neu1e := [9 / 16], Syn1Neg := [43 / 16])"
    by (rule ext, case_tac x; hypsubst; code_simp)
  have run: "ns_exec_T binary32 twentieth_mem (Syn0, 0) (Syn1Neg, 0) (ExpTable, 0) (Neu1e, 0)
      1 20 1 1 = Inr (twentieth_mem(Neu1e := [9 / 16], Syn1Neg := [43 / 16]))"
    unfolding ns_exec_T_valid [OF rows, simplified] dot Let_def
    using guards by (simp add: idx f g u)
  have claim: "\<lfloor>(3 + 6) * real_of_int 20 / 12\<rfloor> = (15 :: int)"
      "rd twentieth_mem (ExpTable, 0) 15 = 15 / 32"
      "rd twentieth_mem (Neu1e, 0) 0
         + (real_of_int 1 - 15 / 32) * 1 * rd twentieth_mem (Syn1Neg, 0) 0 = 17 / 32"
      "mul_add_T binary32 (mul_T binary32 (sub_T binary32 (of_int_T binary32 1) (15 / 32)) 1)
        (rd twentieth_mem (Syn1Neg, 0) 0) (rd twentieth_mem (Neu1e, 0) 0) = 17 / 32"
    by code_simp+
  have "(twentieth_mem(Neu1e := [9 / 16], Syn1Neg := [43 / 16])) Neu1e
      \<noteq> (twentieth_mem(Neu1e := [17 / 32], Syn1Neg := [83 / 32])) Neu1e"
    by simp
  then have "twentieth_mem(Neu1e := [9 / 16], Syn1Neg := [43 / 16])
      \<noteq> twentieth_mem(Neu1e := [17 / 32], Syn1Neg := [83 / 32])"
    by metis
  then have other: "ns_exec_T binary32 twentieth_mem (Syn0, 0) (Syn1Neg, 0) (ExpTable, 0)
      (Neu1e, 0) 1 20 1 1 \<noteq> Inr (twentieth_mem(Neu1e := [17 / 32], Syn1Neg := [83 / 32]))"
    unfolding run by simp
  from dot claim idx run other show ?thesis by blast
qed

text \<open>
  C2, amended.  NegativeSampling in the arithmetic of \<open>T\<close>, on rows that lie inside their
  blocks, in three different blocks, with a table of \<open>L = expLength\<close> entries.  Let
  \<open>dot\<close> be the dot product of the embedding side and the target row, accumulated from
  the first element to the last.  The gradient is \<open>(code - 1) * alpha\<close> when \<open>dot > 6\<close>,
  \<open>(code - 0) * alpha\<close> when \<open>dot < -6\<close>, and \<open>(code - expTable[idx]) * alpha\<close> otherwise,
  with the kernel's own bucket \<open>idx = (int) ((dot + 6.0f) * ((T) L / 6.0f / 2.0))\<close>, every
  operation rounded as it is computed.  Only in the middle case does the call return
  without an update: with the memory unchanged when \<open>idx \<ge> L\<close>, and undefined when the
  cast is (a \<open>dot\<close> that is not a number is in the middle case).  In the two outer
  cases, and in the middle case with \<open>0 \<le> idx < L\<close>, every element \<open>i\<close> of \<open>neu1e\<close>
  becomes \<open>g * target[i] + neu1e[i]\<close> and every element of the target row becomes
  \<open>g * embedding[i] + target[i]\<close>.
\<close>

theorem ns_kernel_update:
  fixes ar :: "('t, 'd) arith" and m :: "'t memory"
  assumes rows: "valid_row m syn0 n" "valid_row m target n" "valid_row m neu1e n"
    and sep: "fst syn0 \<noteq> fst target" "fst syn0 \<noteq> fst neu1e" "fst target \<noteq> fst neu1e"
    and tab: "valid_row m expTable L"
    and dot: "dot = dot_T ar m syn0 target n"
    and cast: "cast = int_of_D ar
                 (mul_D ar (to_double ar (add_T ar dot (max_exp_T ar)))
                    (div_D ar (to_double ar (div_T ar (of_int_T ar L) (max_exp_T ar)))
                       (two_D ar)))"
    and g: "g = (if less_T ar (max_exp_T ar) dot then mul_T ar (of_int_T ar (code - 1)) rate
                 else if less_T ar dot (neg_T ar (max_exp_T ar))
                   then mul_T ar (of_int_T ar (code - 0)) rate
                 else mul_T ar (sub_T ar (of_int_T ar code) (rd m expTable (nat idx))) rate)"
  shows "(\<not> less_T ar (max_exp_T ar) dot \<and> \<not> less_T ar dot (neg_T ar (max_exp_T ar)) \<longrightarrow>
            (cast = Inl e \<longrightarrow>
               ns_exec_T ar m syn0 target expTable neu1e n L code rate = Inl e) \<and>
            (cast = Inr idx \<and> L \<le> idx \<longrightarrow>
               ns_exec_T ar m syn0 target expTable neu1e n L code rate = Inr m)) \<and>
         (less_T ar (max_exp_T ar) dot \<or> less_T ar dot (neg_T ar (max_exp_T ar)) \<or>
          cast = Inr idx \<and> 0 \<le> idx \<and> idx < L \<longrightarrow>
            (\<exists>m'. ns_exec_T ar m syn0 target expTable neu1e n L code rate = Inr m' \<and>
               (\<forall>i<nat n.
                  rd m' neu1e i = mul_add_T ar g (rd m target i) (rd m neu1e i) \<and>
                  rd m' target i = mul_add_T ar g (rd m syn0 i) (rd m target i))))"
proof -
  have run: "ns_exec_T ar m syn0 target expTable neu1e n L code rate =
     (if less_T ar (max_exp_T ar) dot then
        Inr (kernel_update_T ar (mul_T ar (of_int_T ar (code - 1)) rate) syn0 target neu1e n m)
      else if less_T ar dot (neg_T ar (max_exp_T ar)) then
        Inr (kernel_update_T ar (mul_T ar (of_int_T ar (code - 0)) rate) syn0 target neu1e n m)
      else
        bind_r cast (\<lambda>idx.
          if L \<le> idx then Inr m
          else
            bind_r (load m (ptr_add expTable idx)) (\<lambda>f.
              Inr (kernel_update_T ar (mul_T ar (sub_T ar (of_int_T ar code) f) rate)
                     syn0 target neu1e n m))))"
    unfolding ns_exec_T_valid [OF rows sep] dot cast bucket_T_def Let_def ..
  have middle: "(cast = Inl e \<longrightarrow>
        ns_exec_T ar m syn0 target expTable neu1e n L code rate = Inl e) \<and>
      (cast = Inr idx \<and> L \<le> idx \<longrightarrow>
        ns_exec_T ar m syn0 target expTable neu1e n L code rate = Inr m)"
    if "\<not> less_T ar (max_exp_T ar) dot" "\<not> less_T ar dot (neg_T ar (max_exp_T ar))"
    using that by (simp add: run)
  have update: "\<exists>m'. ns_exec_T ar m syn0 target expTable neu1e n L code rate = Inr m' \<and>
       (\<forall>i<nat n.
          rd m' neu1e i = mul_add_T ar g (rd m target i) (rd m neu1e i) \<and>
          rd m' target i = mul_add_T ar g (rd m syn0 i) (rd m target i))"
    if c: "less_T ar (max_exp_T ar) dot \<or> less_T ar dot (neg_T ar (max_exp_T ar)) \<or>
          cast = Inr idx \<and> 0 \<le> idx \<and> idx < L"
  proof -
    have "ns_exec_T ar m syn0 target expTable neu1e n L code rate
        = Inr (kernel_update_T ar g syn0 target neu1e n m)"
    proof (cases "less_T ar (max_exp_T ar) dot \<or> less_T ar dot (neg_T ar (max_exp_T ar))")
      case True
      then show ?thesis by (auto simp: run g)
    next
      case False
      with c have i: "cast = Inr idx" "0 \<le> idx" "idx < L" by auto
      then have "load m (ptr_add expTable idx) = Inr (rd m expTable (nat idx))"
        using load_table [OF tab] by simp
      then show ?thesis
        using False i by (simp add: run g)
    qed
    then show ?thesis
      using rd_kernel_update_T [OF rows sep, where ar = ar and g = g] by simp
  qed
  from middle update show ?thesis by blast
qed

theorem ns_kernel_update_witness:
  "(\<exists>m'. ns_exec_T binary32 near_two_mem (Syn0, 0) (Syn1Neg, 0) (ExpTable, 0) (Neu1e, 0) 1 3 1 1
            = Inr m' \<and>
      (\<forall>i<1. rd m' (Neu1e, 0) i = mul_add_T binary32 (1 / 4) (rd near_two_mem (Syn1Neg, 0) i)
                                      (rd near_two_mem (Neu1e, 0) i) \<and>
               rd m' (Syn1Neg, 0) i = mul_add_T binary32 (1 / 4) (rd near_two_mem (Syn0, 0) i)
                                        (rd near_two_mem (Syn1Neg, 0) i))) \<and>
   (\<exists>m'. ns_exec_T binary32 saturated_mem (Syn0, 0) (Syn1Neg, 0) (ExpTable, 0) (Neu1e, 0) 2 2 0
            (1 / 8) = Inr m' \<and>
      (\<forall>i<2. rd m' (Neu1e, 0) i = mul_add_T binary32 (- 1 / 8) (rd saturated_mem (Syn1Neg, 0) i)
                                      (rd saturated_mem (Neu1e, 0) i) \<and>
               rd m' (Syn1Neg, 0) i = mul_add_T binary32 (- 1 / 8) (rd saturated_mem (Syn0, 0) i)
                                        (rd saturated_mem (Syn1Neg, 0) i))) \<and>
   ns_exec_T binary32 near_six_mem (Syn0, 0) (Syn1, 0) (ExpTable, 0) (Neu1e, 0) 1 2 0 1
     = Inr near_six_mem \<and>
   ns_exec_T (with_nan binary32) nan_mem (Syn0, 0) (Syn1Neg, 0) (ExpTable, 0) (Neu1e, 0) 1 2 0
     (Some 1) = Inl CastOutOfRange"
proof -
  have sep: "fst (Syn0, 0 :: int) \<noteq> fst (Syn1Neg, 0 :: int)"
      "fst (Syn0, 0 :: int) \<noteq> fst (Neu1e, 0 :: int)"
      "fst (Syn1Neg, 0 :: int) \<noteq> fst (Neu1e, 0 :: int)"
      "fst (Syn0, 0 :: int) \<noteq> fst (Syn1, 0 :: int)"
      "fst (Syn1, 0 :: int) \<noteq> fst (Neu1e, 0 :: int)"
    by simp_all
  have table: "\<exists>m'. ns_exec_T binary32 near_two_mem (Syn0, 0) (Syn1Neg, 0) (ExpTable, 0) (Neu1e, 0)
                      1 3 1 1 = Inr m' \<and>
      (\<forall>i<1. rd m' (Neu1e, 0) i = mul_add_T binary32 (1 / 4) (rd near_two_mem (Syn1Neg, 0) i)
                                      (rd near_two_mem (Neu1e, 0) i) \<and>
               rd m' (Syn1Neg, 0) i = mul_add_T binary32 (1 / 4) (rd near_two_mem (Syn0, 0) i)
                                        (rd near_two_mem (Syn1Neg, 0) i))"
  proof -
    have rows: "valid_row near_two_mem (Syn0, 0) 1" "valid_row near_two_mem (Syn1Neg, 0) 1"
        "valid_row near_two_mem (Neu1e, 0) 1"
      and tab: "valid_row near_two_mem (ExpTable, 0) 3"
      by (simp_all add: valid_row_def near_two_mem_def)
    have dot: "2 - 1 / 2 ^ 23 = dot_T binary32 near_two_mem (Syn0, 0) (Syn1Neg, 0) 1"
      by code_simp
    have cast: "Inr 2 = int_of_D binary32
                 (mul_D binary32
                    (to_double binary32 (add_T binary32 (2 - 1 / 2 ^ 23) (max_exp_T binary32)))
                    (div_D binary32
                       (to_double binary32 (div_T binary32 (of_int_T binary32 3) (max_exp_T binary32)))
                       (two_D binary32)))"
      by code_simp
    have g: "1 / 4 =
        (if less_T binary32 (max_exp_T binary32) (2 - 1 / 2 ^ 23)
         then mul_T binary32 (of_int_T binary32 (1 - 1)) 1
         else if less_T binary32 (2 - 1 / 2 ^ 23) (neg_T binary32 (max_exp_T binary32))
           then mul_T binary32 (of_int_T binary32 (1 - 0)) 1
         else mul_T binary32
                (sub_T binary32 (of_int_T binary32 1) (rd near_two_mem (ExpTable, 0) (nat 2))) 1)"
      by code_simp
    from ns_kernel_update [OF rows sep(1-3) tab dot cast g, THEN conjunct2]
    show ?thesis by simp
  qed
  have high: "\<exists>m'. ns_exec_T binary32 saturated_mem (Syn0, 0) (Syn1Neg, 0) (ExpTable, 0) (Neu1e, 0)
                      2 2 0 (1 / 8) = Inr m' \<and>
      (\<forall>i<2. rd m' (Neu1e, 0) i = mul_add_T binary32 (- 1 / 8) (rd saturated_mem (Syn1Neg, 0) i)
                                      (rd saturated_mem (Neu1e, 0) i) \<and>
               rd m' (Syn1Neg, 0) i = mul_add_T binary32 (- 1 / 8) (rd saturated_mem (Syn0, 0) i)
                                        (rd saturated_mem (Syn1Neg, 0) i))"
  proof -
    have rows: "valid_row saturated_mem (Syn0, 0) 2" "valid_row saturated_mem (Syn1Neg, 0) 2"
        "valid_row saturated_mem (Neu1e, 0) 2"
      and tab: "valid_row saturated_mem (ExpTable, 0) 2"
      by (simp_all add: valid_row_def saturated_mem_def)
    have dot: "7 = dot_T binary32 saturated_mem (Syn0, 0) (Syn1Neg, 0) 2"
      by code_simp
    have above: "less_T binary32 (max_exp_T binary32) 7"
      by code_simp
    have g: "- 1 / 8 =
        (if less_T binary32 (max_exp_T binary32) 7
         then mul_T binary32 (of_int_T binary32 (0 - 1)) (1 / 8)
         else if less_T binary32 7 (neg_T binary32 (max_exp_T binary32))
           then mul_T binary32 (of_int_T binary32 (0 - 0)) (1 / 8)
         else mul_T binary32
                (sub_T binary32 (of_int_T binary32 0) (rd saturated_mem (ExpTable, 0) (nat 0)))
                (1 / 8))"
      by code_simp
    from ns_kernel_update [where idx = 0, OF rows sep(1-3) tab dot refl g, THEN conjunct2] above
    show ?thesis by simp
  qed
  have skip: "ns_exec_T binary32 near_six_mem (Syn0, 0) (Syn1, 0) (ExpTable, 0) (Neu1e, 0) 1 2 0 1
      = Inr near_six_mem"
  proof -
    have rows: "valid_row near_six_mem (Syn0, 0) 1" "valid_row near_six_mem (Syn1, 0) 1"
        "valid_row near_six_mem (Neu1e, 0) 1"
      and tab: "valid_row near_six_mem (ExpTable, 0) 2"
      by (simp_all add: valid_row_def near_six_mem_def)
    have dot: "6 - 1 / 2 ^ 21 = dot_T binary32 near_six_mem (Syn0, 0) (Syn1, 0) 1"
      by code_simp
    have cast: "Inr 2 = int_of_D binary32
                 (mul_D binary32
                    (to_double binary32 (add_T binary32 (6 - 1 / 2 ^ 21) (max_exp_T binary32)))
                    (div_D binary32
                       (to_double binary32 (div_T binary32 (of_int_T binary32 2) (max_exp_T binary32)))
                       (two_D binary32)))"
      by code_simp
    have middle: "\<not> less_T binary32 (max_exp_T binary32) (6 - 1 / 2 ^ 21) \<and>
        \<not> less_T binary32 (6 - 1 / 2 ^ 21) (neg_T binary32 (max_exp_T binary32))"
      by code_simp
    from ns_kernel_update [where idx = 2 and code = 0 and rate = "1 :: real",
        OF rows sep(4,2,5) tab dot cast refl, THEN conjunct1, THEN mp, OF middle]
    show ?thesis by simp
  qed
  have not_a_number: "ns_exec_T (with_nan binary32) nan_mem (Syn0, 0) (Syn1Neg, 0) (ExpTable, 0)
      (Neu1e, 0) 1 2 0 (Some 1) = Inl CastOutOfRange"
  proof -
    have rows: "valid_row nan_mem (Syn0, 0) 1" "valid_row nan_mem (Syn1Neg, 0) 1"
        "valid_row nan_mem (Neu1e, 0) 1"
      and tab: "valid_row nan_mem (ExpTable, 0) 2"
      by (simp_all add: valid_row_def nan_mem_def)
    have dot: "None = dot_T (with_nan binary32) nan_mem (Syn0, 0) (Syn1Neg, 0) 1"
      by code_simp
    have cast: "Inl CastOutOfRange = int_of_D (with_nan binary32)
                 (mul_D (with_nan binary32)
                    (to_double (with_nan binary32)
                       (add_T (with_nan binary32) None (max_exp_T (with_nan binary32))))
                    (div_D (with_nan binary32)
                       (to_double (with_nan binary32)
                          (div_T (with_nan binary32) (of_int_T (with_nan binary32) 2)
                             (max_exp_T (with_nan binary32))))
                       (two_D (with_nan binary32))))"
      by code_simp
    have middle: "\<not> less_T (with_nan binary32) (max_exp_T (with_nan binary32)) None \<and>
        \<not> less_T (with_nan binary32) None
             (neg_T (with_nan binary32) (max_exp_T (with_nan binary32)))"
      by code_simp
    from ns_kernel_update [where e = CastOutOfRange and code = 0 and rate = "Some (1 :: real)",
        OF rows sep(1-3) tab dot cast refl, THEN conjunct1, THEN mp, OF middle]
    show ?thesis by simp
  qed
  from table high skip not_a_number show ?thesis by blast
qed

text \<open>
  C9.  With a table of \<open>L = expLength\<close> entries inside its block, whenever a kernel
  reaches the table lookup (\<open>dot\<close> within \<open>[-6, 6]\<close> and the bucket not \<open>\<ge> L\<close>) the
  bucket satisfies \<open>0 \<le> idx < L\<close> and the read succeeds; hence neither HierarchicSoftmax
  nor NegativeSampling ever ends in the out-of-bounds error of the table's block (the
  rows being in other blocks).
\<close>

theorem table_read_in_bounds:
  assumes tab: "valid_row m expTable L"
    and sep: "fst syn0 \<noteq> fst expTable" "fst syn1 \<noteq> fst expTable" "fst neu1e \<noteq> fst expTable"
  shows "(\<forall>dot. - 6 \<le> dot \<and> dot \<le> 6 \<and> \<not> L \<le> bucket dot L \<longrightarrow>
            0 \<le> bucket dot L \<and> bucket dot L < L \<and>
            load m (ptr_add expTable (bucket dot L)) = Inr (rd m expTable (nat (bucket dot L)))) \<and>
         hs_exec m syn0 syn1 expTable neu1e n L code rate \<noteq> Inl (OutOfBounds (fst expTable)) \<and>
         ns_exec m syn0 syn1 expTable neu1e n L code rate \<noteq> Inl (OutOfBounds (fst expTable))"
proof (intro conjI allI impI)
  fix dot :: real
  assume a: "- 6 \<le> dot \<and> dot \<le> 6 \<and> \<not> L \<le> bucket dot L"
  then have b: "0 \<le> bucket dot L" "bucket dot L < L"
    using bucket_in_table(1,2) [of dot L] by auto
  then show "0 \<le> bucket dot L" "bucket dot L < L" by auto
  show "load m (ptr_add expTable (bucket dot L)) = Inr (rd m expTable (nat (bucket dot L)))"
    using tab b by (rule load_table)
next
  show "hs_exec m syn0 syn1 expTable neu1e n L code rate \<noteq> Inl (OutOfBounds (fst expTable))"
  proof
    assume e: "hs_exec m syn0 syn1 expTable neu1e n L code rate = Inl (OutOfBounds (fst expTable))"
    then obtain dot where d: "dot_loop m syn0 syn1 n = Inr dot"
      using sep by (auto simp: hs_exec_def bind_r_eq_Inl dest!: dot_loop_Inl)
    from e have r: "- 6 \<le> dot" "dot \<le> 6" "\<not> L \<le> bucket dot L"
      unfolding hs_exec_def d by (auto simp: HS_MAX_EXP_def Let_def split: if_splits)
    have "load m (ptr_add expTable (bucket dot L)) = Inr (rd m expTable (nat (bucket dot L)))"
      using tab bucket_in_table(1,2) [OF r] by (rule load_table)
    with e r show False
      unfolding hs_exec_def d using sep
      by (auto simp: HS_MAX_EXP_def Let_def dest!: axpys_Inl split: if_splits)
  qed
next
  show "ns_exec m syn0 syn1 expTable neu1e n L code rate \<noteq> Inl (OutOfBounds (fst expTable))"
  proof
    assume e: "ns_exec m syn0 syn1 expTable neu1e n L code rate = Inl (OutOfBounds (fst expTable))"
    then obtain dot where d: "dot_loop m syn0 syn1 n = Inr dot"
      using sep by (auto simp: ns_exec_def bind_r_eq_Inl dest!: dot_loop_Inl)
    show False
    proof (cases "6 < dot \<or> dot < - 6")
      case True
      with e show False
        unfolding ns_exec_def d using sep
        by (auto simp: HS_MAX_EXP_def Let_def dest!: axpys_Inl split: if_splits)
    next
      case False
      with e have r: "- 6 \<le> dot" "dot \<le> 6" "\<not> L \<le> bucket dot L"
        unfolding ns_exec_def d by (auto simp: HS_MAX_EXP_def Let_def split: if_splits)
      have "load m (ptr_add expTable (bucket dot L)) = Inr (rd m expTable (nat (bucket dot L)))"
        using tab bucket_in_table(1,2) [OF r] by (rule load_table)
      with e r False show False
        unfolding ns_exec_def d using sep
        by (auto simp: HS_MAX_EXP_def Let_def dest!: axpys_Inl split: if_splits)
    qed
  qed
qed

theorem table_read_in_bounds_witness:
  "0 \<le> bucket 0 2 \<and> bucket 0 2 < 2 \<and>
   load scenario_mem (ptr_add (ExpTable, 0) (bucket 0 2)) = Inr (1 / 2) \<and>
   hs_exec scenario_mem (Syn0, 0) (Syn1, 0) (ExpTable, 0) (Neu1e, 0) 4 2 1 (1 / 10)
     \<noteq> Inl (OutOfBounds ExpTable) \<and>
   ns_exec scenario_mem (Syn0, 0) (Syn1, 0) (ExpTable, 0) (Neu1e, 0) 4 2 1 (1 / 10)
     \<noteq> Inl (OutOfBounds ExpTable)"
proof -
  have tab: "valid_row scenario_mem (ExpTable, 0) 2"
    by (simp add: valid_row_def scenario_mem_def)
  have b: "bucket 0 2 = 1"
    by (simp add: bucket_def HS_MAX_EXP_def to_int_def)
  have r: "rd scenario_mem (ExpTable, 0) (Suc 0) = 1 / 2"
    by (simp add: rd_def scenario_mem_def)
  from table_read_in_bounds [OF tab, of "(Syn0, 0)" "(Syn1, 0)" "(Neu1e, 0)" 4 1 "1 / 10"]
  have "(- 6 \<le> (0::real) \<and> (0::real) \<le> 6 \<and> \<not> 2 \<le> bucket 0 2 \<longrightarrow>
            0 \<le> bucket 0 2 \<and> bucket 0 2 < 2 \<and>
            load scenario_mem (ptr_add (ExpTable, 0) (bucket 0 2))
              = Inr (rd scenario_mem (ExpTable, 0) (nat (bucket 0 2)))) \<and>
         hs_exec scenario_mem (Syn0, 0) (Syn1, 0) (ExpTable, 0) (Neu1e, 0) 4 2 1 (1 / 10)
           \<noteq> Inl (OutOfBounds ExpTable) \<and>
         ns_exec scenario_mem (Syn0, 0) (Syn1, 0) (ExpTable, 0) (Neu1e, 0) 4 2 1 (1 / 10)
           \<noteq> Inl (OutOfBounds ExpTable)"
    by simp
  then show ?thesis
    by (simp add: b r)
qed

text \<open>
  C10.  NegativeSampling is asymmetric at the saturation boundaries (table of
  \<open>L > 0\<close> entries): at \<open>dot = 6\<close> the middle case computes the bucket \<open>L\<close> and the call
  returns with no update; at \<open>dot = -6\<close> it computes the bucket \<open>0\<close> and applies the full
  update with \<open>g = (code - expTable[0]) * alpha\<close>.
\<close>

theorem ns_boundary_asymmetry:
  assumes rows: "valid_row m syn0 n" "valid_row m target n" "valid_row m neu1e n"
    and sep: "fst syn0 \<noteq> fst target" "fst syn0 \<noteq> fst neu1e" "fst target \<noteq> fst neu1e"
    and tab: "valid_row m expTable L" and L: "0 < L"
    and g: "g = (real_of_int code - rd m expTable 0) * rate"
  shows "(dot_of m syn0 target n = 6 \<longrightarrow>
            bucket (dot_of m syn0 target n) L = L \<and>
            ns_exec m syn0 target expTable neu1e n L code rate = Inr m) \<and>
         (dot_of m syn0 target n = - 6 \<longrightarrow>
            bucket (dot_of m syn0 target n) L = 0 \<and>
            (\<exists>m'. ns_exec m syn0 target expTable neu1e n L code rate = Inr m' \<and>
               (\<forall>i<nat n. rd m' neu1e i = rd m neu1e i + g * rd m target i \<and>
                            rd m' target i = rd m target i + g * rd m syn0 i)))"
proof (intro conjI impI)
  assume d: "dot_of m syn0 target n = 6"
  show "bucket (dot_of m syn0 target n) L = L" by (simp add: d bucket_upper)
  show "ns_exec m syn0 target expTable neu1e n L code rate = Inr m"
    using ns_exec_valid [OF rows sep tab, of code rate] by (simp add: d bucket_upper)
next
  assume d: "dot_of m syn0 target n = - 6"
  show "bucket (dot_of m syn0 target n) L = 0" by (simp add: d bucket_lower)
  have "ns_exec m syn0 target expTable neu1e n L code rate
      = Inr (kernel_update g syn0 target neu1e n m)"
    using ns_exec_valid [OF rows sep tab, of code rate] L by (simp add: d bucket_lower g)
  then show "\<exists>m'. ns_exec m syn0 target expTable neu1e n L code rate = Inr m' \<and>
               (\<forall>i<nat n. rd m' neu1e i = rd m neu1e i + g * rd m target i \<and>
                            rd m' target i = rd m target i + g * rd m syn0 i)"
    using rd_kernel_update [OF rows sep] by auto
qed

theorem ns_boundary_asymmetry_witness:
  "bucket 6 2 = 2 \<and>
   ns_exec upper_boundary_mem (Syn0, 0) (Syn1Neg, 0) (ExpTable, 0) (Neu1e, 0) 1 2 1 1
     = Inr upper_boundary_mem \<and>
   bucket (- 6) 2 = 0 \<and>
   (\<exists>m'. ns_exec lower_boundary_mem (Syn0, 0) (Syn1Neg, 0) (ExpTable, 0) (Neu1e, 0) 1 2 1 1 = Inr m' \<and>
      (\<forall>i<1. rd m' (Neu1e, 0) i
                = rd lower_boundary_mem (Neu1e, 0) i + 3 / 4 * rd lower_boundary_mem (Syn1Neg, 0) i \<and>
              rd m' (Syn1Neg, 0) i
                = rd lower_boundary_mem (Syn1Neg, 0) i + 3 / 4 * rd lower_boundary_mem (Syn0, 0) i))"
proof -
  have up: "valid_row upper_boundary_mem (Syn0, 0) 1" "valid_row upper_boundary_mem (Syn1Neg, 0) 1"
      "valid_row upper_boundary_mem (Neu1e, 0) 1"
    and uptab: "valid_row upper_boundary_mem (ExpTable, 0) 2"
    by (simp_all add: valid_row_def upper_boundary_mem_def)
  have lo: "valid_row lower_boundary_mem (Syn0, 0) 1" "valid_row lower_boundary_mem (Syn1Neg, 0) 1"
      "valid_row lower_boundary_mem (Neu1e, 0) 1"
    and lotab: "valid_row lower_boundary_mem (ExpTable, 0) 2"
    by (simp_all add: valid_row_def lower_boundary_mem_def)
  have dup: "dot_of upper_boundary_mem (Syn0, 0) (Syn1Neg, 0) 1 = 6"
    by (simp add: dot_of_def rd_def upper_boundary_mem_def)
  have dlo: "dot_of lower_boundary_mem (Syn0, 0) (Syn1Neg, 0) 1 = - 6"
    by (simp add: dot_of_def rd_def lower_boundary_mem_def)
  have g: "3 / 4 = (real_of_int 1 - rd lower_boundary_mem (ExpTable, 0) 0) * 1"
    by (simp add: rd_def lower_boundary_mem_def)
  have g': "3 / 4 = (real_of_int 1 - rd upper_boundary_mem (ExpTable, 0) 0) * 1"
    by (simp add: rd_def upper_boundary_mem_def)
  from ns_boundary_asymmetry [OF up _ _ _ uptab _ g'] dup
  have 1: "bucket 6 2 = 2 \<and>
      ns_exec upper_boundary_mem (Syn0, 0) (Syn1Neg, 0) (ExpTable, 0) (Neu1e, 0) 1 2 1 1
        = Inr upper_boundary_mem"
    by simp
  from ns_boundary_asymmetry [OF lo _ _ _ lotab _ g] dlo
  have 2: "bucket (- 6) 2 = 0 \<and>
     (\<exists>m'. ns_exec lower_boundary_mem (Syn0, 0) (Syn1Neg, 0) (ExpTable, 0) (Neu1e, 0) 1 2 1 1 = Inr m' \<and>
      (\<forall>i<1. rd m' (Neu1e, 0) i
                = rd lower_boundary_mem (Neu1e, 0) i + 3 / 4 * rd lower_boundary_mem (Syn1Neg, 0) i \<and>
              rd m' (Syn1Neg, 0) i
                = rd lower_boundary_mem (Syn1Neg, 0) i + 3 / 4 * rd lower_boundary_mem (Syn0, 0) i))"
    by simp
  from 1 2 show ?thesis by simp
qed

section \<open>What a call may change\<close>

lemma for_loop_invariant:
  assumes "for_loop xs body s = Inr s'" "P s"
    and "\<And>x s s'. x \<in> set xs \<Longrightarrow> P s \<Longrightarrow> body x s = Inr s' \<Longrightarrow> P s'"
  shows "P s'"
  using assms
proof (induction xs arbitrary: s)
  case Nil
  then show ?case by simp
next
  case (Cons x xs)
  from Cons.prems(1) obtain s1 where 1: "body x s = Inr s1" and 2: "for_loop xs body s1 = Inr s'"
    by (auto split: sum.splits)
  have "P s1" using Cons.prems(3) [of x s s1] Cons.prems(2) 1 by simp
  then show ?case
    by (rule Cons.IH [OF 2]) (use Cons.prems(3) in auto)
qed

lemma frame_refl [simp]: "frame W m m"
  by (simp add: frame_def)

lemma frame_trans: "frame W m m1 \<Longrightarrow> frame W m1 m2 \<Longrightarrow> frame W m m2"
  by (simp add: frame_def)

lemma frame_mono: "frame V m m' \<Longrightarrow> V \<subseteq> W \<Longrightarrow> frame W m m'"
  by (auto simp: frame_def)

lemma store_frame: "store m p v = Inr m' \<Longrightarrow> frame {fst p} m m'"
  by (auto simp: store_def frame_def split: if_splits)

lemma axpy_loop_frame: "axpy_loop g x y n m = Inr m' \<Longrightarrow> frame {fst y} m m'"
  unfolding axpy_loop_def
proof (erule for_loop_invariant [where P = "frame {fst y} m"])
  show "frame {fst y} m m" by simp
next
  fix i s s'
  assume "frame {fst y} m s"
    and "bind_r (load s (ptr_add x (int i))) (\<lambda>a. bind_r (load s (ptr_add y (int i)))
           (\<lambda>b. store s (ptr_add y (int i)) (g * a + b))) = Inr s'"
  then show "frame {fst y} m s'"
    by (auto simp: bind_r_eq_Inr ptr_add_def dest!: store_frame elim: frame_trans)
qed

lemma add_loop_frame: "add_loop x y n m = Inr m' \<Longrightarrow> frame {fst y} m m'"
  unfolding add_loop_def
proof (erule for_loop_invariant [where P = "frame {fst y} m"])
  show "frame {fst y} m m" by simp
next
  fix i s s'
  assume "frame {fst y} m s"
    and "bind_r (load s (ptr_add y (int i))) (\<lambda>b. bind_r (load s (ptr_add x (int i)))
           (\<lambda>a. store s (ptr_add y (int i)) (b + a))) = Inr s'"
  then show "frame {fst y} m s'"
    by (auto simp: bind_r_eq_Inr ptr_add_def dest!: store_frame elim: frame_trans)
qed

lemma axpys_frame:
  assumes 1: "axpy_loop g syn1 neu1e n m = Inr m1"
    and 2: "axpy_loop g syn0 syn1 n m1 = Inr m'"
  shows "frame {fst syn1, fst neu1e} m m'"
proof -
  have "frame {fst syn1, fst neu1e} m m1" "frame {fst syn1, fst neu1e} m1 m'"
    using axpy_loop_frame [OF 1] axpy_loop_frame [OF 2] by (auto elim: frame_mono)
  then show ?thesis by (rule frame_trans)
qed

lemma hs_exec_frame:
  "hs_exec m syn0 syn1 expTable neu1e n L code rate = Inr m' \<Longrightarrow>
   frame {fst syn1, fst neu1e} m m'"
  unfolding hs_exec_def
  by (auto simp: bind_r_eq_Inr Let_def split: if_splits intro: axpys_frame)

lemma ns_exec_frame:
  "ns_exec m syn0 syn1 expTable neu1e n L code rate = Inr m' \<Longrightarrow>
   frame {fst syn1, fst neu1e} m m'"
  unfolding ns_exec_def
  by (auto simp: bind_r_eq_Inr Let_def split: if_splits intro: axpys_frame)

lemma hs_body_frame: "hs_body a emb r m = Inr m' \<Longrightarrow> frame {Syn1, Neu1e} m m'"
  unfolding hs_body_def
  by (auto simp: bind_r_eq_Inr ptr_add_def dest!: hs_exec_frame)

lemma hs_rounds_frame: "hs_rounds a emb m = Inr m' \<Longrightarrow> frame {Syn1, Neu1e} m m'"
  unfolding hs_rounds_def
  by (auto split: if_splits elim!: for_loop_invariant [where P = "frame {Syn1, Neu1e} m"]
      dest!: hs_body_frame elim: frame_trans)

section \<open>Invocations without rounds or without context\<close>

lemma for_loop_total:
  assumes "P s"
    and "\<And>x s. x \<in> set xs \<Longrightarrow> P s \<Longrightarrow> \<exists>s'. body x s = Inr s' \<and> P s'"
  shows "\<exists>s'. for_loop xs body s = Inr s' \<and> P s'"
  using assms
proof (induction xs arbitrary: s)
  case Nil
  then show ?case by simp
next
  case (Cons x xs)
  from Cons.prems(2) [of x s] Cons.prems(1)
  obtain s1 where 1: "body x s = Inr s1" and 2: "P s1" by auto
  have "\<exists>s'. for_loop xs body s1 = Inr s' \<and> P s'"
    by (rule Cons.IH [OF 2]) (use Cons.prems(2) in auto)
  then show ?case using 1 by simp
qed

lemma load_Inr: "load m p = Inr v \<Longrightarrow>
    0 \<le> snd p \<and> snd p < int (length (m (fst p))) \<and> v = m (fst p) ! nat (snd p)"
  by (auto simp: load_def split: if_splits)

lemma add_zero_step:
  fixes m :: mem
  assumes z: "m Neu1e = replicate k 0" and ne: "fst y \<noteq> Neu1e"
    and st: "bind_r (load m (ptr_add y (int i))) (\<lambda>b. bind_r (load m (ptr_add (Neu1e, 0) (int i)))
           (\<lambda>a. store m (ptr_add y (int i)) (b + a))) = Inr m'"
  shows "m' = m"
proof -
  from st obtain b a where b: "load m (ptr_add y (int i)) = Inr b"
    and a: "load m (ptr_add (Neu1e, 0) (int i)) = Inr a"
    and s: "store m (ptr_add y (int i)) (b + a) = Inr m'"
    by (auto simp: bind_r_eq_Inr)
  have "a = 0" using load_Inr [OF a] z by (simp add: ptr_add_def)
  moreover have "b = m (fst y) ! nat (snd y + int i)"
    using load_Inr [OF b] by (simp add: ptr_add_def)
  ultimately show ?thesis
    using s by (auto simp: store_def ptr_add_def split: if_splits)
qed

lemma add_loop_zero:
  assumes "m Neu1e = replicate k 0" "fst y \<noteq> Neu1e" "add_loop (Neu1e, 0) y n m = Inr m'"
  shows "m' = m"
  using assms(3) unfolding add_loop_def
  by (rule for_loop_invariant [where P = "\<lambda>s. s = m"]) (use assms(1,2) in \<open>auto dest: add_zero_step\<close>)

lemma add_loop_zero_valid:
  assumes z: "m Neu1e = replicate (nat n) 0" and ne: "fst y \<noteq> Neu1e" and v: "valid_row m y n"
  shows "add_loop (Neu1e, 0) y n m = Inr m"
proof -
  have "\<exists>s'. for_loop [0..<nat n]
       (\<lambda>x m. bind_r (load m (ptr_add y (int x))) (\<lambda>b. bind_r (load m (ptr_add (Neu1e, 0) (int x)))
           (\<lambda>a. store m (ptr_add y (int x)) (b + a)))) m = Inr s' \<and> s' = m"
  proof (rule for_loop_total [where P = "\<lambda>s. s = m"])
    show "m = m" ..
  next
    fix x s
    assume x: "x \<in> set [0..<nat n]" and s: "s = m"
    then have i: "x < nat n" by simp
    have vz: "valid_row m (Neu1e, 0) n" using z by (simp add: valid_row_def)
    have r0: "m Neu1e ! x = 0" using z i by simp
    show "\<exists>s'. bind_r (load s (ptr_add y (int x))) (\<lambda>b. bind_r (load s (ptr_add (Neu1e, 0) (int x)))
           (\<lambda>a. store s (ptr_add y (int x)) (b + a))) = Inr s' \<and> s' = m"
      unfolding s
      by (simp add: load_valid [OF v i] load_valid [OF vz i] store_valid [OF v i] r0 rd_def)
  qed
  then show ?thesis by (simp add: add_loop_def)
qed

text \<open>
  C7.  A SkipGram invocation with \<open>hsRounds = 0\<close> and \<open>ngRounds = 0\<close> leaves \<open>syn0\<close>,
  \<open>syn1\<close> and \<open>syn1Neg\<close> unchanged whenever it returns; and it returns, with only the
  scratch block released, when the seed is representable and the centre row lies in
  \<open>syn0\<close>.
\<close>

theorem skipgram_no_rounds:
  assumes "hsRounds a = 0" "ngRounds a = 0"
  shows "(\<forall>m'. skipgram a m = Inr m' \<longrightarrow>
            m' Syn0 = m Syn0 \<and> m' Syn1 = m Syn1 \<and> m' Syn1Neg = m Syn1Neg) \<and>
         (0 \<le> to_int (seed a) \<and> to_int (seed a) < 2 ^ 64 \<and>
          valid_row m (ptr_add (Syn0, 0) (syn0Row a * vectorLength a)) (vectorLength a) \<longrightarrow>
            skipgram a m = Inr (m(Neu1e := [])))"
proof (intro conjI allI impI)
  define m0 where "m0 = m(Neu1e := replicate (nat (vectorLength a)) 0)"
  define row where "row = ptr_add (Syn0, 0) (syn0Row a * vectorLength a)"
  have z: "m0 Neu1e = replicate (nat (vectorLength a)) 0" by (simp add: m0_def)
  have ne: "fst row \<noteq> Neu1e" by (simp add: row_def ptr_add_def)
  have rounds: "skipgram_rounds a m = bind_r (to_u64 (seed a)) (\<lambda>nr. Inr m0)"
    using assms by (simp add: skipgram_rounds_def hs_rounds_def ng_rounds_def Let_def m0_def)
  {
    fix m'
    assume "skipgram a m = Inr m'"
    then obtain m3 where 3: "add_loop (Neu1e, 0) row (vectorLength a) m0 = Inr m3"
      and m': "m' = m3(Neu1e := [])"
      unfolding skipgram_def rounds row_def [symmetric]
      by (auto simp: bind_r_eq_Inr)
    have "m3 = m0" using z ne 3 by (rule add_loop_zero)
    then show "m' Syn0 = m Syn0" "m' Syn1 = m Syn1" "m' Syn1Neg = m Syn1Neg"
      by (simp_all add: m' m0_def)
  }
  assume ok: "0 \<le> to_int (seed a) \<and> to_int (seed a) < 2 ^ 64 \<and>
          valid_row m (ptr_add (Syn0, 0) (syn0Row a * vectorLength a)) (vectorLength a)"
  then have v: "valid_row m0 row (vectorLength a)"
    by (simp add: valid_row_def m0_def row_def ptr_add_def)
  have "add_loop (Neu1e, 0) row (vectorLength a) m0 = Inr m0"
    using z ne v by (rule add_loop_zero_valid)
  then show "skipgram a m = Inr (m(Neu1e := []))"
    unfolding skipgram_def rounds row_def [symmetric]
    using ok by (simp add: to_u64_def m0_def)
qed

theorem skipgram_no_rounds_witness:
  "skipgram no_rounds_args scenario_mem = Inr (scenario_mem(Neu1e := []))"
  using skipgram_no_rounds [of no_rounds_args scenario_mem]
  by (simp add: no_rounds_args_def valid_row_def ptr_add_def scenario_mem_def to_int_def)

text \<open>
  C6.  A CBOW invocation with an empty context window (\<open>idxSyn0Length = 0\<close>): the
  summing loop and the averaging both return without an error and without a change, so
  the averaging divides nothing, and \<open>neu1\<close> is the zero vector after them.
\<close>

theorem cbow_empty_window:
  assumes "idxSyn0Length a = 0"
  shows "\<exists>m0. cbow_sum a (m(Neu1 := replicate (nat (vectorLength a)) 0,
                            Neu1e := replicate (nat (vectorLength a)) 0)) = Inr m0 \<and>
              cbow_average a m0 = Inr m0 \<and>
              cbow_neu1 a m = Inr m0 \<and>
              m0 Neu1 = replicate (nat (vectorLength a)) 0"
  using assms by (simp add: cbow_neu1_def cbow_sum_def cbow_average_def Let_def)

theorem cbow_empty_window_witness:
  "\<exists>m0. cbow_neu1 empty_window_args scenario_mem = Inr m0 \<and> m0 Neu1 = [0, 0, 0, 0]"
proof -
  have "idxSyn0Length empty_window_args = 0"
    by (simp add: empty_window_args_def)
  from cbow_empty_window [OF this, of scenario_mem]
  obtain m0 where "cbow_neu1 empty_window_args scenario_mem = Inr m0"
    and "m0 Neu1 = replicate (nat (vectorLength empty_window_args)) 0"
    by blast
  then show ?thesis
    by (simp add: empty_window_args_def eval_nat_numeral)
qed

section \<open>The final additions\<close>

lemma store_Inr: "store m p v = Inr m' \<Longrightarrow>
    0 \<le> snd p \<and> snd p < int (length (m (fst p))) \<and> m' = m(fst p := (m (fst p))[nat (snd p) := v])"
  by (auto simp: store_def split: if_splits)

lemma add_loop_prefix_Inr:
  assumes ne: "fst x \<noteq> fst y"
  shows "for_loop [0..<k]
       (\<lambda>i m. bind_r (load m (ptr_add y (int i))) (\<lambda>b. bind_r (load m (ptr_add x (int i)))
           (\<lambda>a. store m (ptr_add y (int i)) (b + a)))) m = Inr m' \<Longrightarrow>
     m' = m(fst y := axpy_row 1 (m (fst x)) (snd x) (m (fst y)) (snd y) k) \<and>
     (0 < k \<longrightarrow> 0 \<le> snd y \<and> snd y + int k \<le> int (length (m (fst y))))"
proof (induction k arbitrary: m')
  case 0
  then show ?case by (simp add: axpy_row_0)
next
  case (Suc k)
  define mk where "mk = m(fst y := axpy_row 1 (m (fst x)) (snd x) (m (fst y)) (snd y) k)"
  from Suc.prems obtain m1 where p: "for_loop [0..<k]
       (\<lambda>i m. bind_r (load m (ptr_add y (int i))) (\<lambda>b. bind_r (load m (ptr_add x (int i)))
           (\<lambda>a. store m (ptr_add y (int i)) (b + a)))) m = Inr m1"
    and st: "bind_r (load m1 (ptr_add y (int k))) (\<lambda>b. bind_r (load m1 (ptr_add x (int k)))
           (\<lambda>a. store m1 (ptr_add y (int k)) (b + a))) = Inr m'"
    unfolding for_loop_snoc by (auto simp: bind_r_eq_Inr)
  from Suc.IH [OF p] have m1: "m1 = mk" and oy: "0 < k \<longrightarrow> 0 \<le> snd y"
    unfolding mk_def by blast+
  from st obtain b a where b: "load mk (ptr_add y (int k)) = Inr b"
    and a: "load mk (ptr_add x (int k)) = Inr a"
    and s: "store mk (ptr_add y (int k)) (b + a) = Inr m'"
    unfolding m1 by (auto simp: bind_r_eq_Inr)
  from load_Inr [OF b] have bnd: "0 \<le> snd y + int k" "snd y + int k < int (length (m (fst y)))"
    and bv: "b = axpy_row 1 (m (fst x)) (snd x) (m (fst y)) (snd y) k ! nat (snd y + int k)"
    by (simp_all add: ptr_add_def mk_def)
  from load_Inr [OF a] ne have av: "a = m (fst x) ! nat (snd x + int k)"
    by (simp add: ptr_add_def mk_def)
  have oy': "0 \<le> snd y" using oy bnd(1) by (cases k) auto
  from store_Inr [OF s]
  have "m' = m(fst y := (axpy_row 1 (m (fst x)) (snd x) (m (fst y)) (snd y) k)
                [nat (snd y + int k) := 1 * m (fst x) ! nat (snd x + int k)
                   + axpy_row 1 (m (fst x)) (snd x) (m (fst y)) (snd y) k ! nat (snd y + int k)])"
    by (simp add: ptr_add_def mk_def av bv add.commute)
  then show ?case
    unfolding axpy_row_Suc [OF oy' bnd(2)] using oy' bnd(2) by simp
qed

lemma add_loop_Inr:
  "fst x \<noteq> fst y \<Longrightarrow> add_loop x y n m = Inr m' \<Longrightarrow>
   m' = m(fst y := axpy_row 1 (m (fst x)) (snd x) (m (fst y)) (snd y) (nat n)) \<and>
   (0 < n \<longrightarrow> valid_row m y n)"
  unfolding add_loop_def valid_row_def by (drule (1) add_loop_prefix_Inr) auto

lemma int_at_Inr: "int_at b xs i = Inr w \<Longrightarrow> 0 \<le> i \<and> i < int (length xs) \<and> w = xs ! nat i"
  by (auto simp: int_at_def split: if_splits)

lemma scatter_sum_0 [simp]: "scatter_sum idx n e 0 j = 0"
  by (simp add: scatter_sum_def)

lemma scatter_sum_Suc:
  "scatter_sum idx n e (Suc k) j = scatter_sum idx n e k j +
     (if idx ! k * n \<le> int j \<and> int j < idx ! k * n + n
      then e ! nat (int j - idx ! k * n) else 0)"
  by (simp add: scatter_sum_def)

lemma cbow_propagate_prefix:
  "for_loop [0..<k]
       (\<lambda>c m.
          bind_r (int_at IdxSyn0 (idxSyn0 a) (int c)) (\<lambda>w.
          add_loop (Neu1e, 0) (ptr_add (Syn0, 0) (w * vectorLength a)) (vectorLength a) m))
       m = Inr m' \<Longrightarrow>
   frame {Syn0} m m' \<and>
   (\<forall>j<length (m Syn0). m' Syn0 ! j =
        m Syn0 ! j + scatter_sum (idxSyn0 a) (vectorLength a) (m Neu1e) k j) \<and>
   (0 < vectorLength a \<longrightarrow>
      (\<forall>c<k. valid_row m (Syn0, idxSyn0 a ! c * vectorLength a) (vectorLength a)))"
proof (induction k arbitrary: m')
  case 0
  then show ?case by simp
next
  case (Suc k)
  from Suc.prems obtain mk w where p: "for_loop [0..<k]
       (\<lambda>c m.
          bind_r (int_at IdxSyn0 (idxSyn0 a) (int c)) (\<lambda>w.
          add_loop (Neu1e, 0) (ptr_add (Syn0, 0) (w * vectorLength a)) (vectorLength a) m))
       m = Inr mk"
    and w: "int_at IdxSyn0 (idxSyn0 a) (int k) = Inr w"
    and ad: "add_loop (Neu1e, 0) (ptr_add (Syn0, 0) (w * vectorLength a)) (vectorLength a) mk = Inr m'"
    unfolding for_loop_snoc by (auto simp: bind_r_eq_Inr)
  from Suc.IH [OF p] have fr: "frame {Syn0} m mk"
    and el: "\<And>j. j < length (m Syn0) \<Longrightarrow>
        mk Syn0 ! j = m Syn0 ! j + scatter_sum (idxSyn0 a) (vectorLength a) (m Neu1e) k j"
    and va: "0 < vectorLength a \<longrightarrow>
      (\<forall>c<k. valid_row m (Syn0, idxSyn0 a ! c * vectorLength a) (vectorLength a))"
    by auto
  have wv: "w = idxSyn0 a ! k" using int_at_Inr [OF w] by simp
  have e: "mk Neu1e = m Neu1e" and len: "length (mk Syn0) = length (m Syn0)"
    using fr by (simp_all add: frame_def)
  have ne: "fst (Neu1e, 0 :: int) \<noteq> fst (ptr_add (Syn0, 0) (w * vectorLength a))"
    by (simp add: ptr_add_def)
  have m': "m' = mk(Syn0 := axpy_row 1 (m Neu1e) 0 (mk Syn0) (w * vectorLength a) (nat (vectorLength a)))"
    using add_loop_Inr [OF ne ad] by (simp add: ptr_add_def e)
  have vk: "0 < vectorLength a \<longrightarrow>
      valid_row m (Syn0, idxSyn0 a ! k * vectorLength a) (vectorLength a)"
    using add_loop_Inr [OF ne ad] by (simp add: ptr_add_def valid_row_def len wv)
  have "frame {Syn0} mk m'" using add_loop_frame [OF ad] by (simp add: ptr_add_def)
  with fr have 1: "frame {Syn0} m m'" by (rule frame_trans)
  have 2: "m' Syn0 ! j = m Syn0 ! j + scatter_sum (idxSyn0 a) (vectorLength a) (m Neu1e) (Suc k) j"
    if j: "j < length (m Syn0)" for j
  proof -
    have c: "(w * vectorLength a \<le> int j \<and> int j < w * vectorLength a + int (nat (vectorLength a)))
        \<longleftrightarrow> (w * vectorLength a \<le> int j \<and> int j < w * vectorLength a + vectorLength a)"
      by auto
    show ?thesis
      using j by (auto simp: m' axpy_row_nth len el scatter_sum_Suc wv [symmetric] c)
  qed
  have 3: "0 < vectorLength a \<longrightarrow>
      (\<forall>c<Suc k. valid_row m (Syn0, idxSyn0 a ! c * vectorLength a) (vectorLength a))"
    using va vk by (auto simp: less_Suc_eq)
  from 1 2 3 show ?case by blast
qed

lemma cbow_propagate_Inr:
  "cbow_propagate a m = Inr m' \<Longrightarrow>
   frame {Syn0} m m' \<and>
   (\<forall>j<length (m Syn0). m' Syn0 ! j =
        m Syn0 ! j + scatter_sum (idxSyn0 a) (vectorLength a) (m Neu1e) (nat (idxSyn0Length a)) j) \<and>
   (0 < vectorLength a \<longrightarrow>
      (\<forall>c<nat (idxSyn0Length a).
         valid_row m (Syn0, idxSyn0 a ! c * vectorLength a) (vectorLength a)))"
  unfolding cbow_propagate_def by (rule cbow_propagate_prefix)

section \<open>What the rounds may change\<close>

lemma ng_body_frame:
  "ng_body a emb r (nr, tg, m) = Inr (nr', tg', m') \<Longrightarrow> frame {Syn1Neg, Neu1e} m m'"
  unfolding ng_body_def
  by (auto simp: bind_r_eq_Inr ptr_add_def split: if_splits dest!: ns_exec_frame)

lemma ng_rounds_frame: "ng_rounds a emb nr m = Inr m' \<Longrightarrow> frame {Syn1Neg, Neu1e} m m'"
proof -
  assume r: "ng_rounds a emb nr m = Inr m'"
  show ?thesis
  proof (cases "ngRounds a > 0")
    case True
    with r obtain s where l: "for_loop [0..<nat (ngRounds a + 1)] (ng_body a emb)
        (nr, ngStarter a, m) = Inr s" and s: "m' = snd (snd s)"
      by (auto simp: ng_rounds_def bind_r_eq_Inr)
    have "frame {Syn1Neg, Neu1e} m (snd (snd s))"
      using l
    proof (rule for_loop_invariant [where P = "\<lambda>s. frame {Syn1Neg, Neu1e} m (snd (snd s))"])
      show "frame {Syn1Neg, Neu1e} m (snd (snd (nr, ngStarter a, m)))" by simp
    next
      fix x s s'
      assume "frame {Syn1Neg, Neu1e} m (snd (snd s))" "ng_body a emb x s = Inr s'"
      then show "frame {Syn1Neg, Neu1e} m (snd (snd s'))"
        using ng_body_frame [of a emb x "fst s" "fst (snd s)" "snd (snd s)"
            "fst s'" "fst (snd s')" "snd (snd s')"]
        by (auto elim: frame_trans)
    qed
    then show ?thesis by (simp add: s)
  next
    case False
    with r show ?thesis by (simp add: ng_rounds_def)
  qed
qed

lemma cbow_sum_frame: "cbow_sum a m = Inr m' \<Longrightarrow> frame {Neu1} m m'"
  unfolding cbow_sum_def
  by (erule for_loop_invariant [where P = "frame {Neu1} m"])
     (auto simp: bind_r_eq_Inr dest!: add_loop_frame elim: frame_trans)

lemma cbow_average_frame: "cbow_average a m = Inr m' \<Longrightarrow> frame {Neu1} m m'"
proof (cases "idxSyn0Length a > 0")
  case True
  assume "cbow_average a m = Inr m'"
  with True have "for_loop [0..<nat (vectorLength a)]
          (\<lambda>i m.
             bind_r (load m (ptr_add (Neu1, 0) (int i))) (\<lambda>v.
             bind_r (div_by v (idxSyn0Length a)) (\<lambda>q.
             store m (ptr_add (Neu1, 0) (int i)) q))) m = Inr m'"
    by (simp add: cbow_average_def)
  then show ?thesis
  proof (rule for_loop_invariant [where P = "frame {Neu1} m"])
    show "frame {Neu1} m m" by simp
  next
    fix x s s'
    assume "frame {Neu1} m s"
      and "bind_r (load s (ptr_add (Neu1, 0) (int x))) (\<lambda>v.
             bind_r (div_by v (idxSyn0Length a)) (\<lambda>q.
             store s (ptr_add (Neu1, 0) (int x)) q)) = Inr s'"
    then show "frame {Neu1} m s'"
      by (auto simp: bind_r_eq_Inr ptr_add_def dest!: store_frame elim: frame_trans)
  qed
next
  case False
  assume "cbow_average a m = Inr m'"
  with False show ?thesis by (simp add: cbow_average_def)
qed

lemma frame_same: "frame W m m' \<Longrightarrow> b \<notin> W \<Longrightarrow> m' b = m b"
  by (simp add: frame_def)

lemma cbow_rounds_Syn0:
  assumes "cbow_rounds a m = Inr m2"
  shows "m2 Syn0 = m Syn0"
proof -
  define m0 where "m0 = m(Neu1 := replicate (nat (vectorLength a)) 0,
                 Neu1e := replicate (nat (vectorLength a)) 0)"
  from assms obtain nr ms ma m1 where 1: "cbow_sum a m0 = Inr ms" and 2: "cbow_average a ms = Inr ma"
    and 3: "hs_rounds a (Neu1, 0) ma = Inr m1" and 4: "ng_rounds a (Neu1, 0) nr m1 = Inr m2"
    by (auto simp: cbow_rounds_def cbow_neu1_def bind_r_eq_Inr Let_def m0_def)
  have "ms Syn0 = m0 Syn0" using cbow_sum_frame [OF 1] by (rule frame_same) simp
  moreover have "ma Syn0 = ms Syn0" using cbow_average_frame [OF 2] by (rule frame_same) simp
  moreover have "m1 Syn0 = ma Syn0" using hs_rounds_frame [OF 3] by (rule frame_same) simp
  moreover have "m2 Syn0 = m1 Syn0" using ng_rounds_frame [OF 4] by (rule frame_same) simp
  ultimately show ?thesis by (simp add: m0_def)
qed

section \<open>CBOW: the gradient is propagated to every context row\<close>

lemma row_member:
  fixes w w' n i :: int
  assumes "0 < n" "0 \<le> i" "i < n"
  shows "(w' * n \<le> w * n + i \<and> w * n + i < w' * n + n) \<longleftrightarrow> w' = w"
proof
  assume a: "w' * n \<le> w * n + i \<and> w * n + i < w' * n + n"
  show "w' = w"
  proof (rule ccontr)
    assume "w' \<noteq> w"
    then consider "w' + 1 \<le> w" | "w + 1 \<le> w'" by linarith
    then show False
    proof cases
      case 1
      then have "(w' + 1) * n \<le> w * n" using assms(1) by (intro mult_right_mono) simp_all
      then show False using a assms by (simp add: algebra_simps)
    next
      case 2
      then have "(w + 1) * n \<le> w' * n" using assms(1) by (intro mult_right_mono) simp_all
      then show False using a assms by (simp add: algebra_simps)
    qed
  qed
next
  assume "w' = w"
  then show "w' * n \<le> w * n + i \<and> w * n + i < w' * n + n" using assms by simp
qed

lemma scatter_sum_row:
  assumes "0 < n" "i < nat n" "0 \<le> w"
  shows "scatter_sum idx n e k (nat (w * n + int i)) = real (row_count idx k w) * e ! i"
proof -
  have j: "int (nat (w * n + int i)) = w * n + int i" using assms by simp
  have i: "0 \<le> int i" "int i < n" using assms by simp_all
  show ?thesis
  proof (induction k)
    case 0
    then show ?case by (simp add: row_count_def)
  next
    case (Suc k)
    show ?case
      unfolding scatter_sum_Suc Suc.IH j row_member [OF assms(1) i]
      by (simp add: row_count_def algebra_simps)
  qed
qed

lemma window_run:
  "cbow window_args window_mem =
     Inr (window_mem(Syn0 := [1, - 1, 0, 1, 1, 0], Syn1 := [- 1 / 2, 7 / 4]))"
  by (simp add: cbow_def cbow_rounds_def cbow_neu1_def cbow_sum_def cbow_average_def
      cbow_propagate_def hs_rounds_def hs_body_def ng_rounds_def add_loop_def div_by_def
      int_at_def to_u64_def hs_exec_def dot_loop_def axpy_loop_def load_def store_def
      ptr_add_def bucket_def to_int_def HS_MAX_EXP_def window_args_def window_mem_def
      eval_nat_numeral Let_def)
    (simp add: fun_eq_iff)

section \<open>The negative-sampling loop as a sequence of kernel calls\<close>

lemma load_cong: "m (fst p) = m' (fst p) \<Longrightarrow> load m p = load m' p"
  by (simp add: load_def)

lemma ng_draw_cong:
  assumes "negTableLength a = negTableLength b" "vocabSize a = vocabSize b"
    "m NegTable = m' NegTable"
  shows "ng_draw a m nr = ng_draw b m' nr"
  unfolding ng_draw_def assms(1,2)
  by (simp add: Let_def ptr_add_def load_cong [of m _ m'] assms(3))

lemma ng_draws_cong:
  assumes "negTableLength a = negTableLength b" "vocabSize a = vocabSize b"
    "m NegTable = m' NegTable"
  shows "ng_draws a m k nr = ng_draws b m' k nr"
  by (induction k arbitrary: nr) (simp_all add: ng_draw_cong [where a = a and b = b and m = m and m' = m', OF assms])

lemma ng_draws_length: "ng_draws a m k nr = Inr ts \<Longrightarrow> length ts = k"
  by (induction k arbitrary: nr ts) (auto simp: bind_r_eq_Inr)

lemma ng_body_later:
  "r \<noteq> 0 \<Longrightarrow> ng_body a emb r (nr, tg, m) =
     bind_r (ng_draw a m nr) (\<lambda>(nr', t).
       if t = ngStarter a then Inr (nr', t, m)
       else bind_r (ns_exec m emb (ptr_add (Syn1Neg, 0) (t * vectorLength a)) (ExpTable, 0)
                      (Neu1e, 0) (vectorLength a) (expLength a) 0 (alpha a)) (\<lambda>m'.
            Inr (nr', t, m')))"
  by (simp add: ng_body_def)

lemma ns_exec_NegTable:
  "ns_exec m emb (ptr_add (Syn1Neg, 0) k) (ExpTable, 0) (Neu1e, 0) n L c rate = Inr m' \<Longrightarrow>
   m' NegTable = m NegTable"
  by (drule ns_exec_frame) (simp add: frame_def ptr_add_def)

lemma ng_tail_draws:
  assumes "0 \<notin> set rs" "ng_draws a m (length rs) nr = Inr ts"
  shows "bind_r (for_loop rs (ng_body a emb) (nr, tg, m)) (\<lambda>s. Inr (snd (snd s)))
       = ns_seq a emb (map (\<lambda>t. (t, 0)) (filter (\<lambda>t. t \<noteq> ngStarter a) ts)) m"
  using assms
proof (induction rs arbitrary: nr tg m ts)
  case Nil
  then show ?case by simp
next
  case (Cons r rs)
  from Cons.prems(2) obtain nr1 t ts' where d: "ng_draw a m nr = Inr (nr1, t)"
    and ds: "ng_draws a m (length rs) nr1 = Inr ts'" and ts: "ts = t # ts'"
    by (auto simp: bind_r_eq_Inr)
  have r: "r \<noteq> 0" and rs: "0 \<notin> set rs" using Cons.prems(1) by auto
  show ?case
  proof (cases "t = ngStarter a")
    case True
    then show ?thesis
      using Cons.IH [OF rs ds, of t] by (simp add: ng_body_later [OF r] d ts)
  next
    case False
    show ?thesis
    proof (cases "ns_exec m emb (ptr_add (Syn1Neg, 0) (t * vectorLength a)) (ExpTable, 0)
                      (Neu1e, 0) (vectorLength a) (expLength a) 0 (alpha a)")
      case (Inl e)
      then show ?thesis using False by (simp add: ng_body_later [OF r] d ts)
    next
      case (Inr m1)
      have "ng_draws a m1 (length rs) nr1 = Inr ts'"
        using ds ng_draws_cong [of a a m1 m] ns_exec_NegTable [OF Inr] by simp
      from Cons.IH [OF rs this, of t] show ?thesis
        using False by (simp add: ng_body_later [OF r] d ts Inr)
    qed
  qed
qed

lemma ng_tail_Inr:
  assumes "0 \<notin> set rs" "for_loop rs (ng_body a emb) (nr, tg, m) = Inr s'"
  shows "\<exists>ts. ng_draws a m (length rs) nr = Inr ts"
  using assms
proof (induction rs arbitrary: nr tg m)
  case Nil
  then show ?case by simp
next
  case (Cons r rs)
  have r: "r \<noteq> 0" and rs: "0 \<notin> set rs" using Cons.prems(1) by auto
  from Cons.prems(2) obtain s1 where b: "ng_body a emb r (nr, tg, m) = Inr s1"
    and l: "for_loop rs (ng_body a emb) s1 = Inr s'"
    by (auto split: sum.splits)
  from b obtain nr1 t where d: "ng_draw a m nr = Inr (nr1, t)"
    unfolding ng_body_later [OF r] by (auto simp: bind_r_eq_Inr)
  obtain m1 where s1: "s1 = (nr1, t, m1)" and nt: "m1 NegTable = m NegTable"
    using b unfolding ng_body_later [OF r] d
    by (auto simp: bind_r_eq_Inr split: if_splits dest: ns_exec_NegTable)
  from Cons.IH [OF rs l [unfolded s1]] obtain ts' where "ng_draws a m1 (length rs) nr1 = Inr ts'"
    by blast
  then have "ng_draws a m (length rs) nr1 = Inr ts'"
    using ng_draws_cong [of a a m1 m] nt by simp
  then show ?case by (simp add: d)
qed

lemma ng_range: "0 < k \<Longrightarrow> [0..<nat (k + 1)] = 0 # [1..<nat (k + 1)]"
  by (simp add: upt_conv_Cons)

lemma ng_rounds_draws:
  assumes "0 < ngRounds a" "ng_draws a m (nat (ngRounds a)) nr = Inr ts"
  shows "ng_rounds a emb nr m = ns_seq a emb (ng_calls a ts) m"
proof (cases "ns_exec m emb (ptr_add (Syn1Neg, 0) (ngStarter a * vectorLength a)) (ExpTable, 0)
                      (Neu1e, 0) (vectorLength a) (expLength a) 1 (alpha a)")
  case (Inl e)
  then show ?thesis
    using assms(1) by (simp add: ng_rounds_def ng_range ng_calls_def ng_body_def)
next
  case (Inr m1)
  have l: "length [1..<nat (ngRounds a + 1)] = nat (ngRounds a)" using assms(1) by simp
  have "ng_draws a m1 (length [1..<nat (ngRounds a + 1)]) nr = Inr ts"
    unfolding l using assms(2) ng_draws_cong [of a a m1 m] ns_exec_NegTable [OF Inr] by simp
  from ng_tail_draws [OF _ this, of emb "ngStarter a"] show ?thesis
    using assms(1) by (simp add: ng_rounds_def ng_range ng_calls_def ng_body_def Inr)
qed

lemma ng_rounds_Inr:
  assumes "0 < ngRounds a" "ng_rounds a emb nr m = Inr m'"
  shows "\<exists>ts. ng_draws a m (nat (ngRounds a)) nr = Inr ts \<and> length ts = nat (ngRounds a) \<and>
           ns_seq a emb (ng_calls a ts) m = Inr m'"
proof -
  from assms obtain s where l: "for_loop (0 # [1..<nat (ngRounds a + 1)]) (ng_body a emb)
      (nr, ngStarter a, m) = Inr s"
    by (auto simp: ng_rounds_def ng_range bind_r_eq_Inr)
  then obtain m1 where 1: "ns_exec m emb (ptr_add (Syn1Neg, 0) (ngStarter a * vectorLength a))
      (ExpTable, 0) (Neu1e, 0) (vectorLength a) (expLength a) 1 (alpha a) = Inr m1"
    and 2: "for_loop [1..<nat (ngRounds a + 1)] (ng_body a emb) (nr, ngStarter a, m1) = Inr s"
    by (auto simp: ng_body_def bind_r_eq_Inr split: sum.splits)
  have len: "length [1..<nat (ngRounds a + 1)] = nat (ngRounds a)" using assms(1) by simp
  from ng_tail_Inr [OF _ 2] obtain ts where "ng_draws a m1 (nat (ngRounds a)) nr = Inr ts"
    unfolding len by auto
  then have d: "ng_draws a m (nat (ngRounds a)) nr = Inr ts"
    using ng_draws_cong [of a a m1 m] ns_exec_NegTable [OF 1] by simp
  show ?thesis
    using d ng_draws_length [OF d] ng_rounds_draws [OF assms(1) d, of emb] assms(2) by auto
qed

section \<open>The draws\<close>

lemma fallback_in_range:
  fixes nr :: "64 word" and V :: int
  assumes "2 \<le> V" "V < 2 ^ 31"
  shows "(word_of_int (V - 1) :: 64 word) \<noteq> 0 \<and>
         0 < sint (ucast (nr mod word_of_int (V - 1) + 1) :: 32 word) \<and>
         sint (ucast (nr mod word_of_int (V - 1) + 1) :: 32 word) < V"
proof -
  define d :: "64 word" where "d = word_of_int (V - 1)"
  have "take_bit 64 (V - 1) = V - 1"
    using assms by (intro take_bit_int_eq_self) simp_all
  then have ud: "uint d = V - 1"
    unfolding d_def by (simp only: uint_word_of_int_eq len_num0 len_bit0 len_num1) simp
  have d0: "d \<noteq> 0" using ud assms by auto
  have lt: "0 \<le> uint nr mod (V - 1)" "uint nr mod (V - 1) < V - 1"
    using assms by simp_all
  have um: "uint (nr mod d) = uint nr mod (V - 1)"
    by (simp add: uint_mod ud)
  have b: "uint nr mod (V - 1) < 2147483647"
    using lt(2) assms(2) by simp
  have "uint (nr mod d) + uint (1 :: 64 word) < 2 ^ LENGTH(64)"
    using b unfolding um by simp
  then have "uint (nr mod d + 1) = uint (nr mod d) + uint (1 :: 64 word)"
    by (simp only: uint_add_lem)
  then have u1: "uint (nr mod d + 1) = uint nr mod (V - 1) + 1"
    by (simp add: um)
  have "signed_take_bit 31 (uint nr mod (V - 1) + 1) = uint nr mod (V - 1) + 1"
    using lt(1) b by (intro signed_take_bit_int_eq_self) simp_all
  then have s: "sint (ucast (nr mod d + 1) :: 32 word) = uint nr mod (V - 1) + 1"
    unfolding ucast_eq sint_sbintrunc' u1 by simp
  show ?thesis
    using s lt d0 unfolding d_def by simp
qed

lemma ng_draw_state: "ng_draw a m nr = Inr (nr', t) \<Longrightarrow> nr' = nr * 25214903917 + 11"
  by (auto simp: ng_draw_def Let_def bind_r_eq_Inr split: if_splits)

lemma ng_draw_range:
  assumes "2 \<le> vocabSize a" "vocabSize a < 2 ^ 31" "ng_draw a m nr = Inr (nr', t)"
  shows "0 < t \<and> t < vocabSize a"
proof -
  note f = fallback_in_range [OF assms(1,2), of "nr * 25214903917 + 11"]
  from assms(3) show ?thesis
    unfolding ng_draw_def Let_def
    by (auto simp: bind_r_eq_Inr f simp del: of_int_diff split: if_splits)
qed

lemma ng_draws_range:
  assumes "2 \<le> vocabSize a" "vocabSize a < 2 ^ 31"
  shows "ng_draws a m k nr = Inr ts \<Longrightarrow> \<forall>t\<in>set ts. 0 < t \<and> t < vocabSize a"
proof (induction k arbitrary: nr ts)
  case 0
  then show ?case by simp
next
  case (Suc k)
  from Suc.prems obtain nr1 t ts' where d: "ng_draw a m nr = Inr (nr1, t)"
    and ds: "ng_draws a m k nr1 = Inr ts'" and ts: "ts = t # ts'"
    by (auto simp: bind_r_eq_Inr)
  show ?case
    using ng_draw_range [OF assms d] Suc.IH [OF ds] by (simp add: ts)
qed

lemma fallback_value:
  fixes nr :: "64 word" and V :: int
  assumes "2 \<le> V" "V < 2 ^ 31"
  shows "sint (ucast (nr mod word_of_int (V - 1) + 1) :: 32 word) = uint nr mod (V - 1) + 1"
proof -
  define d :: "64 word" where "d = word_of_int (V - 1)"
  have "take_bit 64 (V - 1) = V - 1"
    using assms by (intro take_bit_int_eq_self) simp_all
  then have ud: "uint d = V - 1"
    unfolding d_def by (simp only: uint_word_of_int_eq len_num0 len_bit0 len_num1) simp
  have lt: "0 \<le> uint nr mod (V - 1)" "uint nr mod (V - 1) < V - 1"
    using assms by simp_all
  have um: "uint (nr mod d) = uint nr mod (V - 1)"
    by (simp add: uint_mod ud)
  have b: "uint nr mod (V - 1) < 2147483647"
    using lt(2) assms(2) by simp
  have "uint (nr mod d) + uint (1 :: 64 word) < 2 ^ LENGTH(64)"
    using b unfolding um by simp
  then have "uint (nr mod d + 1) = uint (nr mod d) + uint (1 :: 64 word)"
    by (simp only: uint_add_lem)
  then have u1: "uint (nr mod d + 1) = uint nr mod (V - 1) + 1"
    by (simp add: um)
  have "signed_take_bit 31 (uint nr mod (V - 1) + 1) = uint nr mod (V - 1) + 1"
    using lt(1) b by (intro signed_take_bit_int_eq_self) simp_all
  then show ?thesis
    unfolding d_def [symmetric] ucast_eq sint_sbintrunc' u1 by simp
qed

lemma table_index:
  fixes nr :: "64 word" and N :: int
  assumes "0 < N" "N < 2 ^ 64"
  shows "(word_of_int N :: 64 word) \<noteq> 0"
    and "uint (drop_bit 16 nr mod word_of_int N) = uint nr div 2 ^ 16 mod N"
proof -
  define len :: "64 word" where "len = word_of_int N"
  have "take_bit 64 N = N"
    using assms by (intro take_bit_int_eq_self) simp_all
  then have ul: "uint len = N"
    unfolding len_def by (simp only: uint_word_of_int_eq len_num0 len_bit0 len_num1) simp
  then show "(word_of_int N :: 64 word) \<noteq> 0"
    using assms(1) unfolding len_def by auto
  have "uint (drop_bit 16 nr) = uint nr div 2 ^ 16"
    by (simp add: drop_bit_eq_div uint_div)
  then show "uint (drop_bit 16 nr mod word_of_int N) = uint nr div 2 ^ 16 mod N"
    unfolding len_def [symmetric] by (simp add: uint_mod ul)
qed

lemma ng_draw_candidate:
  assumes n: "0 < negTableLength a" "negTableLength a < 2 ^ 31"
    and v: "2 \<le> vocabSize a" "vocabSize a < 2 ^ 31"
    and d: "ng_draw a m x = Inr (x', t)"
  shows "uint (lcg x) div 2 ^ 16 mod negTableLength a < int (length (m NegTable))"
    and "t = (if to_int (m NegTable ! nat (uint (lcg x) div 2 ^ 16 mod negTableLength a)) \<le> 0 \<or>
               vocabSize a \<le> to_int (m NegTable ! nat (uint (lcg x) div 2 ^ 16 mod negTableLength a))
             then uint (lcg x) mod (vocabSize a - 1) + 1
             else to_int (m NegTable ! nat (uint (lcg x) div 2 ^ 16 mod negTableLength a)))"
proof -
  define i where "i = uint (lcg x) div 2 ^ 16 mod negTableLength a"
  have n64: "negTableLength a < 2 ^ 64" using n(2) by simp
  note ti = table_index [OF n(1) n64]
  note fb = fallback_value [OF v, where nr = "lcg x"]
  have f0: "(word_of_int (vocabSize a - 1) :: 64 word) \<noteq> 0"
    using fallback_in_range [OF v, of "lcg x"] by blast
  have e: "ng_draw a m x =
      bind_r (load m (NegTable, i)) (\<lambda>w.
        if to_int w \<le> 0 \<or> vocabSize a \<le> to_int w
        then Inr (lcg x, uint (lcg x) mod (vocabSize a - 1) + 1)
        else Inr (lcg x, to_int w))"
    unfolding ng_draw_def Let_def lcg_def [symmetric]
    by (simp only: ti f0 fb if_False ptr_add_def fst_conv snd_conv add_0 i_def)
  from d have "\<exists>w. load m (NegTable, i) = Inr w \<and>
      t = (if to_int w \<le> 0 \<or> vocabSize a \<le> to_int w
           then uint (lcg x) mod (vocabSize a - 1) + 1 else to_int w)"
    unfolding e by (cases "load m (NegTable, i)") (auto split: if_splits)
  then obtain w where l: "load m (NegTable, i) = Inr w"
    and t: "t = (if to_int w \<le> 0 \<or> vocabSize a \<le> to_int w
                 then uint (lcg x) mod (vocabSize a - 1) + 1 else to_int w)"
    by blast
  from load_Inr [OF l] have b: "i < int (length (m NegTable))" and w: "w = m NegTable ! nat i"
    by simp_all
  show "uint (lcg x) div 2 ^ 16 mod negTableLength a < int (length (m NegTable))"
    using b unfolding i_def .
  show "t = (if to_int (m NegTable ! nat (uint (lcg x) div 2 ^ 16 mod negTableLength a)) \<le> 0 \<or>
               vocabSize a \<le> to_int (m NegTable ! nat (uint (lcg x) div 2 ^ 16 mod negTableLength a))
             then uint (lcg x) mod (vocabSize a - 1) + 1
             else to_int (m NegTable ! nat (uint (lcg x) div 2 ^ 16 mod negTableLength a)))"
    using t unfolding w i_def .
qed

section \<open>The orchestrators as sequences of kernel calls\<close>

lemma ng_draws_nth:
  "ng_draws a m k nr = Inr ts \<Longrightarrow> j < k \<Longrightarrow>
   ng_draw a m ((lcg ^^ j) nr) = Inr ((lcg ^^ Suc j) nr, ts ! j)"
proof (induction k arbitrary: nr ts j)
  case 0
  then show ?case by simp
next
  case (Suc k)
  from Suc.prems(1) obtain nr1 t ts' where d: "ng_draw a m nr = Inr (nr1, t)"
    and ds: "ng_draws a m k nr1 = Inr ts'" and ts: "ts = t # ts'"
    by (auto simp: bind_r_eq_Inr)
  have nr1: "nr1 = lcg nr" using ng_draw_state [OF d] by (simp add: lcg_def)
  show ?case
  proof (cases j)
    case 0
    then show ?thesis using d nr1 by (simp add: ts)
  next
    case (Suc i)
    then have "i < k" using Suc.prems(2) by simp
    from Suc.IH [OF ds this] show ?thesis
      by (simp add: Suc ts nr1 funpow_swap1)
  qed
qed

lemma negative_rounds_count:
  "negative_rounds a ts + count_list ts (ngStarter a) = length ts"
  by (induction ts) (simp_all add: negative_rounds_def)

lemma ns_seq_frame: "ns_seq a emb cs m = Inr m' \<Longrightarrow> frame {Syn1Neg, Neu1e} m m'"
proof (induction cs arbitrary: m)
  case Nil
  then show ?case by simp
next
  case (Cons c cs)
  obtain t k where c: "c = (t, k)" by (cases c)
  from Cons.prems obtain m1 where 1: "ns_exec m emb (ptr_add (Syn1Neg, 0) (t * vectorLength a))
      (ExpTable, 0) (Neu1e, 0) (vectorLength a) (expLength a) k (alpha a) = Inr m1"
    and 2: "ns_seq a emb cs m1 = Inr m'"
    by (auto simp: c bind_r_eq_Inr)
  have "frame {Syn1Neg, Neu1e} m m1" using ns_exec_frame [OF 1] by (simp add: ptr_add_def)
  then show ?case using Cons.IH [OF 2] by (rule frame_trans)
qed

lemma skipgram_rounds_Syn0: "skipgram_rounds a m = Inr m2 \<Longrightarrow> m2 Syn0 = m Syn0"
proof -
  assume "skipgram_rounds a m = Inr m2"
  then obtain nr m1 where 1: "hs_rounds a (ptr_add (Syn0, 0) (syn0Row a * vectorLength a))
        (m(Neu1e := replicate (nat (vectorLength a)) 0)) = Inr m1"
    and 2: "ng_rounds a (ptr_add (Syn0, 0) (syn0Row a * vectorLength a)) nr m1 = Inr m2"
    by (auto simp: skipgram_rounds_def Let_def bind_r_eq_Inr)
  have "m1 Syn0 = (m(Neu1e := replicate (nat (vectorLength a)) 0)) Syn0"
    using hs_rounds_frame [OF 1] by (rule frame_same) simp
  moreover have "m2 Syn0 = m1 Syn0" using ng_rounds_frame [OF 2] by (rule frame_same) simp
  ultimately show ?thesis by simp
qed

lemma skipgram_rounds_Inr:
  assumes "0 < ngRounds a" "skipgram_rounds a m = Inr m2"
  shows "\<exists>nr ts m1. to_u64 (seed a) = Inr nr \<and>
      hs_rounds a (ptr_add (Syn0, 0) (syn0Row a * vectorLength a))
        (m(Neu1e := replicate (nat (vectorLength a)) 0)) = Inr m1 \<and>
      ng_draws a m (nat (ngRounds a)) nr = Inr ts \<and> length ts = nat (ngRounds a) \<and>
      ns_seq a (ptr_add (Syn0, 0) (syn0Row a * vectorLength a)) (ng_calls a ts) m1 = Inr m2"
proof -
  from assms(2) obtain nr m1 where 0: "to_u64 (seed a) = Inr nr"
    and 1: "hs_rounds a (ptr_add (Syn0, 0) (syn0Row a * vectorLength a))
        (m(Neu1e := replicate (nat (vectorLength a)) 0)) = Inr m1"
    and 2: "ng_rounds a (ptr_add (Syn0, 0) (syn0Row a * vectorLength a)) nr m1 = Inr m2"
    by (auto simp: skipgram_rounds_def Let_def bind_r_eq_Inr)
  have nt: "m1 NegTable = m NegTable"
    using frame_same [OF hs_rounds_frame [OF 1], of NegTable] by simp
  from ng_rounds_Inr [OF assms(1) 2] obtain ts where "ng_draws a m1 (nat (ngRounds a)) nr = Inr ts"
    and l: "length ts = nat (ngRounds a)"
    and s: "ns_seq a (ptr_add (Syn0, 0) (syn0Row a * vectorLength a)) (ng_calls a ts) m1 = Inr m2"
    by blast
  then have "ng_draws a m (nat (ngRounds a)) nr = Inr ts"
    using ng_draws_cong [of a a m1 m] nt by simp
  with 0 1 l s show ?thesis by blast
qed

lemma cbow_neu1_NegTable: "cbow_neu1 a m = Inr m0 \<Longrightarrow> m0 NegTable = m NegTable"
proof -
  assume "cbow_neu1 a m = Inr m0"
  then obtain ms where 1: "cbow_sum a (m(Neu1 := replicate (nat (vectorLength a)) 0,
                 Neu1e := replicate (nat (vectorLength a)) 0)) = Inr ms"
    and 2: "cbow_average a ms = Inr m0"
    by (auto simp: cbow_neu1_def Let_def bind_r_eq_Inr)
  show ?thesis
    using frame_same [OF cbow_sum_frame [OF 1], of NegTable]
      frame_same [OF cbow_average_frame [OF 2], of NegTable] by simp
qed

lemma cbow_rounds_Inr:
  assumes "0 < ngRounds a" "cbow_rounds a m = Inr m2"
  shows "\<exists>nr ts m0 m1. to_u64 (seed a) = Inr nr \<and> cbow_neu1 a m = Inr m0 \<and>
      hs_rounds a (Neu1, 0) m0 = Inr m1 \<and>
      ng_draws a m (nat (ngRounds a)) nr = Inr ts \<and> length ts = nat (ngRounds a) \<and>
      ns_seq a (Neu1, 0) (ng_calls a ts) m1 = Inr m2"
proof -
  from assms(2) obtain nr m0 m1 where 0: "to_u64 (seed a) = Inr nr"
    and n: "cbow_neu1 a m = Inr m0"
    and 1: "hs_rounds a (Neu1, 0) m0 = Inr m1"
    and 2: "ng_rounds a (Neu1, 0) nr m1 = Inr m2"
    by (auto simp: cbow_rounds_def bind_r_eq_Inr)
  have nt: "m1 NegTable = m NegTable"
    using frame_same [OF hs_rounds_frame [OF 1], of NegTable] cbow_neu1_NegTable [OF n] by simp
  from ng_rounds_Inr [OF assms(1) 2] obtain ts where "ng_draws a m1 (nat (ngRounds a)) nr = Inr ts"
    and l: "length ts = nat (ngRounds a)"
    and s: "ns_seq a (Neu1, 0) (ng_calls a ts) m1 = Inr m2"
    by blast
  then have "ng_draws a m (nat (ngRounds a)) nr = Inr ts"
    using ng_draws_cong [of a a m1 m] nt by simp
  with 0 n 1 l s show ?thesis by blast
qed

lemma skipgram_final:
  assumes "skipgram a m = Inr m'"
  shows "\<exists>m2. skipgram_rounds a m = Inr m2 \<and> m2 Syn0 = m Syn0 \<and>
      length (m' Syn0) = length (m Syn0) \<and>
      (\<forall>i<nat (vectorLength a).
         rd m' (ptr_add (Syn0, 0) (syn0Row a * vectorLength a)) i =
         rd m (ptr_add (Syn0, 0) (syn0Row a * vectorLength a)) i + m2 Neu1e ! i) \<and>
      (\<forall>j<length (m Syn0).
         \<not> (syn0Row a * vectorLength a \<le> int j \<and>
            int j < syn0Row a * vectorLength a + vectorLength a) \<longrightarrow>
         m' Syn0 ! j = m Syn0 ! j)"
proof -
  define row where "row = ptr_add (Syn0, 0) (syn0Row a * vectorLength a)"
  from assms obtain m2 m3 where r: "skipgram_rounds a m = Inr m2"
    and ad: "add_loop (Neu1e, 0) row (vectorLength a) m2 = Inr m3"
    and m': "m' = m3(Neu1e := [])"
    by (auto simp: skipgram_def bind_r_eq_Inr row_def)
  have s: "m2 Syn0 = m Syn0" using r by (rule skipgram_rounds_Syn0)
  have ne: "fst (Neu1e, 0 :: int) \<noteq> fst row" by (simp add: row_def ptr_add_def)
  from add_loop_Inr [OF ne ad]
  have m3: "m3 Syn0 = axpy_row 1 (m2 Neu1e) 0 (m Syn0) (snd row) (nat (vectorLength a))"
    and v: "0 < vectorLength a \<longrightarrow> valid_row m2 row (vectorLength a)"
    by (simp_all add: row_def ptr_add_def s)
  have 1: "rd m' row i = rd m row i + m2 Neu1e ! i" if i: "i < nat (vectorLength a)" for i
  proof -
    have "valid_row m2 row (vectorLength a)" using v i by simp
    from rd_axpy_row [OF this i, of 1 "m2 Neu1e" 0]
    show ?thesis
      by (simp add: rd_def m' m3 row_def ptr_add_def s)
  qed
  have 2: "m' Syn0 ! j = m Syn0 ! j"
    if "j < length (m Syn0)" "\<not> (syn0Row a * vectorLength a \<le> int j \<and>
            int j < syn0Row a * vectorLength a + vectorLength a)" for j
    using that by (auto simp: m' m3 axpy_row_nth row_def ptr_add_def)
  show ?thesis
    using r s 1 2 by (auto simp: row_def m' m3)
qed

section \<open>Well-formed invocations return\<close>

lemma same_lengths_refl [simp]: "same_lengths m m"
  by (simp add: same_lengths_def)

lemma same_lengths_trans: "same_lengths m m1 \<Longrightarrow> same_lengths m1 m2 \<Longrightarrow> same_lengths m m2"
  by (simp add: same_lengths_def)

lemma frame_same_lengths: "frame W m m' \<Longrightarrow> same_lengths m m'"
  by (simp add: frame_def same_lengths_def)

lemma valid_row_same_lengths: "same_lengths m m' \<Longrightarrow> valid_row m' p n = valid_row m p n"
  by (simp add: valid_row_def same_lengths_def)

lemma rounds_wf_same_lengths: "same_lengths m m' \<Longrightarrow> rounds_wf a emb m' = rounds_wf a emb m"
  by (simp add: rounds_wf_def valid_row_same_lengths) (simp add: same_lengths_def)

lemma hs_exec_total:
  assumes "valid_row m syn0 n" "valid_row m syn1 n" "valid_row m neu1e n"
    and "fst syn0 \<noteq> fst syn1" "fst syn0 \<noteq> fst neu1e" "fst syn1 \<noteq> fst neu1e"
    and "valid_row m expTable L"
  shows "\<exists>m'. hs_exec m syn0 syn1 expTable neu1e n L code rate = Inr m'"
  unfolding hs_exec_valid [OF assms] by (simp add: Let_def)

lemma ns_exec_total:
  assumes "valid_row m syn0 n" "valid_row m syn1 n" "valid_row m neu1e n"
    and "fst syn0 \<noteq> fst syn1" "fst syn0 \<noteq> fst neu1e" "fst syn1 \<noteq> fst neu1e"
    and "valid_row m expTable L"
  shows "\<exists>m'. ns_exec m syn0 syn1 expTable neu1e n L code rate = Inr m'"
  unfolding ns_exec_valid [OF assms] by (simp add: Let_def)

lemma hs_rounds_total:
  assumes wf: "rounds_wf a emb m"
  shows "\<exists>m'. hs_rounds a emb m = Inr m' \<and> same_lengths m m'"
proof (cases "0 < hsRounds a")
  case True
  have "\<exists>s'. for_loop [0..<nat (hsRounds a)] (hs_body a emb) m = Inr s' \<and> same_lengths m s'"
  proof (rule for_loop_total [where P = "same_lengths m"])
    show "same_lengths m m" by simp
  next
    fix r s
    assume r: "r \<in> set [0..<nat (hsRounds a)]" and s: "same_lengths m s"
    then have r': "r < nat (hsRounds a)" by simp
    have wfs: "rounds_wf a emb s" using wf s by (simp add: rounds_wf_same_lengths)
    then have i: "int_at IdxSyn1 (idxSyn1 a) (int r) = Inr (idxSyn1 a ! r)"
      "int_at Codes (codes a) (int r) = Inr (codes a ! r)"
      using r' by (simp_all add: rounds_wf_def int_at_def)
    have "\<exists>m'. hs_exec s emb (ptr_add (Syn1, 0) (idxSyn1 a ! r * vectorLength a)) (ExpTable, 0)
        (Neu1e, 0) (vectorLength a) (expLength a) (codes a ! r) (alpha a) = Inr m'"
      using wfs r' by (intro hs_exec_total) (auto simp: rounds_wf_def valid_row_def ptr_add_def)
    then obtain m' where h: "hs_body a emb r s = Inr m'"
      by (auto simp: hs_body_def i)
    then have "same_lengths s m'"
      using hs_body_frame by (blast intro: frame_same_lengths)
    with s h show "\<exists>s'. hs_body a emb r s = Inr s' \<and> same_lengths m s'"
      by (blast intro: same_lengths_trans)
  qed
  then show ?thesis using True by (simp add: hs_rounds_def)
next
  case False
  then show ?thesis by (simp add: hs_rounds_def)
qed

lemma ng_draw_total:
  assumes "2 \<le> vocabSize a" "vocabSize a < 2 ^ 31"
    and "0 < negTableLength a" "negTableLength a < 2 ^ 64"
    and "negTableLength a \<le> int (length (m NegTable))"
  shows "\<exists>nr' t. ng_draw a m nr = Inr (nr', t) \<and> 0 < t \<and> t < vocabSize a"
proof -
  define len :: "64 word" where "len = word_of_int (negTableLength a)"
  have "take_bit 64 (negTableLength a) = negTableLength a"
    using assms(3,4) by (intro take_bit_int_eq_self) simp_all
  then have ul: "uint len = negTableLength a"
    unfolding len_def by (simp only: uint_word_of_int_eq len_num0 len_bit0 len_num1) simp
  have l0: "len \<noteq> 0" using ul assms(3) by auto
  define i where "i = uint (drop_bit 16 (nr * 25214903917 + 11) mod len)"
  have "i = uint (drop_bit 16 (nr * 25214903917 + 11)) mod negTableLength a"
    by (simp add: i_def uint_mod ul)
  then have ib: "0 \<le> i" "i < int (length (m NegTable))"
    using assms(3,5) by (simp_all add: pos_mod_bound [THEN less_le_trans])
  then obtain v where v: "load m (ptr_add (NegTable, 0) i) = Inr v"
    by (simp add: load_def ptr_add_def)
  note f = fallback_in_range [OF assms(1,2), of "nr * 25214903917 + 11"]
  have "\<exists>t. ng_draw a m nr = Inr (nr * 25214903917 + 11, t)"
    unfolding ng_draw_def Let_def len_def [symmetric] i_def [symmetric]
    using l0 v f by (simp del: of_int_diff)
  then show ?thesis
    using ng_draw_range [OF assms(1,2)] by blast
qed

lemma target_row_valid:
  assumes "0 < n" "0 \<le> t" "t < V" "V * n \<le> int (length (m Syn1Neg))"
  shows "valid_row m (ptr_add (Syn1Neg, 0) (t * n)) n"
proof -
  have "(t + 1) * n \<le> V * n" using assms(1,3) by (intro mult_right_mono) simp_all
  then have "t * n + n \<le> int (length (m Syn1Neg))" using assms(4) by (simp add: algebra_simps)
  moreover have "0 \<le> t * n" using assms(1,2) by simp
  ultimately show ?thesis by (simp add: valid_row_def ptr_add_def)
qed

lemma ns_call_total:
  assumes wf: "rounds_wf a emb m" and ng: "0 < ngRounds a" and t: "0 \<le> t" "t < vocabSize a"
  shows "\<exists>m'. ns_exec m emb (ptr_add (Syn1Neg, 0) (t * vectorLength a)) (ExpTable, 0) (Neu1e, 0)
           (vectorLength a) (expLength a) c (alpha a) = Inr m' \<and> same_lengths m m'"
proof -
  have v: "valid_row m (ptr_add (Syn1Neg, 0) (t * vectorLength a)) (vectorLength a)"
    using wf ng t by (intro target_row_valid [where V = "vocabSize a"]) (simp_all add: rounds_wf_def)
  have "\<exists>m'. ns_exec m emb (ptr_add (Syn1Neg, 0) (t * vectorLength a)) (ExpTable, 0) (Neu1e, 0)
           (vectorLength a) (expLength a) c (alpha a) = Inr m'"
    using wf v by (intro ns_exec_total) (auto simp: rounds_wf_def valid_row_def ptr_add_def)
  then show ?thesis
    using ns_exec_frame by (blast intro: frame_same_lengths)
qed

lemma ng_rounds_total:
  assumes wf: "rounds_wf a emb m"
  shows "\<exists>m'. ng_rounds a emb nr m = Inr m' \<and> same_lengths m m'"
proof (cases "0 < ngRounds a")
  case True
  define P where "P = (\<lambda>s :: 64 word \<times> int \<times> mem.
      same_lengths m (snd (snd s)) \<and> 0 \<le> fst (snd s) \<and> fst (snd s) < vocabSize a)"
  have "\<exists>s'. for_loop [0..<nat (ngRounds a + 1)] (ng_body a emb) (nr, ngStarter a, m) = Inr s' \<and> P s'"
  proof (rule for_loop_total [where P = P])
    show "P (nr, ngStarter a, m)" using wf True by (simp add: P_def rounds_wf_def)
  next
    fix r and s :: "64 word \<times> int \<times> mem"
    assume Ps: "P s"
    obtain x tg ms where s: "s = (x, tg, ms)" by (cases s)
    from Ps have sl: "same_lengths m ms" and tg: "0 \<le> tg" "tg < vocabSize a"
      by (simp_all add: P_def s)
    have wfs: "rounds_wf a emb ms" using wf sl by (simp add: rounds_wf_same_lengths)
    show "\<exists>s'. ng_body a emb r s = Inr s' \<and> P s'"
    proof (cases "r = 0")
      case r0: True
      from ns_call_total [OF wfs True tg, of 1] obtain m' where
        "ns_exec ms emb (ptr_add (Syn1Neg, 0) (tg * vectorLength a)) (ExpTable, 0) (Neu1e, 0)
           (vectorLength a) (expLength a) 1 (alpha a) = Inr m'" "same_lengths ms m'"
        by blast
      then show ?thesis
        using sl tg by (auto simp: ng_body_def s r0 P_def intro: same_lengths_trans)
    next
      case False
      have "\<exists>nr' t. ng_draw a ms x = Inr (nr', t) \<and> 0 < t \<and> t < vocabSize a"
        using wfs True by (intro ng_draw_total) (simp_all add: rounds_wf_def)
      then obtain nr' t where d: "ng_draw a ms x = Inr (nr', t)" and t: "0 < t" "t < vocabSize a"
        by blast
      show ?thesis
      proof (cases "t = ngStarter a")
        case True
        then show ?thesis
          using sl t by (simp add: s ng_body_later [OF False] d P_def)
      next
        case ne: False
        from t have t0: "0 \<le> t" by simp
        from ns_call_total [OF wfs True t0 t(2), of 0] obtain m' where
          "ns_exec ms emb (ptr_add (Syn1Neg, 0) (t * vectorLength a)) (ExpTable, 0) (Neu1e, 0)
             (vectorLength a) (expLength a) 0 (alpha a) = Inr m'" "same_lengths ms m'"
          by blast
        then show ?thesis
          using sl t ne by (auto simp: s ng_body_later [OF False] d P_def intro: same_lengths_trans)
      qed
    qed
  qed
  then show ?thesis using True by (auto simp: ng_rounds_def P_def)
next
  case False
  then show ?thesis by (simp add: ng_rounds_def)
qed

lemma add_loop_total:
  assumes vx: "valid_row m x n" and vy: "valid_row m y n"
  shows "\<exists>m'. add_loop x y n m = Inr m' \<and> same_lengths m m'"
  unfolding add_loop_def
proof (rule for_loop_total [where P = "same_lengths m"])
  show "same_lengths m m" by simp
next
  fix i s
  assume i: "i \<in> set [0..<nat n]" and s: "same_lengths m s"
  then have i': "i < nat n" by simp
  have vx': "valid_row s x n" and vy': "valid_row s y n"
    using vx vy s by (simp_all add: valid_row_same_lengths)
  have "same_lengths s (s(fst y := (s (fst y))[nat (snd y + int i) := rd s y i + rd s x i]))"
    by (simp add: same_lengths_def)
  with s show "\<exists>s'. bind_r (load s (ptr_add y (int i))) (\<lambda>b. bind_r (load s (ptr_add x (int i)))
           (\<lambda>a. store s (ptr_add y (int i)) (b + a))) = Inr s' \<and> same_lengths m s'"
    by (simp add: load_valid [OF vx' i'] load_valid [OF vy' i'] store_valid [OF vy' i'])
       (blast intro: same_lengths_trans)
qed

lemma skipgram_returns:
  assumes "skipgram_wf a m"
  shows "\<exists>m'. skipgram a m = Inr m'"
proof -
  define m0 where "m0 = m(Neu1e := replicate (nat (vectorLength a)) 0)"
  define row where "row = ptr_add (Syn0, 0) (syn0Row a * vectorLength a)"
  from assms have sd: "0 \<le> to_int (seed a)" "to_int (seed a) < 2 ^ 64"
    and wf: "rounds_wf a row m0"
    by (simp_all add: skipgram_wf_def m0_def row_def)
  from hs_rounds_total [OF wf] obtain m1 where 1: "hs_rounds a row m0 = Inr m1"
    and l1: "same_lengths m0 m1" by blast
  have wf1: "rounds_wf a row m1" using wf l1 by (simp add: rounds_wf_same_lengths)
  from ng_rounds_total [OF wf1] obtain m2 where
    2: "ng_rounds a row (word_of_int (to_int (seed a))) m1 = Inr m2"
    and l2: "same_lengths m1 m2" by blast
  have wf2: "rounds_wf a row m2" using wf1 l2 by (simp add: rounds_wf_same_lengths)
  have "valid_row m2 (Neu1e, 0) (vectorLength a)" "valid_row m2 row (vectorLength a)"
    using wf2 by (simp_all add: rounds_wf_def valid_row_def)
  from add_loop_total [OF this] obtain m3 where
    3: "add_loop (Neu1e, 0) row (vectorLength a) m2 = Inr m3" by blast
  show ?thesis
    unfolding skipgram_def skipgram_rounds_def Let_def m0_def [symmetric] row_def [symmetric]
    using sd by (simp add: to_u64_def 1 2 3)
qed

lemma cbow_sum_total:
  assumes ctx: "\<forall>c<nat (idxSyn0Length a). c < length (idxSyn0 a) \<and>
        valid_row m (Syn0, idxSyn0 a ! c * vectorLength a) (vectorLength a)"
    and v: "valid_row m (Neu1, 0) (vectorLength a)"
  shows "\<exists>m'. cbow_sum a m = Inr m' \<and> same_lengths m m'"
  unfolding cbow_sum_def
proof (rule for_loop_total [where P = "same_lengths m"])
  show "same_lengths m m" by simp
next
  fix c s
  assume "c \<in> set [0..<nat (idxSyn0Length a)]" and s: "same_lengths m s"
  then have c: "c < nat (idxSyn0Length a)" by simp
  with ctx have i: "int_at IdxSyn0 (idxSyn0 a) (int c) = Inr (idxSyn0 a ! c)"
    and r: "valid_row s (ptr_add (Syn0, 0) (idxSyn0 a ! c * vectorLength a)) (vectorLength a)"
    using s by (simp_all add: int_at_def valid_row_same_lengths ptr_add_def)
  have "valid_row s (Neu1, 0) (vectorLength a)" using v s by (simp add: valid_row_same_lengths)
  from add_loop_total [OF r this] s
  show "\<exists>s'. bind_r (int_at IdxSyn0 (idxSyn0 a) (int c)) (\<lambda>w.
          add_loop (ptr_add (Syn0, 0) (w * vectorLength a)) (Neu1, 0) (vectorLength a) s) = Inr s'
        \<and> same_lengths m s'"
    by (auto simp: i intro: same_lengths_trans)
qed

lemma cbow_propagate_total:
  assumes ctx: "\<forall>c<nat (idxSyn0Length a). c < length (idxSyn0 a) \<and>
        valid_row m (Syn0, idxSyn0 a ! c * vectorLength a) (vectorLength a)"
    and v: "valid_row m (Neu1e, 0) (vectorLength a)"
  shows "\<exists>m'. cbow_propagate a m = Inr m' \<and> same_lengths m m'"
  unfolding cbow_propagate_def
proof (rule for_loop_total [where P = "same_lengths m"])
  show "same_lengths m m" by simp
next
  fix c s
  assume "c \<in> set [0..<nat (idxSyn0Length a)]" and s: "same_lengths m s"
  then have c: "c < nat (idxSyn0Length a)" by simp
  with ctx have i: "int_at IdxSyn0 (idxSyn0 a) (int c) = Inr (idxSyn0 a ! c)"
    and r: "valid_row s (ptr_add (Syn0, 0) (idxSyn0 a ! c * vectorLength a)) (vectorLength a)"
    using s by (simp_all add: int_at_def valid_row_same_lengths ptr_add_def)
  have "valid_row s (Neu1e, 0) (vectorLength a)" using v s by (simp add: valid_row_same_lengths)
  from add_loop_total [OF this r] s
  show "\<exists>s'. bind_r (int_at IdxSyn0 (idxSyn0 a) (int c)) (\<lambda>w.
          add_loop (Neu1e, 0) (ptr_add (Syn0, 0) (w * vectorLength a)) (vectorLength a) s) = Inr s'
        \<and> same_lengths m s'"
    by (auto simp: i intro: same_lengths_trans)
qed

lemma cbow_average_total:
  assumes v: "valid_row m (Neu1, 0) (vectorLength a)"
  shows "\<exists>m'. cbow_average a m = Inr m' \<and> same_lengths m m'"
proof (cases "0 < idxSyn0Length a")
  case True
  have "\<exists>s'. for_loop [0..<nat (vectorLength a)]
          (\<lambda>i m.
             bind_r (load m (ptr_add (Neu1, 0) (int i))) (\<lambda>v.
             bind_r (div_by v (idxSyn0Length a)) (\<lambda>q.
             store m (ptr_add (Neu1, 0) (int i)) q))) m = Inr s' \<and> same_lengths m s'"
  proof (rule for_loop_total [where P = "same_lengths m"])
    show "same_lengths m m" by simp
  next
    fix i s
    assume "i \<in> set [0..<nat (vectorLength a)]" and s: "same_lengths m s"
    then have i: "i < nat (vectorLength a)" by simp
    have v': "valid_row s (Neu1, 0) (vectorLength a)" using v s by (simp add: valid_row_same_lengths)
    have "same_lengths s (s(Neu1 := (s Neu1)[i := rd s (Neu1, 0) i / real_of_int (idxSyn0Length a)]))"
      by (simp add: same_lengths_def)
    with s show "\<exists>s'. bind_r (load s (ptr_add (Neu1, 0) (int i))) (\<lambda>v.
             bind_r (div_by v (idxSyn0Length a)) (\<lambda>q.
             store s (ptr_add (Neu1, 0) (int i)) q)) = Inr s' \<and> same_lengths m s'"
      using True
      by (simp add: load_valid [OF v' i] store_valid [OF v' i] div_by_def)
         (blast intro: same_lengths_trans)
  qed
  then show ?thesis using True by (simp add: cbow_average_def)
next
  case False
  then show ?thesis by (simp add: cbow_average_def)
qed

lemma cbow_returns:
  assumes "cbow_wf a m"
  shows "\<exists>m'. cbow a m = Inr m'"
proof -
  define m0 where "m0 = m(Neu1 := replicate (nat (vectorLength a)) 0,
          Neu1e := replicate (nat (vectorLength a)) 0)"
  from assms have sd: "0 \<le> to_int (seed a)" "to_int (seed a) < 2 ^ 64"
    and ctx: "\<forall>c<nat (idxSyn0Length a). c < length (idxSyn0 a) \<and>
        valid_row m (Syn0, idxSyn0 a ! c * vectorLength a) (vectorLength a)"
    and wf: "rounds_wf a (Neu1, 0) m0"
    by (simp_all add: cbow_wf_def m0_def)
  have ctx0: "\<forall>c<nat (idxSyn0Length a). c < length (idxSyn0 a) \<and>
        valid_row m0 (Syn0, idxSyn0 a ! c * vectorLength a) (vectorLength a)"
    using ctx by (simp add: valid_row_def m0_def)
  have v0: "valid_row m0 (Neu1, 0) (vectorLength a)" using wf by (simp add: rounds_wf_def)
  from cbow_sum_total [OF ctx0 v0] obtain ms where s: "cbow_sum a m0 = Inr ms"
    and ls: "same_lengths m0 ms" by blast
  have "valid_row ms (Neu1, 0) (vectorLength a)" using v0 ls by (simp add: valid_row_same_lengths)
  from cbow_average_total [OF this] obtain ma where av: "cbow_average a ms = Inr ma"
    and la: "same_lengths ms ma" by blast
  have l0a: "same_lengths m0 ma" using ls la by (rule same_lengths_trans)
  have wfa: "rounds_wf a (Neu1, 0) ma" using wf l0a by (simp add: rounds_wf_same_lengths)
  from hs_rounds_total [OF wfa] obtain m1 where 1: "hs_rounds a (Neu1, 0) ma = Inr m1"
    and l1: "same_lengths ma m1" by blast
  have wf1: "rounds_wf a (Neu1, 0) m1" using wfa l1 by (simp add: rounds_wf_same_lengths)
  from ng_rounds_total [OF wf1] obtain m2 where
    2: "ng_rounds a (Neu1, 0) (word_of_int (to_int (seed a))) m1 = Inr m2"
    and l2: "same_lengths m1 m2" by blast
  have l02: "same_lengths m0 m2"
    using l0a l1 l2 by (blast intro: same_lengths_trans)
  have ctx2: "\<forall>c<nat (idxSyn0Length a). c < length (idxSyn0 a) \<and>
        valid_row m2 (Syn0, idxSyn0 a ! c * vectorLength a) (vectorLength a)"
    using ctx0 l02 by (simp add: valid_row_same_lengths)
  have "valid_row m2 (Neu1e, 0) (vectorLength a)"
    using wf l02 by (simp add: rounds_wf_def valid_row_def same_lengths_def)
  from cbow_propagate_total [OF ctx2 this] obtain m3 where 3: "cbow_propagate a m2 = Inr m3"
    by blast
  have n: "cbow_neu1 a m = Inr ma"
    by (simp add: cbow_neu1_def Let_def m0_def [symmetric] s av)
  show ?thesis
    unfolding cbow_def cbow_rounds_def
    using sd by (simp add: to_u64_def n 1 2 3)
qed

lemma skipgram_rounds_returns: "skipgram_wf a m \<Longrightarrow> \<exists>m2. skipgram_rounds a m = Inr m2"
  by (drule skipgram_returns) (auto simp: skipgram_def bind_r_eq_Inr)

lemma cbow_rounds_returns: "cbow_wf a m \<Longrightarrow> \<exists>m2. cbow_rounds a m = Inr m2"
  by (drule cbow_returns) (auto simp: cbow_def bind_r_eq_Inr)

section \<open>Two concrete runs\<close>

lemma w1: "drop_bit 16 (11 :: 64 word) = 0"
  by (simp add: drop_bit_eq_div)

lemma w2: "(11 * 25214903917 + 11 :: 64 word) = 277363943098"
  by simp

lemma w3: "drop_bit 16 (277363943098 :: 64 word) = 4232237"
  by (simp add: drop_bit_eq_div)

lemma w4: "(4232237 :: 64 word) mod 2 = 1"
  by simp

lemma upt_1: "[0..<1] = [0]"
  by simp

lemma upt_2: "[0..<2] = [0, 1]"
  by (simp add: upt_rec)

lemma upt_3: "[0..<3] = [0, 1, 2]"
  by (simp add: upt_rec)

lemma collide_draw: "ng_draw collide_args collide_mem 0 = Inr (11, 1)"
  by (simp add: ng_draw_def collide_args_def collide_mem_def load_def ptr_add_def to_int_def
      w1 Let_def)

lemma sample_draw_1: "ng_draw sample_args sample_mem 0 = Inr (11, 1)"
  by (simp add: ng_draw_def sample_args_def sample_mem_def load_def ptr_add_def to_int_def
      w1 Let_def)

lemma sample_draw_2: "ng_draw sample_args sample_mem 11 = Inr (277363943098, 2)"
  by (simp add: ng_draw_def sample_args_def sample_mem_def load_def ptr_add_def to_int_def
      w3 w4 Let_def)

lemma collide_draws: "ng_draws collide_args collide_mem 1 0 = Inr [1]"
  using ng_draws.simps [of collide_args collide_mem] by (simp add: collide_draw)

lemma sample_draws: "ng_draws sample_args sample_mem 2 0 = Inr [1, 2]"
  using ng_draws.simps [of sample_args sample_mem]
  by (simp add: sample_draw_1 sample_draw_2 numeral_2_eq_2)

lemma w5: "(11 :: 64 word) mod 2 = 1"
  by simp

lemma w6: "(277363943098 :: 64 word) mod 2 = 0"
  by simp

lemma fallback_draw_1: "ng_draw sample_args fallback_mem 0 = Inr (11, 2)"
  by (simp add: ng_draw_def sample_args_def sample_mem_def fallback_mem_def load_def ptr_add_def
      to_int_def w1 w5 Let_def)

lemma fallback_draw_2: "ng_draw sample_args fallback_mem 11 = Inr (277363943098, 1)"
  by (simp add: ng_draw_def sample_args_def sample_mem_def fallback_mem_def load_def ptr_add_def
      to_int_def w3 w4 w6 Let_def)

lemma fallback_draws: "ng_draws sample_args fallback_mem 2 0 = Inr [2, 1]"
  using ng_draws.simps [of sample_args fallback_mem]
  by (simp add: fallback_draw_1 fallback_draw_2 numeral_2_eq_2)

lemmas run_defs = skipgram_def skipgram_rounds_def hs_rounds_def ng_rounds_def ng_body_def
  ng_draw_def add_loop_def ns_exec_def dot_loop_def axpy_loop_def load_def store_def
  ptr_add_def bucket_def to_int_def to_u64_def HS_MAX_EXP_def Let_def upt_1 upt_2 upt_3
  w1 w3 w4

lemma collide_run:
  "skipgram collide_args collide_mem =
     Inr (collide_mem(Syn0 := [3 / 2], Syn1Neg := [1, 3 / 2], Neu1e := []))"
  by (simp add: run_defs collide_args_def collide_mem_def) (simp add: fun_eq_iff)

lemma sample_run:
  "skipgram sample_args sample_mem =
     Inr (sample_mem(Syn0 := [1 / 2], Syn1Neg := [1, 3 / 2, 3 / 2], Neu1e := []))"
  by (simp add: run_defs sample_args_def sample_mem_def) (simp add: fun_eq_iff)

section \<open>More concrete runs\<close>

lemmas cbow_run_defs = cbow_rounds_def cbow_neu1_def cbow_sum_def cbow_average_def div_by_def
  int_at_def

lemma collide_rounds:
  "skipgram_rounds collide_args collide_mem =
     Inr (collide_mem(Neu1e := [1 / 2], Syn1Neg := [1, 3 / 2]))"
  by (simp add: run_defs collide_args_def collide_mem_def)

lemma collide_positive_only:
  "ns_seq collide_args (Syn0, 0) [(1, 1)] (collide_mem(Neu1e := [0])) =
     Inr (collide_mem(Neu1e := [1 / 2], Syn1Neg := [1, 3 / 2]))"
  by (simp add: run_defs collide_args_def collide_mem_def)

lemma collide_as_claimed:
  "ns_seq collide_args (Syn0, 0) [(1, 1), (1, 0)] (collide_mem(Neu1e := [0])) =
     Inr (collide_mem(Neu1e := [- 1 / 4], Syn1Neg := [1, 1]))"
  by (simp add: run_defs collide_args_def collide_mem_def)

lemma sample_rounds:
  "skipgram_rounds sample_args sample_mem =
     Inr (sample_mem(Neu1e := [- 1 / 2], Syn1Neg := [1, 3 / 2, 3 / 2]))"
  by (simp add: run_defs sample_args_def sample_mem_def)

lemma sample_rounds_2:
  "skipgram_rounds sample_args_2 sample_mem_2 =
     Inr (sample_mem_2(Neu1e := [- 1 / 4], Syn1Neg := [0, 1 / 4, 5 / 4]))"
  by (simp add: run_defs sample_args_2_def sample_mem_2_def)

lemma cbow_sample_rounds:
  "cbow_rounds cbow_sample_args sample_mem =
     Inr (sample_mem(Neu1 := [1], Neu1e := [- 1 / 2], Syn1Neg := [1, 3 / 2, 3 / 2]))"
  by (simp add: run_defs cbow_run_defs cbow_sample_args_def sample_mem_def)

lemma cbow_sample_rounds_2:
  "\<exists>r. cbow_rounds cbow_sample_args_2 sample_mem_2 = Inr r"
  by (simp add: run_defs cbow_run_defs cbow_sample_args_2_def sample_mem_2_def)

section \<open>The concrete inputs are well-formed\<close>

lemmas wf_defs = skipgram_wf_def cbow_wf_def rounds_wf_def valid_row_def ptr_add_def to_int_def
  numeral_2_eq_2 less_Suc_eq

lemma window_wf: "cbow_wf window_args window_mem"
  by (auto simp: wf_defs window_args_def window_mem_def)

lemma sample_wf: "skipgram_wf sample_args sample_mem"
  by (auto simp: wf_defs sample_args_def sample_mem_def)

lemma sample_wf_2: "skipgram_wf sample_args_2 sample_mem_2"
  by (auto simp: wf_defs sample_args_2_def sample_mem_2_def)

lemma cbow_sample_wf: "cbow_wf cbow_sample_args sample_mem"
  by (auto simp: wf_defs cbow_sample_args_def sample_mem_def)

lemma cbow_sample_wf_2: "cbow_wf cbow_sample_args_2 sample_mem_2"
  by (auto simp: wf_defs cbow_sample_args_2_def sample_mem_2_def)

section \<open>CBOW: the gradient is propagated to every context row\<close>

text \<open>
  C4.  A well-formed CBOW invocation returns; and when a CBOW invocation returns, \<open>syn0\<close>
  was not touched by the rounds, and after them the accumulator \<open>neu1e\<close> (its value
  \<open>m2 Neu1e\<close> at the end of the rounds) has been added element-wise into every row listed
  in \<open>idxSyn0\<close>: each element of \<open>syn0\<close> has grown by the matching element of \<open>neu1e\<close>
  once for each of the \<open>idxSyn0Length\<close> context positions whose row holds it; so each
  listed row has grown by \<open>neu1e\<close> times the number of positions that list it.
\<close>

theorem cbow_scatter:
  "(cbow_wf a m \<longrightarrow> (\<exists>m'. cbow a m = Inr m')) \<and>
   (\<forall>m'. cbow a m = Inr m' \<longrightarrow>
      (\<exists>m2. cbow_rounds a m = Inr m2 \<and> m2 Syn0 = m Syn0 \<and>
              length (m' Syn0) = length (m Syn0) \<and>
              (\<forall>j<length (m Syn0). m' Syn0 ! j =
                 m Syn0 ! j + scatter_sum (idxSyn0 a) (vectorLength a) (m2 Neu1e)
                                (nat (idxSyn0Length a)) j) \<and>
              (\<forall>c<nat (idxSyn0Length a). \<forall>i<nat (vectorLength a).
                 rd m' (Syn0, idxSyn0 a ! c * vectorLength a) i =
                 rd m (Syn0, idxSyn0 a ! c * vectorLength a) i +
                   real (row_count (idxSyn0 a) (nat (idxSyn0Length a)) (idxSyn0 a ! c)) * m2 Neu1e ! i)))"
proof (intro conjI allI impI)
  assume "cbow_wf a m"
  then show "\<exists>m'. cbow a m = Inr m'"
    by (rule cbow_returns)
next
  fix m'
  assume run: "cbow a m = Inr m'"
  from run obtain m2 m3 where r: "cbow_rounds a m = Inr m2"
    and p: "cbow_propagate a m2 = Inr m3" and m': "m' = m3(Neu1 := [], Neu1e := [])"
    by (auto simp: cbow_def bind_r_eq_Inr)
  have s: "m2 Syn0 = m Syn0" using r by (rule cbow_rounds_Syn0)
  from cbow_propagate_Inr [OF p] s have len: "length (m3 Syn0) = length (m Syn0)"
    and el: "\<And>j. j < length (m Syn0) \<Longrightarrow> m3 Syn0 ! j =
        m Syn0 ! j + scatter_sum (idxSyn0 a) (vectorLength a) (m2 Neu1e) (nat (idxSyn0Length a)) j"
    and va: "\<And>c. 0 < vectorLength a \<Longrightarrow> c < nat (idxSyn0Length a) \<Longrightarrow>
         valid_row m (Syn0, idxSyn0 a ! c * vectorLength a) (vectorLength a)"
    by (auto simp: frame_def valid_row_def)
  have row: "rd m' (Syn0, idxSyn0 a ! c * vectorLength a) i =
              rd m (Syn0, idxSyn0 a ! c * vectorLength a) i +
                real (row_count (idxSyn0 a) (nat (idxSyn0Length a)) (idxSyn0 a ! c)) * m2 Neu1e ! i"
    if c: "c < nat (idxSyn0Length a)" and i: "i < nat (vectorLength a)" for c i
  proof -
    have n: "0 < vectorLength a" using i by simp
    from va [OF n c] have v: "0 \<le> idxSyn0 a ! c * vectorLength a"
      "idxSyn0 a ! c * vectorLength a + vectorLength a \<le> int (length (m Syn0))"
      by (simp_all add: valid_row_def)
    have w: "0 \<le> idxSyn0 a ! c"
      using v(1) n by (simp add: zero_le_mult_iff)
    have j: "nat (idxSyn0 a ! c * vectorLength a + int i) < length (m Syn0)"
      using v i by linarith
    show ?thesis
      using el [OF j] scatter_sum_row [OF n i w, of "idxSyn0 a" "m2 Neu1e" "nat (idxSyn0Length a)"]
      by (simp add: rd_def m')
  qed
  show "\<exists>m2. cbow_rounds a m = Inr m2 \<and> m2 Syn0 = m Syn0 \<and>
               length (m' Syn0) = length (m Syn0) \<and>
               (\<forall>j<length (m Syn0). m' Syn0 ! j =
                  m Syn0 ! j + scatter_sum (idxSyn0 a) (vectorLength a) (m2 Neu1e)
                                 (nat (idxSyn0Length a)) j) \<and>
               (\<forall>c<nat (idxSyn0Length a). \<forall>i<nat (vectorLength a).
                  rd m' (Syn0, idxSyn0 a ! c * vectorLength a) i =
                  rd m (Syn0, idxSyn0 a ! c * vectorLength a) i +
                    real (row_count (idxSyn0 a) (nat (idxSyn0Length a)) (idxSyn0 a ! c)) * m2 Neu1e ! i)"
    using r s len el row by (simp add: m')
qed

theorem cbow_scatter_witness:
  "(\<exists>m'. cbow window_args window_mem = Inr m') \<and>
   (\<exists>m2. cbow_rounds window_args window_mem = Inr m2 \<and> m2 Neu1e = [0, - 1] \<and>
     (\<forall>c<2. \<forall>i<2.
        rd (window_mem(Syn0 := [1, - 1, 0, 1, 1, 0], Syn1 := [- 1 / 2, 7 / 4]))
             (Syn0, [0, 2] ! c * 2) i =
        rd window_mem (Syn0, [0, 2] ! c * 2) i + real (row_count [0, 2] 2 ([0, 2] ! c)) * m2 Neu1e ! i))"
proof -
  note t = cbow_scatter [of window_args window_mem]
  from t window_wf have 1: "\<exists>m'. cbow window_args window_mem = Inr m'"
    by blast
  from t window_run obtain m2 where r: "cbow_rounds window_args window_mem = Inr m2"
    and row: "\<forall>c<nat (idxSyn0Length window_args). \<forall>i<nat (vectorLength window_args).
              rd (window_mem(Syn0 := [1, - 1, 0, 1, 1, 0], Syn1 := [- 1 / 2, 7 / 4]))
                 (Syn0, idxSyn0 window_args ! c * vectorLength window_args) i =
              rd window_mem (Syn0, idxSyn0 window_args ! c * vectorLength window_args) i +
                real (row_count (idxSyn0 window_args) (nat (idxSyn0Length window_args))
                  (idxSyn0 window_args ! c)) * m2 Neu1e ! i"
    by blast
  have "cbow_rounds window_args window_mem =
      Inr (window_mem(Neu1 := [1, 1 / 2], Neu1e := [0, - 1], Syn1 := [- 1 / 2, 7 / 4]))"
    by (simp add: cbow_rounds_def cbow_neu1_def cbow_sum_def cbow_average_def
      hs_rounds_def hs_body_def ng_rounds_def add_loop_def div_by_def
      int_at_def to_u64_def hs_exec_def dot_loop_def axpy_loop_def load_def store_def
      ptr_add_def bucket_def to_int_def HS_MAX_EXP_def window_args_def window_mem_def
      eval_nat_numeral Let_def)
  with r have "m2 Neu1e = [0, - 1]" by auto
  with r row have "\<exists>m2. cbow_rounds window_args window_mem = Inr m2 \<and> m2 Neu1e = [0, - 1] \<and>
     (\<forall>c<2. \<forall>i<2.
        rd (window_mem(Syn0 := [1, - 1, 0, 1, 1, 0], Syn1 := [- 1 / 2, 7 / 4]))
             (Syn0, [0, 2] ! c * 2) i =
        rd window_mem (Syn0, [0, 2] ! c * 2) i + real (row_count [0, 2] 2 ([0, 2] ! c)) * m2 Neu1e ! i)"
    by (auto simp: window_args_def)
  with 1 show ?thesis by blast
qed

section \<open>SkipGram: the rounds and the final update\<close>

text \<open>
  C3, as stated, fails: in the run below the only later iteration draws the candidate
  \<open>1 = ngStarter\<close>; the rounds are the positive call alone, and differ from the positive
  call followed by a call with \<open>code = 0\<close> on the drawn candidate.
\<close>

theorem skipgram_every_iteration_counterexample:
  "ngStarter collide_args = 1 \<and>
   ng_draws collide_args collide_mem 1 0 = Inr [1] \<and>
   skipgram_rounds collide_args collide_mem =
     ns_seq collide_args (Syn0, 0) [(1, 1)] (collide_mem(Neu1e := [0])) \<and>
   skipgram_rounds collide_args collide_mem \<noteq>
     ns_seq collide_args (Syn0, 0) [(1, 1), (1, 0)] (collide_mem(Neu1e := [0]))"
proof -
  have 1: "ngStarter collide_args = 1"
    by (simp add: collide_args_def)
  have "(collide_mem(Neu1e := [1 / 2], Syn1Neg := [1, 3 / 2])) Neu1e
      \<noteq> (collide_mem(Neu1e := [- 1 / 4], Syn1Neg := [1, 1])) Neu1e"
    by simp
  then have "collide_mem(Neu1e := [1 / 2], Syn1Neg := [1, 3 / 2])
      \<noteq> collide_mem(Neu1e := [- 1 / 4], Syn1Neg := [1, 1])"
    by metis
  then have 2: "skipgram_rounds collide_args collide_mem \<noteq>
     ns_seq collide_args (Syn0, 0) [(1, 1), (1, 0)] (collide_mem(Neu1e := [0]))"
    unfolding collide_rounds collide_as_claimed by simp
  have 3: "skipgram_rounds collide_args collide_mem =
     ns_seq collide_args (Syn0, 0) [(1, 1)] (collide_mem(Neu1e := [0]))"
    unfolding collide_rounds collide_positive_only ..
  from 1 collide_draws 3 2 show ?thesis by blast
qed

text \<open>
  C3, amended.  A well-formed SkipGram invocation returns; and when a SkipGram invocation
  with \<open>ngRounds > 0\<close> returns: after the hierarchical-softmax rounds the
  negative-sampling loop is the kernel invoked on \<open>ngStarter\<close> with \<open>code = 1\<close>, then,
  for each of the \<open>ngRounds\<close> later iterations in turn, on its drawn candidate with
  \<open>code = 0\<close> unless that candidate equals \<open>ngStarter\<close>.  The \<open>j\<close>-th later iteration
  draws from the random state advanced \<open>j\<close> times by \<open>x * 25214903917 + 11\<close> and advances
  it once more, to \<open>x\<close> say; with \<open>0 < negTableLength\<close> and \<open>2 \<le> vocabSize\<close> (both of
  them \<open>int\<close>) its candidate is the entry \<open>(x >> 16) % negTableLength\<close> of \<open>negTable\<close>,
  an index inside the table, converted to \<open>int\<close>, unless that is \<open>\<le> 0\<close> or
  \<open>\<ge> vocabSize\<close>: then it is \<open>x % (vocabSize - 1) + 1\<close>; either way it lies in
  \<open>(0, vocabSize)\<close>.  Finally the centre row of \<open>syn0\<close>, untouched by the rounds, has
  grown by \<open>neu1e\<close> as it stands after the rounds, once, the rest of \<open>syn0\<close> being as
  before.
\<close>

theorem skipgram_schedule:
  assumes "0 < ngRounds a"
  shows "(skipgram_wf a m \<longrightarrow> (\<exists>m'. skipgram a m = Inr m')) \<and>
   (\<forall>m'. skipgram a m = Inr m' \<longrightarrow>
      (\<exists>nr ts m1 m2.
         to_u64 (seed a) = Inr nr \<and>
         hs_rounds a (ptr_add (Syn0, 0) (syn0Row a * vectorLength a))
           (m(Neu1e := replicate (nat (vectorLength a)) 0)) = Inr m1 \<and>
         ng_draws a m (nat (ngRounds a)) nr = Inr ts \<and> length ts = nat (ngRounds a) \<and>
         (\<forall>j<nat (ngRounds a).
            ng_draw a m ((lcg ^^ j) nr) = Inr ((lcg ^^ Suc j) nr, ts ! j)) \<and>
         (0 < negTableLength a \<and> negTableLength a < 2 ^ 31 \<and>
          2 \<le> vocabSize a \<and> vocabSize a < 2 ^ 31 \<longrightarrow>
            (\<forall>j<nat (ngRounds a).
               uint ((lcg ^^ Suc j) nr) div 2 ^ 16 mod negTableLength a
                 < int (length (m NegTable)) \<and>
               ts ! j =
                 (if to_int (m NegTable !
                       nat (uint ((lcg ^^ Suc j) nr) div 2 ^ 16 mod negTableLength a)) \<le> 0 \<or>
                     vocabSize a \<le> to_int (m NegTable !
                       nat (uint ((lcg ^^ Suc j) nr) div 2 ^ 16 mod negTableLength a))
                  then uint ((lcg ^^ Suc j) nr) mod (vocabSize a - 1) + 1
                  else to_int (m NegTable !
                       nat (uint ((lcg ^^ Suc j) nr) div 2 ^ 16 mod negTableLength a))))) \<and>
         (2 \<le> vocabSize a \<and> vocabSize a < 2 ^ 31 \<longrightarrow> (\<forall>t\<in>set ts. 0 < t \<and> t < vocabSize a)) \<and>
         ns_seq a (ptr_add (Syn0, 0) (syn0Row a * vectorLength a))
           ((ngStarter a, 1) # map (\<lambda>t. (t, 0)) (filter (\<lambda>t. t \<noteq> ngStarter a) ts)) m1 = Inr m2 \<and>
         skipgram_rounds a m = Inr m2 \<and> m2 Syn0 = m Syn0 \<and>
         length (m' Syn0) = length (m Syn0) \<and>
         (\<forall>i<nat (vectorLength a).
            rd m' (ptr_add (Syn0, 0) (syn0Row a * vectorLength a)) i =
            rd m (ptr_add (Syn0, 0) (syn0Row a * vectorLength a)) i + m2 Neu1e ! i) \<and>
         (\<forall>j<length (m Syn0).
            \<not> (syn0Row a * vectorLength a \<le> int j \<and>
               int j < syn0Row a * vectorLength a + vectorLength a) \<longrightarrow>
            m' Syn0 ! j = m Syn0 ! j)))"
proof (intro conjI allI impI)
  assume "skipgram_wf a m"
  then show "\<exists>m'. skipgram a m = Inr m'"
    by (rule skipgram_returns)
next
  fix m'
  assume run: "skipgram a m = Inr m'"
  from skipgram_final [OF run] obtain m2 where r: "skipgram_rounds a m = Inr m2"
    and f: "m2 Syn0 = m Syn0" "length (m' Syn0) = length (m Syn0)"
      "\<forall>i<nat (vectorLength a).
         rd m' (ptr_add (Syn0, 0) (syn0Row a * vectorLength a)) i =
         rd m (ptr_add (Syn0, 0) (syn0Row a * vectorLength a)) i + m2 Neu1e ! i"
      "\<forall>j<length (m Syn0).
         \<not> (syn0Row a * vectorLength a \<le> int j \<and>
            int j < syn0Row a * vectorLength a + vectorLength a) \<longrightarrow>
         m' Syn0 ! j = m Syn0 ! j"
    by blast
  from skipgram_rounds_Inr [OF assms r] obtain nr ts m1 where
    s: "to_u64 (seed a) = Inr nr"
      "hs_rounds a (ptr_add (Syn0, 0) (syn0Row a * vectorLength a))
        (m(Neu1e := replicate (nat (vectorLength a)) 0)) = Inr m1"
      "ng_draws a m (nat (ngRounds a)) nr = Inr ts" "length ts = nat (ngRounds a)"
      "ns_seq a (ptr_add (Syn0, 0) (syn0Row a * vectorLength a)) (ng_calls a ts) m1 = Inr m2"
    by blast
  have n: "\<forall>j<nat (ngRounds a). ng_draw a m ((lcg ^^ j) nr) = Inr ((lcg ^^ Suc j) nr, ts ! j)"
    using ng_draws_nth [OF s(3)] by blast
  have c: "0 < negTableLength a \<and> negTableLength a < 2 ^ 31 \<and>
      2 \<le> vocabSize a \<and> vocabSize a < 2 ^ 31 \<longrightarrow>
        (\<forall>j<nat (ngRounds a).
           uint ((lcg ^^ Suc j) nr) div 2 ^ 16 mod negTableLength a
             < int (length (m NegTable)) \<and>
           ts ! j =
             (if to_int (m NegTable !
                   nat (uint ((lcg ^^ Suc j) nr) div 2 ^ 16 mod negTableLength a)) \<le> 0 \<or>
                 vocabSize a \<le> to_int (m NegTable !
                   nat (uint ((lcg ^^ Suc j) nr) div 2 ^ 16 mod negTableLength a))
              then uint ((lcg ^^ Suc j) nr) mod (vocabSize a - 1) + 1
              else to_int (m NegTable !
                   nat (uint ((lcg ^^ Suc j) nr) div 2 ^ 16 mod negTableLength a))))"
  proof (intro impI allI)
    fix j
    assume w: "0 < negTableLength a \<and> negTableLength a < 2 ^ 31 \<and>
      2 \<le> vocabSize a \<and> vocabSize a < 2 ^ 31" and j: "j < nat (ngRounds a)"
    have d: "ng_draw a m ((lcg ^^ j) nr) = Inr ((lcg ^^ Suc j) nr, ts ! j)"
      using n j by blast
    have l: "lcg ((lcg ^^ j) nr) = (lcg ^^ Suc j) nr"
      by simp
    from w have w': "0 < negTableLength a" "negTableLength a < 2 ^ 31"
        "2 \<le> vocabSize a" "vocabSize a < 2 ^ 31"
      by blast+
    from ng_draw_candidate [OF w' d, unfolded l]
    show "uint ((lcg ^^ Suc j) nr) div 2 ^ 16 mod negTableLength a
             < int (length (m NegTable)) \<and>
           ts ! j =
             (if to_int (m NegTable !
                   nat (uint ((lcg ^^ Suc j) nr) div 2 ^ 16 mod negTableLength a)) \<le> 0 \<or>
                 vocabSize a \<le> to_int (m NegTable !
                   nat (uint ((lcg ^^ Suc j) nr) div 2 ^ 16 mod negTableLength a))
              then uint ((lcg ^^ Suc j) nr) mod (vocabSize a - 1) + 1
              else to_int (m NegTable !
                   nat (uint ((lcg ^^ Suc j) nr) div 2 ^ 16 mod negTableLength a)))"
      by (rule conjI)
  qed
  have g: "2 \<le> vocabSize a \<and> vocabSize a < 2 ^ 31 \<longrightarrow> (\<forall>t\<in>set ts. 0 < t \<and> t < vocabSize a)"
    using ng_draws_range [OF _ _ s(3)] by blast
  note calls = s(5) [unfolded ng_calls_def]
  from s(1) s(2) s(3) s(4) n c g calls r f(1) f(2) f(3) f(4)
  show "\<exists>nr ts m1 m2.
          to_u64 (seed a) = Inr nr \<and>
          hs_rounds a (ptr_add (Syn0, 0) (syn0Row a * vectorLength a))
            (m(Neu1e := replicate (nat (vectorLength a)) 0)) = Inr m1 \<and>
          ng_draws a m (nat (ngRounds a)) nr = Inr ts \<and> length ts = nat (ngRounds a) \<and>
          (\<forall>j<nat (ngRounds a).
             ng_draw a m ((lcg ^^ j) nr) = Inr ((lcg ^^ Suc j) nr, ts ! j)) \<and>
          (0 < negTableLength a \<and> negTableLength a < 2 ^ 31 \<and>
           2 \<le> vocabSize a \<and> vocabSize a < 2 ^ 31 \<longrightarrow>
             (\<forall>j<nat (ngRounds a).
                uint ((lcg ^^ Suc j) nr) div 2 ^ 16 mod negTableLength a
                  < int (length (m NegTable)) \<and>
                ts ! j =
                  (if to_int (m NegTable !
                        nat (uint ((lcg ^^ Suc j) nr) div 2 ^ 16 mod negTableLength a)) \<le> 0 \<or>
                      vocabSize a \<le> to_int (m NegTable !
                        nat (uint ((lcg ^^ Suc j) nr) div 2 ^ 16 mod negTableLength a))
                   then uint ((lcg ^^ Suc j) nr) mod (vocabSize a - 1) + 1
                   else to_int (m NegTable !
                        nat (uint ((lcg ^^ Suc j) nr) div 2 ^ 16 mod negTableLength a))))) \<and>
          (2 \<le> vocabSize a \<and> vocabSize a < 2 ^ 31 \<longrightarrow> (\<forall>t\<in>set ts. 0 < t \<and> t < vocabSize a)) \<and>
          ns_seq a (ptr_add (Syn0, 0) (syn0Row a * vectorLength a))
            ((ngStarter a, 1) # map (\<lambda>t. (t, 0)) (filter (\<lambda>t. t \<noteq> ngStarter a) ts)) m1 = Inr m2 \<and>
          skipgram_rounds a m = Inr m2 \<and> m2 Syn0 = m Syn0 \<and>
          length (m' Syn0) = length (m Syn0) \<and>
          (\<forall>i<nat (vectorLength a).
             rd m' (ptr_add (Syn0, 0) (syn0Row a * vectorLength a)) i =
             rd m (ptr_add (Syn0, 0) (syn0Row a * vectorLength a)) i + m2 Neu1e ! i) \<and>
          (\<forall>j<length (m Syn0).
             \<not> (syn0Row a * vectorLength a \<le> int j \<and>
                int j < syn0Row a * vectorLength a + vectorLength a) \<longrightarrow>
             m' Syn0 ! j = m Syn0 ! j)"
    by blast
qed

theorem skipgram_schedule_witness:
  "(\<exists>m'. skipgram sample_args sample_mem = Inr m') \<and>
   (\<exists>nr ts m1 m2.
         to_u64 (seed sample_args) = Inr nr \<and>
         hs_rounds sample_args (ptr_add (Syn0, 0) (syn0Row sample_args * vectorLength sample_args))
           (sample_mem(Neu1e := replicate (nat (vectorLength sample_args)) 0)) = Inr m1 \<and>
         ng_draws sample_args sample_mem (nat (ngRounds sample_args)) nr = Inr ts \<and>
         length ts = nat (ngRounds sample_args) \<and>
         (\<forall>j<nat (ngRounds sample_args).
            ng_draw sample_args sample_mem ((lcg ^^ j) nr) = Inr ((lcg ^^ Suc j) nr, ts ! j)) \<and>
         (0 < negTableLength sample_args \<and> negTableLength sample_args < 2 ^ 31 \<and>
          2 \<le> vocabSize sample_args \<and> vocabSize sample_args < 2 ^ 31 \<longrightarrow>
            (\<forall>j<nat (ngRounds sample_args).
               uint ((lcg ^^ Suc j) nr) div 2 ^ 16 mod negTableLength sample_args
                 < int (length (sample_mem NegTable)) \<and>
               ts ! j =
                 (if to_int (sample_mem NegTable !
                       nat (uint ((lcg ^^ Suc j) nr) div 2 ^ 16 mod negTableLength sample_args)) \<le> 0 \<or>
                     vocabSize sample_args \<le> to_int (sample_mem NegTable !
                       nat (uint ((lcg ^^ Suc j) nr) div 2 ^ 16 mod negTableLength sample_args))
                  then uint ((lcg ^^ Suc j) nr) mod (vocabSize sample_args - 1) + 1
                  else to_int (sample_mem NegTable !
                       nat (uint ((lcg ^^ Suc j) nr) div 2 ^ 16 mod negTableLength sample_args))))) \<and>
         (2 \<le> vocabSize sample_args \<and> vocabSize sample_args < 2 ^ 31 \<longrightarrow>
            (\<forall>t\<in>set ts. 0 < t \<and> t < vocabSize sample_args)) \<and>
         ns_seq sample_args (ptr_add (Syn0, 0) (syn0Row sample_args * vectorLength sample_args))
           ((ngStarter sample_args, 1) #
              map (\<lambda>t. (t, 0)) (filter (\<lambda>t. t \<noteq> ngStarter sample_args) ts)) m1 = Inr m2 \<and>
         skipgram_rounds sample_args sample_mem = Inr m2 \<and> m2 Syn0 = sample_mem Syn0 \<and>
         length ((sample_mem(Syn0 := [1 / 2], Syn1Neg := [1, 3 / 2, 3 / 2], Neu1e := [])) Syn0)
           = length (sample_mem Syn0) \<and>
         (\<forall>i<nat (vectorLength sample_args).
            rd (sample_mem(Syn0 := [1 / 2], Syn1Neg := [1, 3 / 2, 3 / 2], Neu1e := []))
               (ptr_add (Syn0, 0) (syn0Row sample_args * vectorLength sample_args)) i =
            rd sample_mem (ptr_add (Syn0, 0) (syn0Row sample_args * vectorLength sample_args)) i
              + m2 Neu1e ! i) \<and>
         (\<forall>j<length (sample_mem Syn0).
            \<not> (syn0Row sample_args * vectorLength sample_args \<le> int j \<and>
               int j < syn0Row sample_args * vectorLength sample_args + vectorLength sample_args) \<longrightarrow>
            (sample_mem(Syn0 := [1 / 2], Syn1Neg := [1, 3 / 2, 3 / 2], Neu1e := [])) Syn0 ! j
              = sample_mem Syn0 ! j)) \<and>
   to_u64 (seed sample_args) = Inr 0 \<and>
   ng_draws sample_args sample_mem 2 0 = Inr [1, 2] \<and>
   ng_draws sample_args fallback_mem 2 0 = Inr [2, 1]"
proof -
  have "0 < ngRounds sample_args"
    by (simp add: sample_args_def)
  note t = skipgram_schedule [OF this, of sample_mem]
  have seed: "to_u64 (seed sample_args) = Inr 0"
    by (simp add: to_u64_def to_int_def sample_args_def)
  from t [THEN conjunct1, THEN mp, OF sample_wf]
    t [THEN conjunct2, THEN spec, THEN mp, OF sample_run] seed sample_draws fallback_draws
  show ?thesis by (intro conjI)
qed

section \<open>Collisions with the true target\<close>

text \<open>
  C5, as stated, fails in its second half: with \<open>ngRounds = 1\<close> and a draw that collides
  with \<open>ngStarter\<close>, no negative round is completed; the rounds are the single positive
  kernel call.
\<close>

theorem collision_counterexample:
  "ngRounds collide_args = 1 \<and>
   ng_draws collide_args collide_mem 1 0 = Inr [ngStarter collide_args] \<and>
   negative_rounds collide_args [ngStarter collide_args] = 0 \<and>
   skipgram_rounds collide_args collide_mem =
     ns_exec (collide_mem(Neu1e := [0])) (Syn0, 0) (Syn1Neg, 1) (ExpTable, 0) (Neu1e, 0) 1 2 1 1"
proof -
  have "ns_exec (collide_mem(Neu1e := [0])) (Syn0, 0) (Syn1Neg, 1) (ExpTable, 0) (Neu1e, 0) 1 2 1 1
      = Inr (collide_mem(Neu1e := [1 / 2], Syn1Neg := [1, 3 / 2]))"
    by (simp add: run_defs collide_mem_def)
  then have 1: "skipgram_rounds collide_args collide_mem =
     ns_exec (collide_mem(Neu1e := [0])) (Syn0, 0) (Syn1Neg, 1) (ExpTable, 0) (Neu1e, 0) 1 2 1 1"
    unfolding collide_rounds by simp
  have s: "ngStarter collide_args = 1" and 2: "ngRounds collide_args = 1"
    by (simp_all add: collide_args_def)
  have 3: "ng_draws collide_args collide_mem 1 0 = Inr [ngStarter collide_args]"
    unfolding s by (rule collide_draws)
  have 4: "negative_rounds collide_args [ngStarter collide_args] = 0"
    by (simp add: negative_rounds_def)
  from 2 3 4 1 show ?thesis by blast
qed

text \<open>
  C5, amended.  In SkipGram and in CBOW the rounds of a well-formed invocation return; and
  when the rounds return with \<open>ngRounds > 0\<close>: the loop draws exactly \<open>ngRounds\<close>
  candidates, the kernel is invoked with \<open>code = 0\<close> on exactly those that differ from
  \<open>ngStarter\<close> (never on \<open>ngStarter\<close>), and a discarded candidate uses up its
  iteration: the completed negative rounds and the collisions together number
  \<open>ngRounds\<close>.
\<close>

theorem collisions_use_up_rounds:
  fixes a :: skipgram_args and b :: cbow_args
  shows "(skipgram_wf a m \<longrightarrow> (\<exists>m2. skipgram_rounds a m = Inr m2)) \<and>
     (cbow_wf b m' \<longrightarrow> (\<exists>m2. cbow_rounds b m' = Inr m2)) \<and>
     (0 < ngRounds a \<and> skipgram_rounds a m = Inr m2 \<longrightarrow>
      (\<exists>nr ts m1. to_u64 (seed a) = Inr nr \<and>
         hs_rounds a (ptr_add (Syn0, 0) (syn0Row a * vectorLength a))
           (m(Neu1e := replicate (nat (vectorLength a)) 0)) = Inr m1 \<and>
         ng_draws a m (nat (ngRounds a)) nr = Inr ts \<and> length ts = nat (ngRounds a) \<and>
         ns_seq a (ptr_add (Syn0, 0) (syn0Row a * vectorLength a))
           ((ngStarter a, 1) # map (\<lambda>t. (t, 0)) (filter (\<lambda>t. t \<noteq> ngStarter a) ts)) m1 = Inr m2 \<and>
         negative_rounds a ts + count_list ts (ngStarter a) = nat (ngRounds a))) \<and>
     (0 < ngRounds b \<and> cbow_rounds b m' = Inr m2' \<longrightarrow>
      (\<exists>nr ts m0 m1. to_u64 (seed b) = Inr nr \<and> cbow_neu1 b m' = Inr m0 \<and>
         hs_rounds b (Neu1, 0) m0 = Inr m1 \<and>
         ng_draws b m' (nat (ngRounds b)) nr = Inr ts \<and> length ts = nat (ngRounds b) \<and>
         ns_seq b (Neu1, 0)
           ((ngStarter b, 1) # map (\<lambda>t. (t, 0)) (filter (\<lambda>t. t \<noteq> ngStarter b) ts)) m1 = Inr m2' \<and>
         negative_rounds b ts + count_list ts (ngStarter b) = nat (ngRounds b)))"
proof (intro conjI impI)
  assume "skipgram_wf a m"
  then show "\<exists>m2. skipgram_rounds a m = Inr m2"
    by (rule skipgram_rounds_returns)
next
  assume "cbow_wf b m'"
  then show "\<exists>m2. cbow_rounds b m' = Inr m2"
    by (rule cbow_rounds_returns)
next
  assume "0 < ngRounds a \<and> skipgram_rounds a m = Inr m2"
  then have 1: "0 < ngRounds a" and 2: "skipgram_rounds a m = Inr m2" by simp_all
  from skipgram_rounds_Inr [OF 1 2] obtain nr ts m1 where
    s: "to_u64 (seed a) = Inr nr"
      "hs_rounds a (ptr_add (Syn0, 0) (syn0Row a * vectorLength a))
        (m(Neu1e := replicate (nat (vectorLength a)) 0)) = Inr m1"
      "ng_draws a m (nat (ngRounds a)) nr = Inr ts" "length ts = nat (ngRounds a)"
      "ns_seq a (ptr_add (Syn0, 0) (syn0Row a * vectorLength a)) (ng_calls a ts) m1 = Inr m2"
    by blast
  have "negative_rounds a ts + count_list ts (ngStarter a) = nat (ngRounds a)"
    using negative_rounds_count [of a ts] s(4) by simp
  then show "\<exists>nr ts m1. to_u64 (seed a) = Inr nr \<and>
         hs_rounds a (ptr_add (Syn0, 0) (syn0Row a * vectorLength a))
           (m(Neu1e := replicate (nat (vectorLength a)) 0)) = Inr m1 \<and>
         ng_draws a m (nat (ngRounds a)) nr = Inr ts \<and> length ts = nat (ngRounds a) \<and>
         ns_seq a (ptr_add (Syn0, 0) (syn0Row a * vectorLength a))
           ((ngStarter a, 1) # map (\<lambda>t. (t, 0)) (filter (\<lambda>t. t \<noteq> ngStarter a) ts)) m1 = Inr m2 \<and>
         negative_rounds a ts + count_list ts (ngStarter a) = nat (ngRounds a)"
    using s(1-4) s(5) [unfolded ng_calls_def] by blast
next
  assume "0 < ngRounds b \<and> cbow_rounds b m' = Inr m2'"
  then have 1: "0 < ngRounds b" and 2: "cbow_rounds b m' = Inr m2'" by simp_all
  from cbow_rounds_Inr [OF 1 2] obtain nr ts m0 m1 where
    s: "to_u64 (seed b) = Inr nr" "cbow_neu1 b m' = Inr m0"
      "hs_rounds b (Neu1, 0) m0 = Inr m1"
      "ng_draws b m' (nat (ngRounds b)) nr = Inr ts" "length ts = nat (ngRounds b)"
      "ns_seq b (Neu1, 0) (ng_calls b ts) m1 = Inr m2'"
    by blast
  have "negative_rounds b ts + count_list ts (ngStarter b) = nat (ngRounds b)"
    using negative_rounds_count [of b ts] s(5) by simp
  then show "\<exists>nr ts m0 m1. to_u64 (seed b) = Inr nr \<and> cbow_neu1 b m' = Inr m0 \<and>
         hs_rounds b (Neu1, 0) m0 = Inr m1 \<and>
         ng_draws b m' (nat (ngRounds b)) nr = Inr ts \<and> length ts = nat (ngRounds b) \<and>
         ns_seq b (Neu1, 0)
           ((ngStarter b, 1) # map (\<lambda>t. (t, 0)) (filter (\<lambda>t. t \<noteq> ngStarter b) ts)) m1 = Inr m2' \<and>
         negative_rounds b ts + count_list ts (ngStarter b) = nat (ngRounds b)"
    using s(1-5) s(6) [unfolded ng_calls_def] by blast
qed

theorem collisions_use_up_rounds_witness:
  "(\<exists>m2. skipgram_rounds sample_args sample_mem = Inr m2) \<and>
   (\<exists>m2. cbow_rounds cbow_sample_args sample_mem = Inr m2) \<and>
   (\<exists>nr ts m1. to_u64 (seed sample_args) = Inr nr \<and>
         hs_rounds sample_args (ptr_add (Syn0, 0) (syn0Row sample_args * vectorLength sample_args))
           (sample_mem(Neu1e := replicate (nat (vectorLength sample_args)) 0)) = Inr m1 \<and>
         ng_draws sample_args sample_mem (nat (ngRounds sample_args)) nr = Inr ts \<and>
         length ts = nat (ngRounds sample_args) \<and>
         ns_seq sample_args (ptr_add (Syn0, 0) (syn0Row sample_args * vectorLength sample_args))
           ((ngStarter sample_args, 1) #
              map (\<lambda>t. (t, 0)) (filter (\<lambda>t. t \<noteq> ngStarter sample_args) ts)) m1
           = Inr (sample_mem(Neu1e := [- 1 / 2], Syn1Neg := [1, 3 / 2, 3 / 2])) \<and>
         negative_rounds sample_args ts + count_list ts (ngStarter sample_args)
           = nat (ngRounds sample_args)) \<and>
   (\<exists>nr ts m0 m1. to_u64 (seed cbow_sample_args) = Inr nr \<and>
         cbow_neu1 cbow_sample_args sample_mem = Inr m0 \<and>
         hs_rounds cbow_sample_args (Neu1, 0) m0 = Inr m1 \<and>
         ng_draws cbow_sample_args sample_mem (nat (ngRounds cbow_sample_args)) nr = Inr ts \<and>
         length ts = nat (ngRounds cbow_sample_args) \<and>
         ns_seq cbow_sample_args (Neu1, 0)
           ((ngStarter cbow_sample_args, 1) #
              map (\<lambda>t. (t, 0)) (filter (\<lambda>t. t \<noteq> ngStarter cbow_sample_args) ts)) m1
           = Inr (sample_mem(Neu1 := [1], Neu1e := [- 1 / 2], Syn1Neg := [1, 3 / 2, 3 / 2])) \<and>
         negative_rounds cbow_sample_args ts + count_list ts (ngStarter cbow_sample_args)
           = nat (ngRounds cbow_sample_args))"
proof -
  have 1: "0 < ngRounds sample_args \<and> skipgram_rounds sample_args sample_mem
      = Inr (sample_mem(Neu1e := [- 1 / 2], Syn1Neg := [1, 3 / 2, 3 / 2]))"
    using sample_rounds by (simp add: sample_args_def)
  have 2: "0 < ngRounds cbow_sample_args \<and> cbow_rounds cbow_sample_args sample_mem
      = Inr (sample_mem(Neu1 := [1], Neu1e := [- 1 / 2], Syn1Neg := [1, 3 / 2, 3 / 2]))"
    using cbow_sample_rounds by (simp add: cbow_sample_args_def)
  from collisions_use_up_rounds [of sample_args sample_mem cbow_sample_args sample_mem]
    sample_wf cbow_sample_wf 1 2
  show ?thesis by blast
qed

section \<open>The draws do not depend on the embeddings\<close>

text \<open>
  C8.  The rounds of a well-formed invocation return.  Two SkipGram runs (and likewise two
  CBOW runs) that return, with the same seed, the same round count \<open>ngRounds > 0\<close>, and
  the same negative-sampling table, table length and vocabulary size, but any embeddings,
  rates, true targets and hierarchical-softmax rounds: both draw the identical sequence
  \<open>ts\<close> of candidates, the \<open>j\<close>-th from the random state advanced \<open>j\<close> times from the
  seed, and the negative-sampling loop of each run is the kernel invoked along that
  sequence.
\<close>

theorem draws_reproducible:
  fixes a b :: skipgram_args and c d :: cbow_args
  shows "(skipgram_wf a m \<longrightarrow> (\<exists>r. skipgram_rounds a m = Inr r)) \<and>
     (cbow_wf c n \<longrightarrow> (\<exists>q. cbow_rounds c n = Inr q)) \<and>
     (seed a = seed b \<and> ngRounds a = ngRounds b \<and> negTableLength a = negTableLength b \<and>
      vocabSize a = vocabSize b \<and> m NegTable = m' NegTable \<and> 0 < ngRounds a \<and>
      skipgram_rounds a m = Inr r \<and> skipgram_rounds b m' = Inr r' \<longrightarrow>
      (\<exists>nr ts m1 m1'. to_u64 (seed a) = Inr nr \<and>
         ng_draws a m (nat (ngRounds a)) nr = Inr ts \<and>
         ng_draws b m' (nat (ngRounds b)) nr = Inr ts \<and>
         (\<forall>j<nat (ngRounds a).
            ng_draw a m ((lcg ^^ j) nr) = Inr ((lcg ^^ Suc j) nr, ts ! j) \<and>
            ng_draw b m' ((lcg ^^ j) nr) = Inr ((lcg ^^ Suc j) nr, ts ! j)) \<and>
         hs_rounds a (ptr_add (Syn0, 0) (syn0Row a * vectorLength a))
           (m(Neu1e := replicate (nat (vectorLength a)) 0)) = Inr m1 \<and>
         ns_seq a (ptr_add (Syn0, 0) (syn0Row a * vectorLength a)) (ng_calls a ts) m1 = Inr r \<and>
         hs_rounds b (ptr_add (Syn0, 0) (syn0Row b * vectorLength b))
           (m'(Neu1e := replicate (nat (vectorLength b)) 0)) = Inr m1' \<and>
         ns_seq b (ptr_add (Syn0, 0) (syn0Row b * vectorLength b)) (ng_calls b ts) m1' = Inr r')) \<and>
     (seed c = seed d \<and> ngRounds c = ngRounds d \<and> negTableLength c = negTableLength d \<and>
      vocabSize c = vocabSize d \<and> n NegTable = n' NegTable \<and> 0 < ngRounds c \<and>
      cbow_rounds c n = Inr q \<and> cbow_rounds d n' = Inr q' \<longrightarrow>
      (\<exists>nr ts n0 n1 n0' n1'. to_u64 (seed c) = Inr nr \<and>
         ng_draws c n (nat (ngRounds c)) nr = Inr ts \<and>
         ng_draws d n' (nat (ngRounds d)) nr = Inr ts \<and>
         (\<forall>j<nat (ngRounds c).
            ng_draw c n ((lcg ^^ j) nr) = Inr ((lcg ^^ Suc j) nr, ts ! j) \<and>
            ng_draw d n' ((lcg ^^ j) nr) = Inr ((lcg ^^ Suc j) nr, ts ! j)) \<and>
         cbow_neu1 c n = Inr n0 \<and> hs_rounds c (Neu1, 0) n0 = Inr n1 \<and>
         ns_seq c (Neu1, 0) (ng_calls c ts) n1 = Inr q \<and>
         cbow_neu1 d n' = Inr n0' \<and> hs_rounds d (Neu1, 0) n0' = Inr n1' \<and>
         ns_seq d (Neu1, 0) (ng_calls d ts) n1' = Inr q'))"
proof (intro conjI impI)
  assume "skipgram_wf a m"
  then show "\<exists>r. skipgram_rounds a m = Inr r"
    by (rule skipgram_rounds_returns)
next
  assume "cbow_wf c n"
  then show "\<exists>q. cbow_rounds c n = Inr q"
    by (rule cbow_rounds_returns)
next
  assume h: "seed a = seed b \<and> ngRounds a = ngRounds b \<and> negTableLength a = negTableLength b \<and>
      vocabSize a = vocabSize b \<and> m NegTable = m' NegTable \<and> 0 < ngRounds a \<and>
      skipgram_rounds a m = Inr r \<and> skipgram_rounds b m' = Inr r'"
  then have e: "negTableLength a = negTableLength b" "vocabSize a = vocabSize b"
      "m NegTable = m' NegTable" and k: "ngRounds a = ngRounds b" and sd: "seed a = seed b"
    and pos: "0 < ngRounds a" "0 < ngRounds b"
    and ra: "skipgram_rounds a m = Inr r" and rb: "skipgram_rounds b m' = Inr r'"
    by simp_all
  from skipgram_rounds_Inr [OF pos(1) ra] obtain nr ts m1 where
    s: "to_u64 (seed a) = Inr nr"
      "hs_rounds a (ptr_add (Syn0, 0) (syn0Row a * vectorLength a))
        (m(Neu1e := replicate (nat (vectorLength a)) 0)) = Inr m1"
      "ng_draws a m (nat (ngRounds a)) nr = Inr ts"
      "ns_seq a (ptr_add (Syn0, 0) (syn0Row a * vectorLength a)) (ng_calls a ts) m1 = Inr r"
    by blast
  from skipgram_rounds_Inr [OF pos(2) rb] obtain nr' ts' m1' where
    s': "to_u64 (seed b) = Inr nr'"
      "hs_rounds b (ptr_add (Syn0, 0) (syn0Row b * vectorLength b))
        (m'(Neu1e := replicate (nat (vectorLength b)) 0)) = Inr m1'"
      "ng_draws b m' (nat (ngRounds b)) nr' = Inr ts'"
      "ns_seq b (ptr_add (Syn0, 0) (syn0Row b * vectorLength b)) (ng_calls b ts') m1' = Inr r'"
    by blast
  have nr: "nr' = nr" using s(1) s'(1) sd by simp
  have "ng_draws b m' (nat (ngRounds b)) nr = ng_draws a m (nat (ngRounds a)) nr"
    unfolding k [symmetric] using ng_draws_cong [where a = a and b = b and m = m and m' = m', OF e, of "nat (ngRounds a)" nr] by simp
  then have ts: "ts' = ts" using s(3) s'(3) nr by simp
  have nth: "\<forall>j<nat (ngRounds a).
            ng_draw a m ((lcg ^^ j) nr) = Inr ((lcg ^^ Suc j) nr, ts ! j) \<and>
            ng_draw b m' ((lcg ^^ j) nr) = Inr ((lcg ^^ Suc j) nr, ts ! j)"
    using ng_draws_nth [OF s(3)] ng_draws_nth [OF s'(3) [unfolded nr ts]] k by simp
  show "\<exists>nr ts m1 m1'. to_u64 (seed a) = Inr nr \<and>
         ng_draws a m (nat (ngRounds a)) nr = Inr ts \<and>
         ng_draws b m' (nat (ngRounds b)) nr = Inr ts \<and>
         (\<forall>j<nat (ngRounds a).
            ng_draw a m ((lcg ^^ j) nr) = Inr ((lcg ^^ Suc j) nr, ts ! j) \<and>
            ng_draw b m' ((lcg ^^ j) nr) = Inr ((lcg ^^ Suc j) nr, ts ! j)) \<and>
         hs_rounds a (ptr_add (Syn0, 0) (syn0Row a * vectorLength a))
           (m(Neu1e := replicate (nat (vectorLength a)) 0)) = Inr m1 \<and>
         ns_seq a (ptr_add (Syn0, 0) (syn0Row a * vectorLength a)) (ng_calls a ts) m1 = Inr r \<and>
         hs_rounds b (ptr_add (Syn0, 0) (syn0Row b * vectorLength b))
           (m'(Neu1e := replicate (nat (vectorLength b)) 0)) = Inr m1' \<and>
         ns_seq b (ptr_add (Syn0, 0) (syn0Row b * vectorLength b)) (ng_calls b ts) m1' = Inr r'"
    using s s'(2) s'(3,4) [unfolded nr ts] nth by blast
next
  assume h: "seed c = seed d \<and> ngRounds c = ngRounds d \<and> negTableLength c = negTableLength d \<and>
      vocabSize c = vocabSize d \<and> n NegTable = n' NegTable \<and> 0 < ngRounds c \<and>
      cbow_rounds c n = Inr q \<and> cbow_rounds d n' = Inr q'"
  then have e: "negTableLength c = negTableLength d" "vocabSize c = vocabSize d"
      "n NegTable = n' NegTable" and k: "ngRounds c = ngRounds d" and sd: "seed c = seed d"
    and pos: "0 < ngRounds c" "0 < ngRounds d"
    and ra: "cbow_rounds c n = Inr q" and rb: "cbow_rounds d n' = Inr q'"
    by simp_all
  from cbow_rounds_Inr [OF pos(1) ra] obtain nr ts n0 n1 where
    s: "to_u64 (seed c) = Inr nr" "cbow_neu1 c n = Inr n0"
      "hs_rounds c (Neu1, 0) n0 = Inr n1"
      "ng_draws c n (nat (ngRounds c)) nr = Inr ts"
      "ns_seq c (Neu1, 0) (ng_calls c ts) n1 = Inr q"
    by blast
  from cbow_rounds_Inr [OF pos(2) rb] obtain nr' ts' n0' n1' where
    s': "to_u64 (seed d) = Inr nr'" "cbow_neu1 d n' = Inr n0'"
      "hs_rounds d (Neu1, 0) n0' = Inr n1'"
      "ng_draws d n' (nat (ngRounds d)) nr' = Inr ts'"
      "ns_seq d (Neu1, 0) (ng_calls d ts') n1' = Inr q'"
    by blast
  have nr: "nr' = nr" using s(1) s'(1) sd by simp
  have "ng_draws d n' (nat (ngRounds d)) nr = ng_draws c n (nat (ngRounds c)) nr"
    unfolding k [symmetric] using ng_draws_cong [where a = c and b = d and m = n and m' = n', OF e, of "nat (ngRounds c)" nr] by simp
  then have ts: "ts' = ts" using s(4) s'(4) nr by simp
  have nth: "\<forall>j<nat (ngRounds c).
            ng_draw c n ((lcg ^^ j) nr) = Inr ((lcg ^^ Suc j) nr, ts ! j) \<and>
            ng_draw d n' ((lcg ^^ j) nr) = Inr ((lcg ^^ Suc j) nr, ts ! j)"
    using ng_draws_nth [OF s(4)] ng_draws_nth [OF s'(4) [unfolded nr ts]] k by simp
  show "\<exists>nr ts n0 n1 n0' n1'. to_u64 (seed c) = Inr nr \<and>
         ng_draws c n (nat (ngRounds c)) nr = Inr ts \<and>
         ng_draws d n' (nat (ngRounds d)) nr = Inr ts \<and>
         (\<forall>j<nat (ngRounds c).
            ng_draw c n ((lcg ^^ j) nr) = Inr ((lcg ^^ Suc j) nr, ts ! j) \<and>
            ng_draw d n' ((lcg ^^ j) nr) = Inr ((lcg ^^ Suc j) nr, ts ! j)) \<and>
         cbow_neu1 c n = Inr n0 \<and> hs_rounds c (Neu1, 0) n0 = Inr n1 \<and>
         ns_seq c (Neu1, 0) (ng_calls c ts) n1 = Inr q \<and>
         cbow_neu1 d n' = Inr n0' \<and> hs_rounds d (Neu1, 0) n0' = Inr n1' \<and>
         ns_seq d (Neu1, 0) (ng_calls d ts) n1' = Inr q'"
    using s s'(2,3) s'(4,5) [unfolded nr ts] nth by blast
qed

theorem draws_reproducible_witness:
  "(\<exists>r. skipgram_rounds sample_args sample_mem = Inr r) \<and>
   (\<exists>r. skipgram_rounds sample_args_2 sample_mem_2 = Inr r) \<and>
   (\<exists>q. cbow_rounds cbow_sample_args sample_mem = Inr q) \<and>
   (\<exists>q. cbow_rounds cbow_sample_args_2 sample_mem_2 = Inr q) \<and>
   (\<exists>nr ts. to_u64 (seed sample_args) = Inr nr \<and>
      ng_draws sample_args sample_mem (nat (ngRounds sample_args)) nr = Inr ts \<and>
      ng_draws sample_args_2 sample_mem_2 (nat (ngRounds sample_args_2)) nr = Inr ts) \<and>
   (\<exists>nr ts. to_u64 (seed cbow_sample_args) = Inr nr \<and>
      ng_draws cbow_sample_args sample_mem (nat (ngRounds cbow_sample_args)) nr = Inr ts \<and>
      ng_draws cbow_sample_args_2 sample_mem_2 (nat (ngRounds cbow_sample_args_2)) nr = Inr ts)"
proof -
  obtain q' where q': "cbow_rounds cbow_sample_args_2 sample_mem_2 = Inr q'"
    using cbow_sample_rounds_2 by blast
  have 1: "seed sample_args = seed sample_args_2 \<and> ngRounds sample_args = ngRounds sample_args_2 \<and>
      negTableLength sample_args = negTableLength sample_args_2 \<and>
      vocabSize sample_args = vocabSize sample_args_2 \<and>
      sample_mem NegTable = sample_mem_2 NegTable \<and> 0 < ngRounds sample_args"
    by (simp add: sample_args_def sample_args_2_def sample_mem_def sample_mem_2_def)
  have 2: "seed cbow_sample_args = seed cbow_sample_args_2 \<and>
      ngRounds cbow_sample_args = ngRounds cbow_sample_args_2 \<and>
      negTableLength cbow_sample_args = negTableLength cbow_sample_args_2 \<and>
      vocabSize cbow_sample_args = vocabSize cbow_sample_args_2 \<and>
      sample_mem NegTable = sample_mem_2 NegTable \<and> 0 < ngRounds cbow_sample_args"
    by (simp add: cbow_sample_args_def cbow_sample_args_2_def sample_mem_def sample_mem_2_def)
  have 3: "\<exists>r. skipgram_rounds sample_args sample_mem = Inr r"
      "\<exists>q. cbow_rounds cbow_sample_args sample_mem = Inr q"
    using draws_reproducible [of sample_args sample_mem cbow_sample_args sample_mem]
      sample_wf cbow_sample_wf by blast+
  have 4: "\<exists>r. skipgram_rounds sample_args_2 sample_mem_2 = Inr r"
      "\<exists>q. cbow_rounds cbow_sample_args_2 sample_mem_2 = Inr q"
    using draws_reproducible [of sample_args_2 sample_mem_2 cbow_sample_args_2 sample_mem_2]
      sample_wf_2 cbow_sample_wf_2 by blast+
  have 5: "seed sample_args = seed sample_args_2 \<and> ngRounds sample_args = ngRounds sample_args_2 \<and>
      negTableLength sample_args = negTableLength sample_args_2 \<and>
      vocabSize sample_args = vocabSize sample_args_2 \<and>
      sample_mem NegTable = sample_mem_2 NegTable \<and> 0 < ngRounds sample_args \<and>
      skipgram_rounds sample_args sample_mem
        = Inr (sample_mem(Neu1e := [- 1 / 2], Syn1Neg := [1, 3 / 2, 3 / 2])) \<and>
      skipgram_rounds sample_args_2 sample_mem_2
        = Inr (sample_mem_2(Neu1e := [- 1 / 4], Syn1Neg := [0, 1 / 4, 5 / 4]))"
    using 1 sample_rounds sample_rounds_2 by simp
  have 6: "seed cbow_sample_args = seed cbow_sample_args_2 \<and>
      ngRounds cbow_sample_args = ngRounds cbow_sample_args_2 \<and>
      negTableLength cbow_sample_args = negTableLength cbow_sample_args_2 \<and>
      vocabSize cbow_sample_args = vocabSize cbow_sample_args_2 \<and>
      sample_mem NegTable = sample_mem_2 NegTable \<and> 0 < ngRounds cbow_sample_args \<and>
      cbow_rounds cbow_sample_args sample_mem
        = Inr (sample_mem(Neu1 := [1], Neu1e := [- 1 / 2], Syn1Neg := [1, 3 / 2, 3 / 2])) \<and>
      cbow_rounds cbow_sample_args_2 sample_mem_2 = Inr q'"
    using 2 cbow_sample_rounds q' by simp
  note s = draws_reproducible [of sample_args sample_mem cbow_sample_args sample_mem
      sample_args_2 sample_mem_2 "sample_mem(Neu1e := [- 1 / 2], Syn1Neg := [1, 3 / 2, 3 / 2])"
      "sample_mem_2(Neu1e := [- 1 / 4], Syn1Neg := [0, 1 / 4, 5 / 4])"
      cbow_sample_args_2 sample_mem_2
      "sample_mem(Neu1 := [1], Neu1e := [- 1 / 2], Syn1Neg := [1, 3 / 2, 3 / 2])" q']
  from s [THEN conjunct2, THEN conjunct2, THEN conjunct1, THEN mp, OF 5]
  have 7: "\<exists>nr ts. to_u64 (seed sample_args) = Inr nr \<and>
      ng_draws sample_args sample_mem (nat (ngRounds sample_args)) nr = Inr ts \<and>
      ng_draws sample_args_2 sample_mem_2 (nat (ngRounds sample_args_2)) nr = Inr ts"
    by blast
  from s [THEN conjunct2, THEN conjunct2, THEN conjunct2, THEN mp, OF 6]
  have 8: "\<exists>nr ts. to_u64 (seed cbow_sample_args) = Inr nr \<and>
      ng_draws cbow_sample_args sample_mem (nat (ngRounds cbow_sample_args)) nr = Inr ts \<and>
      ng_draws cbow_sample_args_2 sample_mem_2 (nat (ngRounds cbow_sample_args_2)) nr = Inr ts"
    by blast
  from 3 4 7 8 show ?thesis by blast
qed

end
